theory Spec2Isabelle
  imports Main "HOL-Library.AList" "HOL-Library.Product_Lexorder" "HOL-Library.List_Lexorder"
    "HOL-Library.Multiset"
begin

section \<open>Values\<close>

text \<open>
  Request bodies, sanitized payloads, stored documents and response bodies are JavaScript
  values. \<open>JDate\<close> is a \<^verbatim>\<open>Date\<close> object, held as its epoch milliseconds. An object is an
  association list in insertion order. Numbers are never inspected by the code below (no
  schema has a number field), so integers stand for all of them.
\<close>

datatype json =
    JNull
  | JBool bool
  | JNum int
  | JStr string
  | JDate int
  | JArr "json list"
  | JObj "(string \<times> json) list"

text \<open>JavaScript truthiness, as used by \<^verbatim>\<open>if (x)\<close> and \<^verbatim>\<open>x || y\<close>.\<close>

fun truthy :: "json \<Rightarrow> bool" where
  "truthy JNull = False"
| "truthy (JBool b) = b"
| "truthy (JNum n) = (n \<noteq> 0)"
| "truthy (JStr s) = (s \<noteq> [])"
| "truthy (JDate t) = True"
| "truthy (JArr xs) = True"
| "truthy (JObj kvs) = True"

text \<open>
  An object literal whose property values may be \<^verbatim>\<open>undefined\<close> (\<open>None\<close>):
  \<^verbatim>\<open>JSON.stringify\<close> leaves such properties out of the serialized body.
\<close>

fun obj_entries :: "(string \<times> json option) list \<Rightarrow> (string \<times> json) list" where
  "obj_entries [] = []"
| "obj_entries ((k, None) # kvs) = obj_entries kvs"
| "obj_entries ((k, Some v) # kvs) = (k, v) # obj_entries kvs"

definition obj :: "(string \<times> json option) list \<Rightarrow> json" where
  "obj kvs = JObj (obj_entries kvs)"

text \<open>Decimal rendering of a status code, for the template literal \<^verbatim>\<open>`${statusCode}`\<close>.\<close>

definition digit_char :: "nat \<Rightarrow> char" where
  "digit_char d = (''0123456789'' ! (d mod 10))"

fun string_of_nat :: "nat \<Rightarrow> string" where
  "string_of_nat n =
     (if n < 10 then [digit_char n] else string_of_nat (n div 10) @ [digit_char (n mod 10)])"

declare string_of_nat.simps [simp del]

definition startsWith :: "string \<Rightarrow> string \<Rightarrow> bool" where
  "startsWith s p = (take (length p) s = p)"

section \<open>Responses (Express)\<close>

text \<open>
  \<^verbatim>\<open>res.status(code).json(payload)\<close>: the status code set and the value handed to
  \<^verbatim>\<open>json\<close>. Express (4.18) sends no body with the status codes 204, 205 and 304
  (\<^verbatim>\<open>res.send\<close> replaces the chunk by the empty string there), and the runtime writes no
  body of an informational response (1xx), so the body on the wire is \<open>wire_body\<close>, with
  \<open>None\<close> for the empty body. The request's method is one of the routes' methods (the
  answer to a \<^verbatim>\<open>HEAD\<close> request has no body at all).
\<close>

record response =
  res_status :: nat
  res_payload :: json

definition res_json :: "nat \<Rightarrow> json \<Rightarrow> response" where
  "res_json c payload = \<lparr>res_status = c, res_payload = payload\<rparr>"

definition wire_body :: "response \<Rightarrow> json option" where
  "wire_body r =
     (if res_status r < 200 \<or> res_status r = 204 \<or> res_status r = 205 \<or> res_status r = 304
      then None else Some (res_payload r))"

text \<open>The properties of a response payload, and its \<^verbatim>\<open>status\<close> property.\<close>

definition payload_keys :: "response \<Rightarrow> string list" where
  "payload_keys r = (case res_payload r of JObj kvs \<Rightarrow> map fst kvs | _ \<Rightarrow> [])"

definition status_string :: "response \<Rightarrow> json option" where
  "status_string r = (case res_payload r of JObj kvs \<Rightarrow> map_of kvs ''status'' | _ \<Rightarrow> None)"

text \<open>
  The rule of the specification for error responses: the status string is \<^verbatim>\<open>"fail"\<close>
  for a 4xx status code and \<^verbatim>\<open>"error"\<close> otherwise.
\<close>

definition is_4xx :: "nat \<Rightarrow> bool" where
  "is_4xx c = (400 \<le> c \<and> c < 500)"

definition fail_iff_4xx :: "response \<Rightarrow> bool" where
  "fail_iff_4xx r =
     (status_string r = Some (JStr (if is_4xx (res_status r) then ''fail'' else ''error'')))"

section \<open>Errors\<close>

text \<open>
  An error object, with the properties the error middleware inspects. \<open>cls\<close> is the class
  that \<^verbatim>\<open>instanceof\<close> tests; a property that may be \<^verbatim>\<open>undefined\<close> is an option.
  \<open>cast_path\<close> and \<open>cast_value\<close> are \<^verbatim>\<open>err.path\<close> and \<^verbatim>\<open>err.value\<close> (already rendered as
  text) of a Mongoose cast error; \<open>errors\<close> is \<^verbatim>\<open>err.errors\<close>, from path to the
  sub-error's message; \<open>has_body\<close> is \<^verbatim>\<open>'body' in err\<close>.
\<close>

datatype err_class =
    CastError | ValidationError | SyntaxError | AppErrorClass | TypeError | RangeError
  | MongoServerError | PlainError

record js_error =
  cls :: err_class
  message :: "string option"
  statusCode :: "nat option"
  status :: "json option"
  isOperational :: bool
  code :: "int option"
  cast_path :: string
  cast_value :: string
  errors :: "(string \<times> string) list option"
  errmsg :: "string option"
  has_body :: bool
  stack :: "string option"

text \<open>A plain \<^verbatim>\<open>new Error(msg)\<close> of the given class, with stack trace \<open>tr\<close>.\<close>

definition new_error :: "err_class \<Rightarrow> string \<Rightarrow> string \<Rightarrow> js_error" where
  "new_error c msg tr =
     \<lparr>cls = c, message = Some msg, statusCode = None, status = None, isOperational = False,
      code = None, cast_path = [], cast_value = [], errors = None, errmsg = None,
      has_body = False, stack = Some tr\<rparr>"

text \<open>
  \<^verbatim>\<open>class AppError\<close> (utils/errorHandler.js). \<open>tr\<close> is what \<^verbatim>\<open>Error.captureStackTrace\<close>
  records.
\<close>

definition AppError :: "string \<Rightarrow> string \<Rightarrow> nat \<Rightarrow> js_error" where
  "AppError tr msg sc =
     (new_error AppErrorClass msg tr)
       \<lparr>statusCode := Some sc,
        status := Some (JStr (if startsWith (string_of_nat sc) ''4'' then ''fail'' else ''error'')),
        isOperational := True\<rparr>"

text \<open>
  The execution environment of one request, with what the code takes from its runtime and
  its libraries:
  \<^item> \<open>NODE_ENV\<close>: \<^verbatim>\<open>process.env.NODE_ENV\<close>;
  \<^item> \<open>trace\<close>: the stack trace captured by an error constructed during the request;
  \<^item> \<open>joi_now\<close>: \<^verbatim>\<open>Date.now()\<close> when the validation middleware compares a date with
    \<^verbatim>\<open>'now'\<close>;
  \<^item> \<open>model_now\<close>: \<^verbatim>\<open>Date.now()\<close> when the model's deadline validator runs;
  \<^item> \<open>stamp_now\<close>: the time the store writes into \<^verbatim>\<open>createdAt\<close> and \<^verbatim>\<open>updatedAt\<close>;
  \<^item> \<open>parse_iso_date\<close>: the validation library's conversion of a string or a number
    to a date under the ISO format, \<open>None\<close> when it yields no valid date;
  \<^item> \<open>default_template\<close>: the validation library's own message for an error type and a
    label, used where a schema gives no message for the type;
  \<^item> \<open>new_id\<close>: the identifier the store driver generates for a new document;
  \<^item> \<open>cast_id\<close>: the store library's conversion of a request's id text to an
    identifier, \<open>None\<close> when the text is not a well-formed identifier;
  \<^item> \<open>store_cast\<close>: the store library's conversion of a value to the type of a path
    when it is of another type, \<open>None\<close> when it does not convert;
  \<^item> \<open>cast_message\<close>: the store library's message for a value that does not convert,
    from the name of the type, the path and the value.
\<close>

record env =
  NODE_ENV :: "string option"
  trace :: string
  joi_now :: int
  model_now :: int
  stamp_now :: int
  parse_iso_date :: "json \<Rightarrow> int option"
  default_template :: "string \<Rightarrow> string \<Rightarrow> string"
  new_id :: string
  cast_id :: "string \<Rightarrow> string option"
  store_cast :: "string \<Rightarrow> json \<Rightarrow> json option"
  cast_message :: "string \<Rightarrow> string \<Rightarrow> json \<Rightarrow> string"

text \<open>\<^verbatim>\<open>errors.join('. ')\<close>; the general \<^verbatim>\<open>Array.prototype.join\<close>.\<close>

fun join :: "string \<Rightarrow> string list \<Rightarrow> string" where
  "join sep [] = []"
| "join sep [x] = x"
| "join sep (x # y # ys) = x @ sep @ join sep (y # ys)"

text \<open>
  \<^verbatim>\<open>res.status(c).json(payload)\<close> with a status code \<open>c\<close> taken from an error object:
  when the head of the response is written, the runtime refuses a status code outside
  100..999 and throws a \<^verbatim>\<open>RangeError\<close> (\<open>Inl\<close>); no response is sent then. The codes
  that the handlers write as literals (200, 201, 204, 400) are in the range, and
  \<open>res_json\<close> stands for the call there.
\<close>

definition send_json :: "string \<Rightarrow> nat \<Rightarrow> json \<Rightarrow> js_error + response" where
  "send_json tr c payload =
     (if 100 \<le> c \<and> c \<le> 999 then Inr (res_json c payload)
      else Inl (new_error RangeError (''Invalid status code: '' @ string_of_nat c) tr))"

text \<open>\<^verbatim>\<open>handleError\<close>: the generic response.\<close>

definition errors_json :: "(string \<times> string) list \<Rightarrow> json" where
  "errors_json es = JObj (map (\<lambda>(p, m). (p, JObj [(''message'', JStr m)])) es)"

definition handleError :: "env \<Rightarrow> js_error \<Rightarrow> js_error + response" where
  "handleError e err =
     (let sc = (case statusCode err of None \<Rightarrow> 500 | Some c \<Rightarrow> c);
          msg = (case message err of None \<Rightarrow> ''Something went wrong'' | Some m \<Rightarrow> m)
      in send_json (trace e) sc
           (obj [(''status'',
                    Some (case status err of
                            None \<Rightarrow> JStr ''error''
                          | Some s \<Rightarrow> if truthy s then s else JStr ''error'')),
                 (''message'', Some (JStr msg)),
                 (''errors'', map_option errors_json (errors err)),
                 (''stack'',
                    if NODE_ENV e = Some ''development''
                    then map_option JStr (stack err) else None)]))"

definition handleCastError :: "string \<Rightarrow> js_error \<Rightarrow> js_error" where
  "handleCastError tr err =
     AppError tr (''Invalid '' @ cast_path err @ '': '' @ cast_value err) 400"

definition handleValidationError :: "string \<Rightarrow> js_error \<Rightarrow> js_error + js_error" where
  "handleValidationError tr err =
     (case errors err of
        None \<Rightarrow> Inl (new_error TypeError ''Cannot convert undefined or null to object'' tr)
      | Some es \<Rightarrow>
          Inr (AppError tr (''Invalid input data: '' @ join ''. '' (map snd es)) 400))"

text \<open>
  The match of \<^verbatim>\<open>/(["'])(\\?.)*?\1/\<close>: after an opening quote \<open>q\<close>, the lazy loop first
  tries to close on \<open>q\<close>, else takes one more step, preferring a backslash with the
  character after it over a single character, and backtracks to the single character when
  the rest fails. The dot matches no line terminator.
\<close>

definition line_terminator :: "char \<Rightarrow> bool" where
  "line_terminator c = (c = CHR 0x0A \<or> c = CHR 0x0D)"

fun quoted_rest :: "char \<Rightarrow> string \<Rightarrow> string option" where
  "quoted_rest q [] = None"
| "quoted_rest q [c] = (if c = q then Some [c] else None)"
| "quoted_rest q (c # d # s) =
     (if c = q then Some [c]
      else
        (case (if c = CHR 0x5C \<and> \<not> line_terminator d
               then map_option (\<lambda>m. c # d # m) (quoted_rest q s) else None) of
           Some m \<Rightarrow> Some m
         | None \<Rightarrow>
             if line_terminator c then None
             else map_option (\<lambda>m. c # m) (quoted_rest q (d # s))))"

fun match_quoted :: "string \<Rightarrow> string option" where
  "match_quoted [] = None"
| "match_quoted (c # s) =
     (if c = CHR 0x22 \<or> c = CHR 0x27
      then (case quoted_rest c s of
              Some m \<Rightarrow> Some (c # m)
            | None \<Rightarrow> match_quoted s)
      else match_quoted s)"

definition handleDuplicateFieldError :: "string \<Rightarrow> js_error \<Rightarrow> js_error + js_error" where
  "handleDuplicateFieldError tr err =
     (case errmsg err of
        None \<Rightarrow>
          Inl (new_error TypeError ''Cannot read properties of undefined (reading 'match')'' tr)
      | Some m \<Rightarrow>
          (case match_quoted m of
             None \<Rightarrow>
               Inl (new_error TypeError ''Cannot read properties of null (reading '0')'' tr)
           | Some v \<Rightarrow>
               Inr (AppError tr
                      (''Duplicate field value: '' @ v @ ''. Please use another value.'')
                      400)))"

text \<open>
  \<^verbatim>\<open>errorHandler\<close> (middleware/errorMiddleware.js). \<^verbatim>\<open>{ ...err }\<close> copies the own
  enumerable properties, which leaves out the stack of an error object; the message is
  copied by the next statement. \<open>translate\<close> is the first three conditionals: each tests
  the original \<open>err\<close>, and a later one replaces the result of an earlier one. \<open>Inl\<close> is an
  exception thrown inside the handler, \<open>Inr\<close> the response sent. After an exception the
  handler sends nothing: the exception goes on to the framework's own final handler.
\<close>

definition spread :: "js_error \<Rightarrow> js_error" where
  "spread err = err\<lparr>stack := None\<rparr>"

definition translate :: "string \<Rightarrow> js_error \<Rightarrow> js_error + js_error" where
  "translate tr err =
     (let error0 = spread err;
          error1 = (if cls err = CastError then handleCastError tr err else error0)
      in case (if cls err = ValidationError then handleValidationError tr err
               else Inr error1) of
           Inl thrown \<Rightarrow> Inl thrown
         | Inr error2 \<Rightarrow>
             if code err = Some 11000 then handleDuplicateFieldError tr err else Inr error2)"

definition invalid_json :: "js_error \<Rightarrow> bool" where
  "invalid_json err = (cls err = SyntaxError \<and> status err = Some (JNum 400) \<and> has_body err)"

definition operational_response :: "string \<Rightarrow> js_error \<Rightarrow> js_error + response" where
  "operational_response tr err =
     (case statusCode err of
        None \<Rightarrow> Inl (new_error RangeError ''Invalid status code: undefined'' tr)
      | Some sc \<Rightarrow>
          send_json tr sc
            (obj [(''status'', status err),
                  (''message'', map_option JStr (message err))]))"

definition errorHandler :: "env \<Rightarrow> js_error \<Rightarrow> js_error + response" where
  "errorHandler e err =
     (case translate (trace e) err of
        Inl thrown \<Rightarrow> Inl thrown
      | Inr error \<Rightarrow>
          if invalid_json err
          then Inr (res_json 400
                 (obj [(''status'', Some (JStr ''error'')),
                       (''message'',
                          Some (JStr (''Invalid JSON: '' @
                            (case message err of None \<Rightarrow> ''undefined'' | Some m \<Rightarrow> m))))]))
          else if isOperational err then operational_response (trace e) err
          else handleError e error)"

text \<open>\<^verbatim>\<open>notFound\<close>: the error raised for a route that matches nothing.\<close>

definition notFound :: "env \<Rightarrow> string \<Rightarrow> js_error" where
  "notFound e originalUrl =
     (new_error PlainError (''Not Found - '' @ originalUrl) (trace e))\<lparr>statusCode := Some 404\<rparr>"

text \<open>
  The body on the wire after the handler: that of the response sent, and none when the
  handler has thrown and sent nothing.
\<close>

definition sent_body :: "js_error + response \<Rightarrow> json option" where
  "sent_body out = (case out of Inl thrown \<Rightarrow> None | Inr r \<Rightarrow> wire_body r)"

section \<open>Schema validation (validators/taskValidator.js)\<close>

text \<open>
  A string is a list of 8-bit characters. \<^verbatim>\<open>String.prototype.trim\<close> removes white space
  at both ends; these are the white space characters in that range.
\<close>

definition is_space :: "char \<Rightarrow> bool" where
  "is_space c = (c \<in> set [CHR 0x09, CHR 0x0A, CHR 0x0B, CHR 0x0C, CHR 0x0D, CHR 0x20, CHR 0xA0])"

definition trim :: "string \<Rightarrow> string" where
  "trim s = rev (dropWhile is_space (rev (dropWhile is_space s)))"

definition lower_char :: "char \<Rightarrow> char" where
  "lower_char c =
     (if (65::nat) \<le> of_char c \<and> of_char c \<le> (90::nat)
      then char_of (of_char c + (32::nat)) else c)"

definition toLowerCase :: "string \<Rightarrow> string" where
  "toLowerCase s = map lower_char s"

text \<open>
  A field's schema is the chain of calls that builds it: the base type, the rules in the
  order of the chain, the values of \<^verbatim>\<open>valid\<close> and \<^verbatim>\<open>allow\<close> (\<open>only\<close> is set by
  \<^verbatim>\<open>valid\<close>), \<^verbatim>\<open>required\<close>, \<^verbatim>\<open>default\<close> and \<^verbatim>\<open>messages\<close>.
\<close>

datatype base_type = StringType | DateType | BooleanType

datatype rule = Trim | Min nat | Max nat | Iso | MinNow

record field_schema =
  base :: base_type
  rules :: "rule list"
  valids :: "json list"
  only :: bool
  required :: bool
  default_value :: "json option"
  messages :: "(string \<times> string) list"

record object_schema =
  keys :: "(string \<times> field_schema) list"
  min_keys :: "nat option"
  object_messages :: "(string \<times> string) list"

definition createTaskSchema :: object_schema where
  "createTaskSchema =
     \<lparr>keys =
        [(''title'',
          \<lparr>base = StringType, rules = [Trim, Min 3, Max 100], valids = [], only = False,
           required = True, default_value = None,
           messages =
             [(''string.base'', ''Title must be a string''),
              (''string.empty'', ''Title is required''),
              (''string.min'', ''Title must be at least 3 characters long''),
              (''string.max'', ''Title cannot be more than 100 characters''),
              (''any.required'', ''Title is required'')]\<rparr>),
         (''description'',
          \<lparr>base = StringType, rules = [Trim, Max 500], valids = [JStr []], only = False,
           required = False, default_value = None,
           messages =
             [(''string.base'', ''Description must be a string''),
              (''string.max'', ''Description cannot be more than 500 characters'')]\<rparr>),
         (''category'',
          \<lparr>base = StringType, rules = [Trim],
           valids = [JStr ''Work'', JStr ''Personal'', JStr ''Study'', JStr ''Health'',
                     JStr ''Other''],
           only = True, required = True, default_value = None,
           messages =
             [(''string.base'', ''Category must be a string''),
              (''string.empty'', ''Category is required''),
              (''any.required'', ''Category is required''),
              (''any.only'',
               ''Category must be one of: Work, Personal, Study, Health, Other'')]\<rparr>),
         (''priority'',
          \<lparr>base = StringType, rules = [Trim],
           valids = [JStr ''Low'', JStr ''Medium'', JStr ''High''],
           only = True, required = True, default_value = None,
           messages =
             [(''string.base'', ''Priority must be a string''),
              (''string.empty'', ''Priority is required''),
              (''any.required'', ''Priority is required''),
              (''any.only'', ''Priority must be one of: Low, Medium, High'')]\<rparr>),
         (''deadline'',
          \<lparr>base = DateType, rules = [Iso, MinNow], valids = [], only = False,
           required = True, default_value = None,
           messages =
             [(''date.base'', ''Deadline must be a valid date''),
              (''date.format'', ''Deadline must be in ISO format (YYYY-MM-DD)''),
              (''date.min'', ''Deadline must be in the future''),
              (''any.required'', ''Deadline is required'')]\<rparr>),
         (''completed'',
          \<lparr>base = BooleanType, rules = [], valids = [], only = False,
           required = False, default_value = Some (JBool False),
           messages = [(''boolean.base'', ''Completed must be a boolean value'')]\<rparr>)],
      min_keys = None,
      object_messages = []\<rparr>"

definition updateTaskSchema :: object_schema where
  "updateTaskSchema =
     \<lparr>keys =
        [(''title'',
          \<lparr>base = StringType, rules = [Trim, Min 3, Max 100], valids = [], only = False,
           required = False, default_value = None,
           messages =
             [(''string.base'', ''Title must be a string''),
              (''string.empty'', ''Title cannot be empty''),
              (''string.min'', ''Title must be at least 3 characters long''),
              (''string.max'', ''Title cannot be more than 100 characters'')]\<rparr>),
         (''description'',
          \<lparr>base = StringType, rules = [Trim, Max 500], valids = [JStr []], only = False,
           required = False, default_value = None,
           messages =
             [(''string.base'', ''Description must be a string''),
              (''string.max'', ''Description cannot be more than 500 characters'')]\<rparr>),
         (''category'',
          \<lparr>base = StringType, rules = [Trim],
           valids = [JStr ''Work'', JStr ''Personal'', JStr ''Study'', JStr ''Health'',
                     JStr ''Other''],
           only = True, required = False, default_value = None,
           messages =
             [(''string.base'', ''Category must be a string''),
              (''any.only'',
               ''Category must be one of: Work, Personal, Study, Health, Other'')]\<rparr>),
         (''priority'',
          \<lparr>base = StringType, rules = [Trim],
           valids = [JStr ''Low'', JStr ''Medium'', JStr ''High''],
           only = True, required = False, default_value = None,
           messages =
             [(''string.base'', ''Priority must be a string''),
              (''any.only'', ''Priority must be one of: Low, Medium, High'')]\<rparr>),
         (''deadline'',
          \<lparr>base = DateType, rules = [Iso, MinNow], valids = [], only = False,
           required = False, default_value = None,
           messages =
             [(''date.base'', ''Deadline must be a valid date''),
              (''date.format'', ''Deadline must be in ISO format (YYYY-MM-DD)''),
              (''date.min'', ''Deadline must be in the future'')]\<rparr>),
         (''completed'',
          \<lparr>base = BooleanType, rules = [], valids = [], only = False,
           required = False, default_value = None,
           messages = [(''boolean.base'', ''Completed must be a boolean value'')]\<rparr>)],
      min_keys = Some 1,
      object_messages =
        [(''object.min'', ''At least one field must be provided for update'')]\<rparr>"

subsection \<open>The validation library's evaluation of a schema\<close>

text \<open>
  \<^verbatim>\<open>schema.validate(value, options)\<close> of the validation library (joi 17), for the
  schemas above, with conversion on (the library's default). An error detail has the path
  of the value, the error type and the message. For one field the library, in this order:
  converts the value (a string is trimmed under \<^verbatim>\<open>trim\<close>; a string or number becomes a
  date when it parses; a string equal to \<^verbatim>\<open>true\<close> or \<^verbatim>\<open>false\<close> in any letter case
  becomes a boolean); reports \<^verbatim>\<open>any.required\<close> for a missing required value and gives
  a missing optional one its default; accepts a value among \<open>valids\<close>; reports
  \<^verbatim>\<open>any.only\<close> for another value when \<open>only\<close> is set; checks the base type, whose
  failure ends the field; then runs the rules, all of them unless \<open>abortEarly\<close>.
\<close>

record options =
  abortEarly :: bool
  stripUnknown :: bool

datatype detail = Detail (d_path: "string list") (d_type: string) (d_message: string)

definition mk_detail ::
  "env \<Rightarrow> (string \<times> string) list \<Rightarrow> string list \<Rightarrow> string \<Rightarrow> string \<Rightarrow> detail" where
  "mk_detail e msgs p label ty =
     Detail p ty (case map_of msgs ty of Some m \<Rightarrow> m | None \<Rightarrow> default_template e ty label)"

definition coerce :: "env \<Rightarrow> field_schema \<Rightarrow> json \<Rightarrow> json" where
  "coerce e fs v =
     (case base fs of
        StringType \<Rightarrow>
          (case v of JStr s \<Rightarrow> if Trim \<in> set (rules fs) then JStr (trim s) else v | _ \<Rightarrow> v)
      | DateType \<Rightarrow>
          (case v of
             JStr s \<Rightarrow> (case parse_iso_date e v of Some t \<Rightarrow> JDate t | None \<Rightarrow> v)
           | JNum n \<Rightarrow> (case parse_iso_date e v of Some t \<Rightarrow> JDate t | None \<Rightarrow> v)
           | _ \<Rightarrow> v)
      | BooleanType \<Rightarrow>
          (case v of
             JStr s \<Rightarrow>
               if toLowerCase s = ''true'' then JBool True
               else if toLowerCase s = ''false'' then JBool False else v
           | _ \<Rightarrow> v))"

definition base_error :: "field_schema \<Rightarrow> json \<Rightarrow> string option" where
  "base_error fs v =
     (case base fs of
        StringType \<Rightarrow>
          (case v of
             JStr s \<Rightarrow> if s = [] \<and> Min 0 \<notin> set (rules fs) then Some ''string.empty'' else None
           | _ \<Rightarrow> Some ''string.base'')
      | DateType \<Rightarrow>
          (case v of
             JDate t \<Rightarrow> None
           | JStr s \<Rightarrow> Some (if Iso \<in> set (rules fs) then ''date.format'' else ''date.base'')
           | _ \<Rightarrow> Some ''date.base'')
      | BooleanType \<Rightarrow> (case v of JBool b \<Rightarrow> None | _ \<Rightarrow> Some ''boolean.base''))"

fun rule_error :: "env \<Rightarrow> rule \<Rightarrow> json \<Rightarrow> string option" where
  "rule_error e (Min n) (JStr s) = (if n \<le> length s then None else Some ''string.min'')"
| "rule_error e (Max n) (JStr s) = (if length s \<le> n then None else Some ''string.max'')"
| "rule_error e MinNow (JDate t) = (if joi_now e \<le> t then None else Some ''date.min'')"
| "rule_error e r v = None"

fun run_rules :: "env \<Rightarrow> options \<Rightarrow> rule list \<Rightarrow> json \<Rightarrow> string list" where
  "run_rules e opts [] v = []"
| "run_rules e opts (r # rs) v =
     (case rule_error e r v of
        None \<Rightarrow> run_rules e opts rs v
      | Some ty \<Rightarrow> if abortEarly opts then [ty] else ty # run_rules e opts rs v)"

definition field_errors :: "env \<Rightarrow> options \<Rightarrow> field_schema \<Rightarrow> json option \<Rightarrow> string list" where
  "field_errors e opts fs item =
     (case item of
        None \<Rightarrow> if required fs then [''any.required''] else []
      | Some raw \<Rightarrow>
          (let v = coerce e fs raw in
           if v \<in> set (valids fs) then []
           else if only fs \<and> abortEarly opts then [''any.only'']
           else (if only fs then [''any.only''] else []) @
                (case base_error fs v of
                   Some ty \<Rightarrow> [ty]
                 | None \<Rightarrow> run_rules e opts (rules fs) v)))"

definition field_value :: "env \<Rightarrow> field_schema \<Rightarrow> json option \<Rightarrow> json option" where
  "field_value e fs item =
     (case item of None \<Rightarrow> default_value fs | Some raw \<Rightarrow> Some (coerce e fs raw))"

definition validate_field ::
  "env \<Rightarrow> options \<Rightarrow> string \<Rightarrow> field_schema \<Rightarrow> json option \<Rightarrow> detail list \<times> json option" where
  "validate_field e opts k fs item =
     (map (mk_detail e (messages fs) [k] k) (field_errors e opts fs item),
      field_value e fs item)"

text \<open>
  The keys of an object schema are validated in the order of the schema, each on the
  property of the value under validation, which receives the converted or default value.
  Under \<open>abortEarly\<close> the first field with an error ends the validation.
\<close>

fun validate_children ::
  "env \<Rightarrow> options \<Rightarrow> (string \<times> field_schema) list \<Rightarrow> (string \<times> json) list \<Rightarrow>
     detail list \<times> (string \<times> json) list" where
  "validate_children e opts [] val = ([], val)"
| "validate_children e opts ((k, fs) # rest) val =
     (case validate_field e opts k fs (map_of val k) of
        (errs, res) \<Rightarrow>
          if errs \<noteq> [] \<and> abortEarly opts then (errs, val)
          else
            (case validate_children e opts rest
                    (case res of None \<Rightarrow> val | Some v \<Rightarrow> AList.update k v val) of
               (errs', val') \<Rightarrow> (errs @ errs', val')))"

text \<open>
  Keys that the schema does not name are deleted under \<open>stripUnknown\<close> and are errors
  otherwise. Errors of the keys end the validation of the object; else its own rule
  \<^verbatim>\<open>min\<close> counts the keys that remain.
\<close>

definition unknown_keys :: "object_schema \<Rightarrow> (string \<times> json) list \<Rightarrow> string list" where
  "unknown_keys sch val = filter (\<lambda>k. k \<notin> set (map fst (keys sch))) (map fst val)"

definition validate :: "env \<Rightarrow> options \<Rightarrow> object_schema \<Rightarrow> json \<Rightarrow> detail list \<times> json" where
  "validate e opts sch raw =
     (case raw of
        JObj kvs \<Rightarrow>
          (case validate_children e opts (keys sch) kvs of
             (errs, val) \<Rightarrow>
               if errs \<noteq> [] \<and> abortEarly opts then (errs, JObj val)
               else
                 (let known = filter (\<lambda>(k, v). k \<in> set (map fst (keys sch))) val;
                      val' = (if stripUnknown opts then known else val);
                      errs' = errs @
                        (if stripUnknown opts then []
                         else map (\<lambda>k. mk_detail e (object_messages sch) [k] k ''object.unknown'')
                                (unknown_keys sch val))
                  in if errs' \<noteq> [] then (errs', JObj val')
                     else
                       (case min_keys sch of
                          None \<Rightarrow> ([], JObj val')
                        | Some n \<Rightarrow>
                            if n \<le> length val' then ([], JObj val')
                            else ([mk_detail e (object_messages sch) [] ''value'' ''object.min''],
                                  JObj val'))))
      | _ \<Rightarrow> ([mk_detail e (object_messages sch) [] ''value'' ''object.base''], raw))"

subsection \<open>The validation middleware (validators/validateMiddleware.js)\<close>

text \<open>
  \<^verbatim>\<open>validateRequest(schema)\<close> on the request body: it either ends the request with the
  400 response or replaces the body by the validated value and calls \<^verbatim>\<open>next\<close>.
\<close>

datatype mw_result = Rejected response | Forward json

definition validateRequest_options :: options where
  "validateRequest_options = \<lparr>abortEarly = False, stripUnknown = True\<rparr>"

definition error_entry :: "detail \<Rightarrow> json" where
  "error_entry d =
     obj [(''field'', Some (JStr (join ''.'' (d_path d)))),
          (''message'', Some (JStr (d_message d)))]"

definition validateRequest :: "env \<Rightarrow> object_schema \<Rightarrow> json \<Rightarrow> mw_result" where
  "validateRequest e sch body =
     (case validate e validateRequest_options sch body of
        (errs, val) \<Rightarrow>
          if errs \<noteq> []
          then Rejected (res_json 400
                 (obj [(''status'', Some (JStr ''error'')),
                       (''message'', Some (JStr ''Validation error'')),
                       (''errors'', Some (JArr (map error_entry errs)))]))
          else Forward val)"

section \<open>The list handler's query (controllers/taskController.js, getAllTasks)\<close>

text \<open>
  \<^verbatim>\<open>req.query\<close> as the framework's query-string parser yields it: a property is a
  string, an array (a repeated parameter) or a nested object.
\<close>

datatype qval = QStr string | QArr "qval list" | QObj "(string \<times> qval) list"

fun q_truthy :: "qval \<Rightarrow> bool" where
  "q_truthy (QStr s) = (s \<noteq> [])"
| "q_truthy (QArr xs) = True"
| "q_truthy (QObj kvs) = True"

text \<open>\<^verbatim>\<open>String(v)\<close>: an array is its elements joined by commas.\<close>

fun q_string :: "qval \<Rightarrow> string" where
  "q_string (QStr s) = s"
| "q_string (QArr xs) = join '','' (map q_string xs)"
| "q_string (QObj kvs) = ''[object Object]''"

text \<open>\<^verbatim>\<open>s.split(c)\<close> for a separator of one character.\<close>

fun split :: "char \<Rightarrow> string \<Rightarrow> string list" where
  "split c [] = [[]]"
| "split c (x # xs) =
     (if x = c then [] # split c xs
      else (case split c xs of w # ws \<Rightarrow> (x # w) # ws | [] \<Rightarrow> [[x]]))"

text \<open>
  The numbers of the pagination. A JavaScript number is an IEEE 754 double; those computed
  here hold an integer, an infinity (\<open>True\<close> for the negative one) or \<^verbatim>\<open>NaN\<close>. Negative
  zero is not distinguished from zero (both are falsy, and equal). \<open>to_double n\<close> is the
  double nearest to the integer \<open>n\<close>: a significand of 53 bits, a tie going to the even
  significand, and an infinity when the rounded integer has more than 1024 bits.
\<close>

datatype number = Finite int | Infinite bool | NotANumber

fun bit_length :: "nat \<Rightarrow> nat" where
  "bit_length n = (if n = 0 then 0 else Suc (bit_length (n div 2)))"

declare bit_length.simps [simp del]

definition to_double :: "int \<Rightarrow> number" where
  "to_double n =
     (let a = nat \<bar>n\<bar>;
          k = bit_length a - 53;
          q = a div 2 ^ k;
          r = a mod 2 ^ k;
          m = (if 2 ^ k < 2 * r \<or> (2 * r = 2 ^ k \<and> odd q) then q + 1 else q) * 2 ^ k
      in if 1024 < bit_length m then Infinite (n < 0)
         else Finite (if n < 0 then - int m else int m))"

text \<open>\<^verbatim>\<open>x - 1\<close> and \<^verbatim>\<open>x * y\<close>: the exact result, rounded.\<close>

definition number_minus_one :: "number \<Rightarrow> number" where
  "number_minus_one x =
     (case x of Finite n \<Rightarrow> to_double (n - 1) | Infinite s \<Rightarrow> Infinite s
      | NotANumber \<Rightarrow> NotANumber)"

definition number_times :: "number \<Rightarrow> number \<Rightarrow> number" where
  "number_times x y =
     (case (x, y) of
        (Finite a, Finite b) \<Rightarrow> to_double (a * b)
      | (Finite a, Infinite t) \<Rightarrow> if a = 0 then NotANumber else Infinite (t \<noteq> (a < 0))
      | (Infinite s, Finite b) \<Rightarrow> if b = 0 then NotANumber else Infinite (s \<noteq> (b < 0))
      | (Infinite s, Infinite t) \<Rightarrow> Infinite (s \<noteq> t)
      | _ \<Rightarrow> NotANumber)"

text \<open>
  \<^verbatim>\<open>parseInt(v, 10)\<close>: leading white space, an optional sign, then the longest run of
  decimal digits. \<open>mathInt\<close> is the integer that these digits denote (\<open>None\<close> when there
  is no digit), and the result is that integer as a number, \<^verbatim>\<open>NaN\<close> when there is
  none. \<open>None\<close> as argument is \<^verbatim>\<open>undefined\<close>.
\<close>

definition is_digit :: "char \<Rightarrow> bool" where
  "is_digit c = ((48::nat) \<le> of_char c \<and> of_char c \<le> (57::nat))"

definition digits_value :: "string \<Rightarrow> nat" where
  "digits_value ds = foldl (\<lambda>a c. 10 * a + (of_char c - 48)) 0 ds"

definition mathInt :: "string \<Rightarrow> int option" where
  "mathInt s =
     (let t = dropWhile is_space s;
          neg = (case t of c # r \<Rightarrow> c = CHR ''-'' | [] \<Rightarrow> False);
          u = (case t of c # r \<Rightarrow> if c = CHR ''-'' \<or> c = CHR ''+'' then r else t | [] \<Rightarrow> []);
          ds = takeWhile is_digit u
      in if ds = [] then None
         else Some (if neg then - int (digits_value ds) else int (digits_value ds)))"

definition parseInt_string :: "string \<Rightarrow> number" where
  "parseInt_string s = (case mathInt s of None \<Rightarrow> NotANumber | Some n \<Rightarrow> to_double n)"

definition parseInt :: "qval option \<Rightarrow> number" where
  "parseInt v = (case v of None \<Rightarrow> NotANumber | Some x \<Rightarrow> parseInt_string (q_string x))"

text \<open>\<^verbatim>\<open>parseInt(v, 10) || d\<close>: \<^verbatim>\<open>NaN\<close> and zero are falsy.\<close>

definition parseInt_or :: "qval option \<Rightarrow> int \<Rightarrow> number" where
  "parseInt_or v d =
     (case parseInt v of
        NotANumber \<Rightarrow> Finite d
      | Finite n \<Rightarrow> if n = 0 then Finite d else Finite n
      | Infinite s \<Rightarrow> Infinite s)"

text \<open>
  What the handler hands to the repository: the argument of \<^verbatim>\<open>Task.find\<close>, of
  \<^verbatim>\<open>sort\<close>, of \<^verbatim>\<open>select\<close>, of \<^verbatim>\<open>skip\<close> and of \<^verbatim>\<open>limit\<close>.
\<close>

record find_query =
  q_filter :: "(string \<times> qval) list"
  q_sort :: string
  q_select :: string
  q_skip :: number
  q_limit :: number

definition excludedFields :: "string list" where
  "excludedFields = [''page'', ''sort'', ''limit'', ''fields'']"

text \<open>
  \<^verbatim>\<open>req.query.sort.split(',').join(' ')\<close>, and the same for \<^verbatim>\<open>fields\<close>; a truthy
  value that is not a string has no method \<^verbatim>\<open>split\<close>, and the call throws. \<open>name\<close> is
  the name of the property.
\<close>

definition split_join :: "string \<Rightarrow> string \<Rightarrow> qval \<Rightarrow> js_error + string" where
  "split_join tr name v =
     (case v of
        QStr s \<Rightarrow> Inr (join '' '' (split CHR '','' s))
      | _ \<Rightarrow> Inl (new_error TypeError
                     (''req.query.'' @ name @ ''.split is not a function'') tr))"

definition getAllTasks_query :: "env \<Rightarrow> (string \<times> qval) list \<Rightarrow> js_error + find_query" where
  "getAllTasks_query e query =
     (let queryObj = fold AList.delete excludedFields query in
      case (case map_of query ''sort'' of
              None \<Rightarrow> Inr ''deadline''
            | Some v \<Rightarrow>
                if q_truthy v then split_join (trace e) ''sort'' v else Inr ''deadline'') of
        Inl thrown \<Rightarrow> Inl thrown
      | Inr sortBy \<Rightarrow>
          (case (case map_of query ''fields'' of
                   None \<Rightarrow> Inr ''-__v''
                 | Some v \<Rightarrow>
                     if q_truthy v then split_join (trace e) ''fields'' v else Inr ''-__v'') of
             Inl thrown \<Rightarrow> Inl thrown
           | Inr fieldList \<Rightarrow>
               (let page = parseInt_or (map_of query ''page'') 1;
                    limit = parseInt_or (map_of query ''limit'') 10;
                    skip = number_times (number_minus_one page) limit
                in Inr \<lparr>q_filter = queryObj, q_sort = sortBy, q_select = fieldList,
                        q_skip = skip, q_limit = limit\<rparr>)))"

subsection \<open>The query construction in the words of the specification\<close>

text \<open>
  The filter is the query mapping without the keys \<^verbatim>\<open>page\<close>, \<^verbatim>\<open>sort\<close>, \<^verbatim>\<open>limit\<close>,
  \<^verbatim>\<open>fields\<close>; the sort is the comma-separated \<^verbatim>\<open>sort\<close> value when present, else
  \<^verbatim>\<open>deadline\<close>; the projection is the comma-separated \<^verbatim>\<open>fields\<close> value when present,
  else everything but the version marker; the page defaults to 1 and the limit to 10; the
  skip is \<open>(page - 1) * limit\<close>. A list of names goes to the repository separated by
  spaces. Page, limit and skip are integers here, with the arithmetic of the integers:
  \<open>integer_of\<close> is the integer that the text of a parameter denotes.
\<close>

definition commas_to_spaces :: "string \<Rightarrow> string" where
  "commas_to_spaces s = map (\<lambda>c. if c = CHR '','' then CHR '' '' else c) s"

definition integer_of :: "qval option \<Rightarrow> int option" where
  "integer_of v = (case v of None \<Rightarrow> None | Some x \<Rightarrow> mathInt (q_string x))"

definition spec_number :: "qval option \<Rightarrow> int \<Rightarrow> int" where
  "spec_number v d = (case integer_of v of None \<Rightarrow> d | Some n \<Rightarrow> n)"

definition spec_query :: "(string \<times> qval) list \<Rightarrow> find_query" where
  "spec_query query =
     \<lparr>q_filter = filter (\<lambda>(k, v). k \<notin> {''page'', ''sort'', ''limit'', ''fields''}) query,
      q_sort = (case map_of query ''sort'' of
                  None \<Rightarrow> ''deadline'' | Some v \<Rightarrow> commas_to_spaces (q_string v)),
      q_select = (case map_of query ''fields'' of
                    None \<Rightarrow> ''-__v'' | Some v \<Rightarrow> commas_to_spaces (q_string v)),
      q_skip = Finite ((spec_number (map_of query ''page'') 1 - 1) *
                       spec_number (map_of query ''limit'') 10),
      q_limit = Finite (spec_number (map_of query ''limit'') 10)\<rparr>"

text \<open>
  The same with the conditions of the code: a \<^verbatim>\<open>sort\<close> or \<^verbatim>\<open>fields\<close> value counts
  when it is a non-empty string, and a page or limit when it denotes an integer other
  than zero. The construction is that of the handler when page, limit and skip are safe
  integers, that is, integers that a JavaScript number holds exactly (up to
  \<open>2^53 - 1\<close> in magnitude).
\<close>

definition is_text :: "qval option \<Rightarrow> bool" where
  "is_text v = (case v of None \<Rightarrow> True | Some (QStr s) \<Rightarrow> True | Some _ \<Rightarrow> False)"

definition names_or :: "qval option \<Rightarrow> string \<Rightarrow> string" where
  "names_or v d =
     (case v of Some (QStr s) \<Rightarrow> if s = [] then d else commas_to_spaces s | _ \<Rightarrow> d)"

definition integer_or :: "qval option \<Rightarrow> int \<Rightarrow> int" where
  "integer_or v d = (case integer_of v of None \<Rightarrow> d | Some n \<Rightarrow> if n = 0 then d else n)"

definition amended_query :: "(string \<times> qval) list \<Rightarrow> find_query" where
  "amended_query query =
     \<lparr>q_filter = filter (\<lambda>(k, v). k \<notin> {''page'', ''sort'', ''limit'', ''fields''}) query,
      q_sort = names_or (map_of query ''sort'') ''deadline'',
      q_select = names_or (map_of query ''fields'') ''-__v'',
      q_skip = Finite ((integer_or (map_of query ''page'') 1 - 1) *
                       integer_or (map_of query ''limit'') 10),
      q_limit = Finite (integer_or (map_of query ''limit'') 10)\<rparr>"

definition safe_integer :: "int \<Rightarrow> bool" where
  "safe_integer n = (\<bar>n\<bar> \<le> 9007199254740991)"

definition safe_pagination :: "(string \<times> qval) list \<Rightarrow> bool" where
  "safe_pagination query =
     (safe_integer (integer_or (map_of query ''page'') 1) \<and>
      safe_integer (integer_or (map_of query ''limit'') 10) \<and>
      safe_integer ((integer_or (map_of query ''page'') 1 - 1) *
                    integer_or (map_of query ''limit'') 10))"

section \<open>Route handlers (controllers/taskController.js)\<close>

text \<open>
  Each handler awaits one repository operation. The operation's outcome is the handler's
  input here: \<open>Inl err\<close> when the promise rejects (\<^verbatim>\<open>asyncHandler\<close> then passes \<open>err\<close> to
  \<^verbatim>\<open>next\<close>), \<open>Inr None\<close> for the absent result \<^verbatim>\<open>null\<close>, \<open>Inr (Some doc)\<close> for a document.
\<close>

datatype handler_result = Sent response | NextError js_error

definition createTask :: "js_error + json \<Rightarrow> handler_result" where
  "createTask created =
     (case created of
        Inl err \<Rightarrow> NextError err
      | Inr task \<Rightarrow>
          Sent (res_json 201
            (obj [(''status'', Some (JStr ''success'')),
                  (''data'', Some (obj [(''task'', Some task)]))])))"

definition getTaskById :: "env \<Rightarrow> js_error + json option \<Rightarrow> handler_result" where
  "getTaskById e found =
     (case found of
        Inl err \<Rightarrow> NextError err
      | Inr None \<Rightarrow> NextError (AppError (trace e) ''Task not found'' 404)
      | Inr (Some task) \<Rightarrow>
          Sent (res_json 200
            (obj [(''status'', Some (JStr ''success'')),
                  (''data'', Some (obj [(''task'', Some task)]))])))"

definition updateTask :: "env \<Rightarrow> js_error + json option \<Rightarrow> handler_result" where
  "updateTask e updated =
     (case updated of
        Inl err \<Rightarrow> NextError err
      | Inr None \<Rightarrow> NextError (AppError (trace e) ''Task not found'' 404)
      | Inr (Some task) \<Rightarrow>
          Sent (res_json 200
            (obj [(''status'', Some (JStr ''success'')),
                  (''data'', Some (obj [(''task'', Some task)]))])))"

definition deleteTask :: "env \<Rightarrow> js_error + json option \<Rightarrow> handler_result" where
  "deleteTask e deleted =
     (case deleted of
        Inl err \<Rightarrow> NextError err
      | Inr None \<Rightarrow> NextError (AppError (trace e) ''Task not found'' 404)
      | Inr (Some task) \<Rightarrow>
          Sent (res_json 204
            (obj [(''status'', Some (JStr ''success'')),
                  (''data'', Some JNull)])))"

text \<open>
  The application (app.js): a response sent by the handler is final; an error passed to
  \<^verbatim>\<open>next\<close> reaches \<^verbatim>\<open>errorHandler\<close>, the last middleware.
\<close>

definition respond :: "env \<Rightarrow> handler_result \<Rightarrow> js_error + response" where
  "respond e r = (case r of Sent resp \<Rightarrow> Inr resp | NextError err \<Rightarrow> errorHandler e err)"

section \<open>Errors raised outside the handlers, and a sample environment\<close>

text \<open>
  The error the JSON body parser passes on for a body that is not JSON: a
  \<^verbatim>\<open>SyntaxError\<close> with \<^verbatim>\<open>status\<close> and \<^verbatim>\<open>statusCode\<close> 400 and a \<^verbatim>\<open>body\<close> property.
\<close>

definition body_parse_error :: "string \<Rightarrow> string \<Rightarrow> js_error" where
  "body_parse_error msg tr =
     (new_error SyntaxError msg tr)
       \<lparr>statusCode := Some 400, status := Some (JNum 400), has_body := True\<rparr>"

text \<open>
  The store library's error for an id text \<open>v\<close> that is no well-formed identifier, at the
  path \<open>p\<close> of the query.
\<close>

definition cast_error :: "string \<Rightarrow> string \<Rightarrow> string \<Rightarrow> js_error" where
  "cast_error p v tr =
     (new_error CastError
        (''Cast to ObjectId failed for value \"'' @ v @ ''\" (type string) at path \"'' @ p @
         ''\" for model \"Task\"'') tr)
       \<lparr>cast_path := p, cast_value := v\<rparr>"

text \<open>The store library's validation error, with the message of each failed path.\<close>

definition validation_error :: "(string \<times> string) list \<Rightarrow> string \<Rightarrow> js_error" where
  "validation_error es tr =
     (new_error ValidationError
        (''Task validation failed: '' @ join '', '' (map (\<lambda>(p, m). p @ '': '' @ m) es)) tr)
       \<lparr>errors := Some es\<rparr>"

text \<open>The store's error for a second document with the same unique key.\<close>

definition duplicate_key_error :: "string \<Rightarrow> string \<Rightarrow> js_error" where
  "duplicate_key_error v tr =
     (new_error MongoServerError (''E11000 duplicate key error dup key: { _id: \"'' @ v @ ''\" }'') tr)
       \<lparr>code := Some 11000,
        errmsg := Some (''E11000 duplicate key error dup key: { _id: \"'' @ v @ ''\" }'')\<rparr>"

text \<open>
  An environment for concrete runs: the test setting of \<^verbatim>\<open>NODE_ENV\<close>, validation at
  2026-01-01T00:00:00Z, the model's validator one millisecond later, and a date
  conversion that knows three ISO dates, one before, one at and one after the instant of
  validation.
\<close>

definition sample_parse :: "json \<Rightarrow> int option" where
  "sample_parse v =
     (if v = JStr ''2020-01-01T00:00:00.000Z'' then Some 1577836800000
      else if v = JStr ''2026-01-01T00:00:00.000Z'' then Some 1767225600000
      else if v = JStr ''2030-01-01T00:00:00.000Z'' then Some 1893456000000
      else None)"

definition sample_cast_id :: "string \<Rightarrow> string option" where
  "sample_cast_id t = (if length t = 24 then Some t else None)"

definition sample_store_cast :: "string \<Rightarrow> json \<Rightarrow> json option" where
  "sample_store_cast ty v = None"

definition sample_template :: "string \<Rightarrow> string \<Rightarrow> string" where
  "sample_template ty label = label @ '' fails '' @ ty"

definition sample_cast_message :: "string \<Rightarrow> string \<Rightarrow> json \<Rightarrow> string" where
  "sample_cast_message ty p v = ''Cast to '' @ ty @ '' failed at path \"'' @ p @ ''\"''"

definition sample_env :: env where
  "sample_env =
     \<lparr>NODE_ENV = Some ''test'', trace = ''at handler'', joi_now = 1767225600000,
      model_now = 1767225600001, stamp_now = 1767225600002,
      parse_iso_date = sample_parse, default_template = sample_template,
      new_id = ''65a000000000000000000001'', cast_id = sample_cast_id,
      store_cast = sample_store_cast, cast_message = sample_cast_message\<rparr>"

section \<open>The task model (models/taskModel.js)\<close>

text \<open>
  A path of the model's schema: its type, the message of \<^verbatim>\<open>required\<close>, \<^verbatim>\<open>trim\<close>,
  \<^verbatim>\<open>maxlength\<close> and \<^verbatim>\<open>enum\<close> with their messages, the message of the custom
  validator, and the default.
\<close>

record path_schema =
  p_type :: base_type
  p_required :: "string option"
  p_trim :: bool
  p_maxlength :: "(nat \<times> string) option"
  p_enum :: "(string list \<times> string) option"
  p_validate :: "string option"
  p_default :: "json option"

definition taskSchema :: "(string \<times> path_schema) list" where
  "taskSchema =
     [(''title'',
       \<lparr>p_type = StringType, p_required = Some ''Task title is required'', p_trim = True,
        p_maxlength = Some (100, ''Task title cannot be more than 100 characters''),
        p_enum = None, p_validate = None, p_default = None\<rparr>),
      (''description'',
       \<lparr>p_type = StringType, p_required = None, p_trim = True,
        p_maxlength = Some (500, ''Task description cannot be more than 500 characters''),
        p_enum = None, p_validate = None, p_default = None\<rparr>),
      (''category'',
       \<lparr>p_type = StringType, p_required = Some ''Task category is required'', p_trim = True,
        p_maxlength = None,
        p_enum = Some ([''Work'', ''Personal'', ''Study'', ''Health'', ''Other''],
                       ''Category must be one of: Work, Personal, Study, Health, Other''),
        p_validate = None, p_default = None\<rparr>),
      (''priority'',
       \<lparr>p_type = StringType, p_required = Some ''Task priority is required'', p_trim = False,
        p_maxlength = None,
        p_enum = Some ([''Low'', ''Medium'', ''High''],
                       ''Priority must be one of: Low, Medium, High''),
        p_validate = None, p_default = None\<rparr>),
      (''deadline'',
       \<lparr>p_type = DateType, p_required = Some ''Task deadline is required'', p_trim = False,
        p_maxlength = None, p_enum = None,
        p_validate = Some ''Deadline must be a future date'', p_default = None\<rparr>),
      (''completed'',
       \<lparr>p_type = BooleanType, p_required = None, p_trim = False, p_maxlength = None,
        p_enum = None, p_validate = None, p_default = Some (JBool False)\<rparr>)]"

text \<open>
  The validator of \<^verbatim>\<open>deadline\<close>:
  \<^verbatim>\<open>return this.isNew ? value > Date.now() : true\<close>.
\<close>

definition deadline_validator :: "bool \<Rightarrow> int \<Rightarrow> json \<Rightarrow> bool" where
  "deadline_validator isNew now v =
     (if isNew then (case v of JDate t \<Rightarrow> now < t | _ \<Rightarrow> False) else True)"

subsection \<open>The store library's handling of a new document\<close>

text \<open>
  The store library (mongoose 7) builds a document from the model's schema: properties
  that the schema does not name are dropped; a value of the path's type is kept and
  another one converted; a string is trimmed under \<^verbatim>\<open>trim\<close>; a missing value takes
  the default. Then each path is validated and reports its first failure, in the order
  \<^verbatim>\<open>required\<close>, \<^verbatim>\<open>maxlength\<close>, \<^verbatim>\<open>enum\<close>, custom validator; a missing or null value
  is checked by \<^verbatim>\<open>required\<close> only.

  The failures are recorded in this order: a value that does not convert is recorded when
  it is set, in the order of the schema; the validation then takes the required paths
  that were not set, in the reverse order of the schema, and after them the other paths
  in the order of the schema.
\<close>

definition type_name :: "base_type \<Rightarrow> string" where
  "type_name t = (case t of StringType \<Rightarrow> ''string'' | DateType \<Rightarrow> ''date'' | BooleanType \<Rightarrow> ''Boolean'')"

definition apply_trim :: "path_schema \<Rightarrow> json \<Rightarrow> json" where
  "apply_trim ps v = (case v of JStr s \<Rightarrow> if p_trim ps then JStr (trim s) else v | _ \<Rightarrow> v)"

definition cast_path :: "env \<Rightarrow> path_schema \<Rightarrow> json \<Rightarrow> json option" where
  "cast_path e ps v =
     (case v of
        JNull \<Rightarrow> Some JNull
      | JStr s \<Rightarrow>
          if p_type ps = StringType then Some (apply_trim ps v)
          else map_option (apply_trim ps) (store_cast e (type_name (p_type ps)) v)
      | JDate t \<Rightarrow>
          if p_type ps = DateType then Some v
          else map_option (apply_trim ps) (store_cast e (type_name (p_type ps)) v)
      | JBool b \<Rightarrow>
          if p_type ps = BooleanType then Some v
          else map_option (apply_trim ps) (store_cast e (type_name (p_type ps)) v)
      | _ \<Rightarrow> map_option (apply_trim ps) (store_cast e (type_name (p_type ps)) v))"

definition path_error :: "env \<Rightarrow> bool \<Rightarrow> path_schema \<Rightarrow> json option \<Rightarrow> string option" where
  "path_error e isNew ps v =
     (case v of
        None \<Rightarrow> p_required ps
      | Some JNull \<Rightarrow> p_required ps
      | Some x \<Rightarrow>
          if p_required ps \<noteq> None \<and> x = JStr [] then p_required ps
          else if (case (p_maxlength ps, x) of
                     (Some (n, m), JStr s) \<Rightarrow> n < length s | _ \<Rightarrow> False)
          then map_option snd (p_maxlength ps)
          else if (case (p_enum ps, x) of
                     (Some (vs, m), JStr s) \<Rightarrow> s \<notin> set vs
                   | (Some (vs, m), _) \<Rightarrow> True
                   | _ \<Rightarrow> False)
          then map_option snd (p_enum ps)
          else if p_validate ps \<noteq> None \<and> \<not> deadline_validator isNew (model_now e) x
          then p_validate ps
          else None)"

text \<open>
  One path of a new document: \<open>Inl\<close> the message of the failure, \<open>Inr\<close> the value to
  store (\<open>None\<close> when the document has no such property).
\<close>

definition new_path :: "env \<Rightarrow> (string \<times> json) list \<Rightarrow> string \<times> path_schema \<Rightarrow> string + json option" where
  "new_path e kvs kp =
     (case kp of (k, ps) \<Rightarrow>
        (case (case map_of kvs k of
                 None \<Rightarrow> Inr (p_default ps)
               | Some raw \<Rightarrow>
                   (case cast_path e ps raw of
                      None \<Rightarrow> Inl (cast_message e (type_name (p_type ps)) k raw)
                    | Some v \<Rightarrow> Inr (Some v))) of
           Inl m \<Rightarrow> Inl m
         | Inr v \<Rightarrow> (case path_error e True ps v of Some m \<Rightarrow> Inl m | None \<Rightarrow> Inr v)))"

definition cast_fails :: "env \<Rightarrow> (string \<times> json) list \<Rightarrow> string \<times> path_schema \<Rightarrow> bool" where
  "cast_fails e kvs kp =
     (case map_of kvs (fst kp) of None \<Rightarrow> False | Some raw \<Rightarrow> cast_path e (snd kp) raw = None)"

definition missing_required :: "(string \<times> json) list \<Rightarrow> string \<times> path_schema \<Rightarrow> bool" where
  "missing_required kvs kp =
     (map_of kvs (fst kp) = None \<and> p_required (snd kp) \<noteq> None \<and> p_default (snd kp) = None)"

definition validation_order ::
  "env \<Rightarrow> (string \<times> json) list \<Rightarrow> (string \<times> path_schema) list" where
  "validation_order e kvs =
     filter (cast_fails e kvs) taskSchema @
     rev (filter (missing_required kvs) taskSchema) @
     filter (\<lambda>kp. \<not> cast_fails e kvs kp \<and> \<not> missing_required kvs kp) taskSchema"

definition new_errors :: "env \<Rightarrow> (string \<times> json) list \<Rightarrow> (string \<times> string) list" where
  "new_errors e kvs =
     concat (map (\<lambda>kp. case new_path e kvs kp of Inl m \<Rightarrow> [(fst kp, m)] | Inr v \<Rightarrow> [])
                 (validation_order e kvs))"

definition new_fields :: "env \<Rightarrow> (string \<times> json) list \<Rightarrow> (string \<times> json) list" where
  "new_fields e kvs =
     concat (map (\<lambda>kp. case new_path e kvs kp of Inr (Some v) \<Rightarrow> [(fst kp, v)] | _ \<Rightarrow> [])
                 taskSchema)"

section \<open>The store\<close>

text \<open>
  The collection of task documents, in insertion order. A document is an object with the
  properties of the model, \<^verbatim>\<open>_id\<close>, the two timestamps and the version marker
  \<^verbatim>\<open>__v\<close>.
\<close>

type_synonym document = "(string \<times> json) list"

type_synonym store = "document list"

definition has_id :: "string \<Rightarrow> document \<Rightarrow> bool" where
  "has_id i d = (map_of d ''_id'' = Some (JStr i))"

text \<open>
  \<^verbatim>\<open>Task.create(body)\<close>: validation of the new document, then insertion under a
  generated identifier, which the store refuses when a document has it already. Only an
  object is a single document (the validation middleware forwards nothing else).
\<close>

definition Task_create :: "env \<Rightarrow> store \<Rightarrow> json \<Rightarrow> (js_error + json) \<times> store" where
  "Task_create e s body =
     (case body of
        JObj kvs \<Rightarrow>
          if new_errors e kvs \<noteq> [] then (Inl (validation_error (new_errors e kvs) (trace e)), s)
          else if list_ex (has_id (new_id e)) s
          then (Inl (duplicate_key_error (new_id e) (trace e)), s)
          else
            (let doc = new_fields e kvs @
                   [(''_id'', JStr (new_id e)),
                    (''createdAt'', JDate (stamp_now e)),
                    (''updatedAt'', JDate (stamp_now e)),
                    (''__v'', JNum 0)]
             in (Inr (JObj doc), s @ [doc]))
      | _ \<Rightarrow> (Inl (new_error PlainError ''Parameter to a document must be an object'' (trace e)), s))"

text \<open>\<^verbatim>\<open>Task.findById(id)\<close>: a cast error for an id that is not well formed, else the
  document with this id or the absent result.\<close>

definition Task_findById :: "env \<Rightarrow> store \<Rightarrow> string \<Rightarrow> js_error + json option" where
  "Task_findById e s idText =
     (case cast_id e idText of
        None \<Rightarrow> Inl (cast_error ''_id'' idText (trace e))
      | Some i \<Rightarrow> Inr (map_option JObj (find (has_id i) s)))"

subsection \<open>Queries\<close>

text \<open>
  Modelled from the spec: the document store's execution of a query, which is no code of
  the repository (section 4.3 of the specification: an exact-match filter, a sort on
  field names with the prefix \<^verbatim>\<open>-\<close> for descending, skip and limit, and a projection
  that is an inclusion list or all fields but the excluded ones). Field names in the sort
  and select strings are separated by white space. A condition holds for a document whose
  field, as the text a client writes it, is the condition's value. Values are ordered by
  kind, then by value; documents with equal sort fields keep their order. The store
  refuses a negative skip, and a skip or a limit that is no finite number.
\<close>

fun words :: "string \<Rightarrow> string list" where
  "words [] = []"
| "words [c] = (if is_space c then [] else [[c]])"
| "words (c # d # s) =
     (if is_space c then words (d # s)
      else if is_space d then [c] # words (d # s)
      else (case words (d # s) of w # ws \<Rightarrow> (c # w) # ws | [] \<Rightarrow> [[c]]))"

definition signed_name :: "string \<Rightarrow> string \<times> bool" where
  "signed_name w = (case w of c # f \<Rightarrow> if c = CHR ''-'' then (f, True) else (w, False) | [] \<Rightarrow> (w, False))"

definition field_text :: "json option \<Rightarrow> string option" where
  "field_text v =
     (case v of
        Some (JStr s) \<Rightarrow> Some s
      | Some (JBool b) \<Rightarrow> Some (if b then ''true'' else ''false'')
      | _ \<Rightarrow> None)"

definition matches :: "(string \<times> qval) list \<Rightarrow> document \<Rightarrow> bool" where
  "matches flt d =
     list_all (\<lambda>(k, v). case v of QStr t \<Rightarrow> field_text (map_of d k) = Some t | _ \<Rightarrow> False) flt"

definition sort_value :: "json option \<Rightarrow> nat \<times> int \<times> nat list" where
  "sort_value v =
     (case v of
        None \<Rightarrow> (0, 0, [])
      | Some JNull \<Rightarrow> (0, 0, [])
      | Some (JNum n) \<Rightarrow> (1, n, [])
      | Some (JStr s) \<Rightarrow> (2, 0, map of_char s)
      | Some (JObj kvs) \<Rightarrow> (3, 0, [])
      | Some (JArr xs) \<Rightarrow> (4, 0, [])
      | Some (JBool b) \<Rightarrow> (5, if b then 1 else 0, [])
      | Some (JDate t) \<Rightarrow> (6, t, []))"

definition sort_step :: "string \<times> bool \<Rightarrow> document list \<Rightarrow> document list" where
  "sort_step kd ds =
     (case kd of (k, desc) \<Rightarrow>
        if desc then rev (sort_key (\<lambda>d. sort_value (map_of d k)) (rev ds))
        else sort_key (\<lambda>d. sort_value (map_of d k)) ds)"

definition apply_sort :: "string \<Rightarrow> document list \<Rightarrow> document list" where
  "apply_sort spec ds = foldr sort_step (map signed_name (words spec)) ds"

definition apply_select :: "string \<Rightarrow> document \<Rightarrow> document option" where
  "apply_select spec d =
     (let sel = map signed_name (words spec);
          included = map fst (filter (\<lambda>(f, minus). \<not> minus) sel);
          excluded = map fst (filter (\<lambda>(f, minus). minus) sel)
      in if included = [] then Some (filter (\<lambda>(k, v). k \<notin> set excluded) d)
         else if set excluded \<subseteq> {''_id''}
         then Some (filter (\<lambda>(k, v). k \<in> set included \<or> (k = ''_id'' \<and> ''_id'' \<notin> set excluded)) d)
         else None)"

definition apply_limit :: "int \<Rightarrow> document list \<Rightarrow> document list" where
  "apply_limit n ds = (if n = 0 then ds else take (nat \<bar>n\<bar>) ds)"

definition Task_find :: "env \<Rightarrow> store \<Rightarrow> find_query \<Rightarrow> js_error + json list" where
  "Task_find e s q =
     (case (q_skip q, q_limit q) of
        (Finite sk, Finite lim) \<Rightarrow>
          if sk < 0
          then Inl (new_error MongoServerError ''Skip value must be non-negative'' (trace e))
          else
            (let found = apply_limit lim
                           (drop (nat sk) (apply_sort (q_sort q) (filter (matches (q_filter q)) s)))
             in if list_all (\<lambda>d. apply_select (q_select q) d \<noteq> None) found
                then Inr (map (\<lambda>d. JObj (the (apply_select (q_select q) d))) found)
                else Inl (new_error MongoServerError
                            ''Cannot do exclusion on field in inclusion projection'' (trace e)))
      | _ \<Rightarrow> Inl (new_error MongoServerError ''Skip and limit must be finite numbers'' (trace e)))"

section \<open>Routes (routes/taskRoutes.js)\<close>

text \<open>
  \<^verbatim>\<open>getAllTasks\<close>, on the repository's query operation \<open>exec\<close>: an exception thrown
  while the query is built, or the rejection of the query, goes to \<^verbatim>\<open>next\<close>.
\<close>

definition getAllTasks ::
  "env \<Rightarrow> (find_query \<Rightarrow> js_error + json list) \<Rightarrow> (string \<times> qval) list \<Rightarrow> handler_result" where
  "getAllTasks e exec query =
     (case getAllTasks_query e query of
        Inl thrown \<Rightarrow> NextError thrown
      | Inr q \<Rightarrow>
          (case exec q of
             Inl err \<Rightarrow> NextError err
           | Inr tasks \<Rightarrow>
               Sent (res_json 200
                 (obj [(''status'', Some (JStr ''success'')),
                       (''results'', Some (JNum (int (length tasks)))),
                       (''data'', Some (obj [(''tasks'', Some (JArr tasks))]))]))))"

text \<open>
  \<^verbatim>\<open>router.post('/', validateRequest(createTaskSchema), taskController.createTask)\<close>:
  the response and the store after the request.
\<close>

definition post_tasks :: "env \<Rightarrow> store \<Rightarrow> json \<Rightarrow> (js_error + response) \<times> store" where
  "post_tasks e s body =
     (case validateRequest e createTaskSchema body of
        Rejected r \<Rightarrow> (Inr r, s)
      | Forward v \<Rightarrow>
          (case Task_create e s v of (created, s') \<Rightarrow> (respond e (createTask created), s')))"

text \<open>\<^verbatim>\<open>router.get('/', taskController.getAllTasks)\<close>.\<close>

definition get_tasks :: "env \<Rightarrow> store \<Rightarrow> (string \<times> qval) list \<Rightarrow> js_error + response" where
  "get_tasks e s query = respond e (getAllTasks e (Task_find e s) query)"

text \<open>\<^verbatim>\<open>router.get('/:id', taskController.getTaskById)\<close>.\<close>

definition get_task :: "env \<Rightarrow> store \<Rightarrow> string \<Rightarrow> js_error + response" where
  "get_task e s idText = respond e (getTaskById e (Task_findById e s idText))"

text \<open>The tasks of a list response, and the task of a single-task response.\<close>

definition response_tasks :: "response \<Rightarrow> json list" where
  "response_tasks r =
     (case res_payload r of
        JObj kvs \<Rightarrow>
          (case map_of kvs ''data'' of
             Some (JObj d) \<Rightarrow> (case map_of d ''tasks'' of Some (JArr ts) \<Rightarrow> ts | _ \<Rightarrow> [])
           | _ \<Rightarrow> [])
      | _ \<Rightarrow> [])"

definition response_task :: "response \<Rightarrow> json option" where
  "response_task r =
     (case res_payload r of
        JObj kvs \<Rightarrow> (case map_of kvs ''data'' of Some (JObj d) \<Rightarrow> map_of d ''task'' | _ \<Rightarrow> None)
      | _ \<Rightarrow> None)"

definition task_field :: "json \<Rightarrow> string \<Rightarrow> json option" where
  "task_field t k = (case t of JObj kvs \<Rightarrow> map_of kvs k | _ \<Rightarrow> None)"

section \<open>Notions used to state the properties of validation\<close>

text \<open>
  The error types of one field of a schema for a raw mapping, under the options of
  \<^verbatim>\<open>validateRequest\<close>: the field is violated when the list is not empty.
\<close>

definition violations :: "env \<Rightarrow> object_schema \<Rightarrow> (string \<times> json) list \<Rightarrow> string \<Rightarrow> string list" where
  "violations e sch raw k =
     (case map_of (keys sch) k of
        None \<Rightarrow> []
      | Some fs \<Rightarrow> field_errors e validateRequest_options fs (map_of raw k))"

text \<open>The error details of all fields of a schema, in the order of the schema.\<close>

definition field_details :: "env \<Rightarrow> object_schema \<Rightarrow> (string \<times> json) list \<Rightarrow> detail list" where
  "field_details e sch raw =
     concat (map (\<lambda>(k, fs). fst (validate_field e validateRequest_options k fs (map_of raw k)))
                 (keys sch))"

text \<open>The \<^verbatim>\<open>errors\<close> array of a response, and an entry of it.\<close>

definition response_errors :: "response \<Rightarrow> json list" where
  "response_errors r =
     (case res_payload r of
        JObj kvs \<Rightarrow> (case map_of kvs ''errors'' of Some (JArr es) \<Rightarrow> es | _ \<Rightarrow> [])
      | _ \<Rightarrow> [])"

definition entry :: "string \<Rightarrow> string \<Rightarrow> json" where
  "entry field msg = JObj [(''field'', JStr field), (''message'', JStr msg)]"

text \<open>The message of an error type of a field: the schema's own, else the library's.\<close>

definition field_message :: "env \<Rightarrow> object_schema \<Rightarrow> string \<Rightarrow> string \<Rightarrow> string" where
  "field_message e sch k ty =
     (case map_of (keys sch) k of
        None \<Rightarrow> default_template e ty k
      | Some fs \<Rightarrow>
          (case map_of (messages fs) ty of Some m \<Rightarrow> m | None \<Rightarrow> default_template e ty k))"

text \<open>Sample payloads: a valid create payload with untrimmed title and an unknown key, a
  create payload with two violated fields, and an update payload with a past deadline.\<close>

definition sample_body :: "(string \<times> json) list" where
  "sample_body =
     [(''title'', JStr ''  Write report ''), (''category'', JStr ''Work''),
      (''priority'', JStr ''High''), (''deadline'', JStr ''2030-01-01T00:00:00.000Z''),
      (''extra'', JNum 3)]"

definition sample_bad_body :: "(string \<times> json) list" where
  "sample_bad_body =
     [(''title'', JStr ''ab''), (''category'', JStr ''Work''),
      (''priority'', JStr ''Urgent''), (''deadline'', JStr ''2030-01-01T00:00:00.000Z'')]"

definition sample_past_update :: "(string \<times> json) list" where
  "sample_past_update = [(''deadline'', JStr ''2020-01-01T00:00:00.000Z'')]"

text \<open>A create payload whose deadline is the instant of its validation.\<close>

definition sample_now_body :: "(string \<times> json) list" where
  "sample_now_body =
     [(''title'', JStr ''Write report''), (''category'', JStr ''Work''),
      (''priority'', JStr ''High''), (''deadline'', JStr ''2026-01-01T00:00:00.000Z'')]"

section \<open>Notions used to state the properties of listing and of the round trip\<close>

text \<open>The tasks that a list request returns (none when the request fails).\<close>

definition listed :: "env \<Rightarrow> store \<Rightarrow> (string \<times> qval) list \<Rightarrow> json list" where
  "listed e s query = (case get_tasks e s query of Inr r \<Rightarrow> response_tasks r | Inl err \<Rightarrow> [])"

text \<open>A document without its version marker, and the sort key of a task's deadline.\<close>

definition without_version :: "document \<Rightarrow> json" where
  "without_version d = JObj (filter (\<lambda>(k, v). k \<noteq> ''__v'') d)"

definition deadline_key :: "json \<Rightarrow> nat \<times> int \<times> nat list" where
  "deadline_key t = sort_value (task_field t ''deadline'')"

text \<open>A store of eleven tasks, with deadlines one day apart from 2030-01-01.\<close>

definition sample_task :: "nat \<Rightarrow> document" where
  "sample_task i =
     [(''title'', JStr ''Write report''), (''category'', JStr ''Work''),
      (''priority'', JStr ''High''),
      (''deadline'', JDate (1893456000000 + 86400000 * int i)),
      (''completed'', JBool False),
      (''_id'', JStr (''65a0000000000000000000'' @ string_of_nat (10 + i))),
      (''createdAt'', JDate 1767225600002), (''updatedAt'', JDate 1767225600002),
      (''__v'', JNum 0)]"

definition sample_store :: store where
  "sample_store = map sample_task [0..<11]"

text \<open>A value as the validation middleware forwards it for a base type: a string without
  white space at its ends, a date, a boolean.\<close>

definition typed_value :: "base_type \<Rightarrow> json \<Rightarrow> bool" where
  "typed_value t y =
     (case t of
        StringType \<Rightarrow> (case y of JStr s \<Rightarrow> trim s = s | _ \<Rightarrow> False)
      | DateType \<Rightarrow> (case y of JDate d \<Rightarrow> True | _ \<Rightarrow> False)
      | BooleanType \<Rightarrow> (case y of JBool b \<Rightarrow> True | _ \<Rightarrow> False))"

text \<open>The document that the sample environment creates from the sample payload.\<close>

definition sample_created :: document where
  "sample_created =
     [(''title'', JStr ''Write report''), (''category'', JStr ''Work''),
      (''priority'', JStr ''High''), (''deadline'', JDate 1893456000000),
      (''completed'', JBool False),
      (''_id'', JStr ''65a000000000000000000001''),
      (''createdAt'', JDate 1767225600002), (''updatedAt'', JDate 1767225600002),
      (''__v'', JNum 0)]"

text \<open>The sanitized value of a field of a schema for a raw mapping: the converted value, or
  the default of a missing one.\<close>

definition sanitized :: "env \<Rightarrow> object_schema \<Rightarrow> (string \<times> json) list \<Rightarrow> string \<Rightarrow> json option" where
  "sanitized e sch raw k =
     (case map_of (keys sch) k of None \<Rightarrow> None | Some fs \<Rightarrow> field_value e fs (map_of raw k))"

section \<open>Properties of the error translation and of the handlers\<close>

lemma string_of_nat_3digits:
  assumes "100 \<le> n" "n < 1000"
  shows "string_of_nat n =
    [digit_char (n div 100), digit_char (n div 10 mod 10), digit_char (n mod 10)]"
proof -
  have a: "\<not> n < 10" "\<not> n div 10 < 10" "n div 10 div 10 < 10" using assms by auto
  have b: "n div 10 div 10 = n div 100" by (simp add: div_mult2_eq[symmetric])
  have "string_of_nat n = string_of_nat (n div 10) @ [digit_char (n mod 10)]"
    using a(1) by (subst string_of_nat.simps) simp
  also have "string_of_nat (n div 10) =
      string_of_nat (n div 10 div 10) @ [digit_char (n div 10 mod 10)]"
    using a(2) by (subst string_of_nat.simps) simp
  also have "string_of_nat (n div 10 div 10) = [digit_char (n div 10 div 10)]"
    using a(3) by (subst string_of_nat.simps) simp
  finally show ?thesis by (simp add: b)
qed

lemma digit_char_4: "d < 10 \<Longrightarrow> (digit_char d = CHR ''4'') = (d = 4)"
proof -
  assume "d < 10"
  then have "d \<in> {0,1,2,3,4,5,6,7,8,9}" by auto
  then show ?thesis by (auto simp: digit_char_def)
qed

lemma AppError_status_3digits:
  assumes "100 \<le> sc" "sc < 1000"
  shows "status (AppError tr msg sc) = Some (JStr (if is_4xx sc then ''fail'' else ''error''))"
proof -
  have d: "sc div 100 < 10" using assms by simp
  have "startsWith (string_of_nat sc) ''4'' = (sc div 100 = 4)"
    using assms digit_char_4[OF d] by (simp add: string_of_nat_3digits startsWith_def)
  moreover have "(sc div 100 = 4) = is_4xx sc" unfolding is_4xx_def by auto
  ultimately show ?thesis by (simp add: AppError_def new_error_def)
qed

lemma AppError_fields:
  "cls (AppError tr msg sc) = AppErrorClass"
  "message (AppError tr msg sc) = Some msg"
  "statusCode (AppError tr msg sc) = Some sc"
  "isOperational (AppError tr msg sc)"
  "code (AppError tr msg sc) = None"
  "errors (AppError tr msg sc) = None"
  "stack (AppError tr msg sc) = Some tr"
  by (simp_all add: AppError_def new_error_def)

lemma AppError_400_status: "status (AppError tr msg 400) = Some (JStr ''fail'')"
  by (simp add: AppError_status_3digits is_4xx_def)

lemma AppError_404_status: "status (AppError tr msg 404) = Some (JStr ''fail'')"
  by (simp add: AppError_status_3digits is_4xx_def)

lemma translate_AppError: "translate tr' (AppError tr msg sc) = Inr (spread (AppError tr msg sc))"
  by (simp add: translate_def AppError_def new_error_def)

lemma send_json_in_range:
  "100 \<le> c \<Longrightarrow> c \<le> 999 \<Longrightarrow> send_json tr c payload = Inr (res_json c payload)"
  by (simp add: send_json_def)

lemma send_json_Inr:
  "send_json tr c payload = Inr r \<Longrightarrow> r = res_json c payload \<and> 100 \<le> c \<and> c \<le> 999"
  by (auto simp: send_json_def split: if_splits)

lemma errorHandler_AppError_outcome:
  "errorHandler e (AppError tr msg sc) =
    send_json (trace e) sc
      (obj [(''status'', status (AppError tr msg sc)), (''message'', Some (JStr msg))])"
  by (simp add: errorHandler_def translate_AppError invalid_json_def operational_response_def
      AppError_fields)

lemma errorHandler_AppError:
  "100 \<le> sc \<Longrightarrow> sc \<le> 999 \<Longrightarrow>
   errorHandler e (AppError tr msg sc) =
    Inr (res_json sc (obj [(''status'', status (AppError tr msg sc)), (''message'', Some (JStr msg))]))"
  by (simp add: errorHandler_AppError_outcome send_json_in_range)

lemma errorHandler_not_found:
  "errorHandler e (AppError tr ''Task not found'' 404) =
     Inr \<lparr>res_status = 404,
          res_payload = JObj [(''status'', JStr ''fail''), (''message'', JStr ''Task not found'')]\<rparr>"
  by (simp add: errorHandler_AppError AppError_404_status
      res_json_def obj_def)

text \<open>
  C5. For get-by-id, update and delete: the absent result of the repository gives the
  response 404 with status \<^verbatim>\<open>"fail"\<close> and message \<^verbatim>\<open>"Task not found"\<close>; a task gives
  the success envelope, 200 with the task for get and update, 204 for delete.
\<close>

theorem absent_is_404_present_is_success:
  "respond e (getTaskById e (Inr None)) =
     Inr \<lparr>res_status = 404,
          res_payload = JObj [(''status'', JStr ''fail''), (''message'', JStr ''Task not found'')]\<rparr>
   \<and> respond e (updateTask e (Inr None)) =
     Inr \<lparr>res_status = 404,
          res_payload = JObj [(''status'', JStr ''fail''), (''message'', JStr ''Task not found'')]\<rparr>
   \<and> respond e (deleteTask e (Inr None)) =
     Inr \<lparr>res_status = 404,
          res_payload = JObj [(''status'', JStr ''fail''), (''message'', JStr ''Task not found'')]\<rparr>
   \<and> respond e (getTaskById e (Inr (Some task))) =
     Inr \<lparr>res_status = 200,
          res_payload = JObj [(''status'', JStr ''success''), (''data'', JObj [(''task'', task)])]\<rparr>
   \<and> respond e (updateTask e (Inr (Some task))) =
     Inr \<lparr>res_status = 200,
          res_payload = JObj [(''status'', JStr ''success''), (''data'', JObj [(''task'', task)])]\<rparr>
   \<and> respond e (deleteTask e (Inr (Some task))) =
     Inr \<lparr>res_status = 204,
          res_payload = JObj [(''status'', JStr ''success''), (''data'', JNull)]\<rparr>"
  by (simp add: respond_def getTaskById_def updateTask_def deleteTask_def errorHandler_not_found
      res_json_def obj_def)

text \<open>
  C9. A delete request whose repository operation returns the deleted task (the id exists
  and is well formed) is answered with status 204 and an empty body.
\<close>

theorem delete_existing_is_204_empty:
  "\<exists>r. respond e (deleteTask e (Inr (Some task))) = Inr r \<and> res_status r = 204 \<and>
       wire_body r = None"
  by (simp add: respond_def deleteTask_def res_json_def wire_body_def)

lemma obj_entries_keys: "set (map fst (obj_entries kvs)) \<subseteq> set (map fst kvs)"
  by (induction kvs rule: obj_entries.induct) auto

lemma payload_keys_res_json_obj:
  "set (payload_keys (res_json c (obj kvs))) \<subseteq> set (map fst kvs)"
  using obj_entries_keys[of kvs] by (simp add: payload_keys_def res_json_def obj_def)

lemma errorHandler_operational_result:
  assumes "isOperational err" "errorHandler e err = Inr r"
  shows "\<exists>c st m. r = res_json c (obj [(''status'', st), (''message'', m)])"
proof (cases "invalid_json err")
  case True
  with assms(2) show ?thesis
    by (auto simp: errorHandler_def split: sum.splits)
next
  case False
  with assms have "operational_response (trace e) err = Inr r"
    by (auto simp: errorHandler_def split: sum.splits)
  then show ?thesis
    by (auto simp: operational_response_def dest!: send_json_Inr split: option.splits)
qed

lemma errorHandler_operational_NODE_ENV:
  "isOperational err \<Longrightarrow> errorHandler (e\<lparr>NODE_ENV := v\<rparr>) err = errorHandler e err"
  by (cases "translate (trace e) err") (simp_all add: errorHandler_def)

text \<open>
  C10. When the error handler answers an operational error, the response is the same
  whatever \<^verbatim>\<open>NODE_ENV\<close> is, and its payload has no other property than \<^verbatim>\<open>status\<close>
  and \<^verbatim>\<open>message\<close> (so neither \<^verbatim>\<open>errors\<close> nor \<^verbatim>\<open>stack\<close>). For an error built by
  \<^verbatim>\<open>AppError\<close> with a status code from 100 to 999 the response has this code and the
  payload is exactly the status string and the message, whatever \<^verbatim>\<open>NODE_ENV\<close> is; with
  a status code that carries a body (from 200 on, and not 204, 205 or 304) this payload
  is the body on the wire.
\<close>

theorem operational_response_ignores_NODE_ENV:
  "(isOperational err \<and> errorHandler e err = Inr r \<longrightarrow>
      errorHandler (e\<lparr>NODE_ENV := v\<rparr>) err = Inr r \<and>
      set (payload_keys r) \<subseteq> {''status'', ''message''})
   \<and> (100 \<le> sc \<and> sc \<le> 999 \<longrightarrow>
        errorHandler (e\<lparr>NODE_ENV := v\<rparr>) (AppError tr msg sc) =
          Inr \<lparr>res_status = sc,
               res_payload =
                 JObj [(''status'', JStr (if is_4xx sc then ''fail'' else ''error'')),
                       (''message'', JStr msg)]\<rparr>)
   \<and> (200 \<le> sc \<and> sc \<le> 999 \<and> sc \<noteq> 204 \<and> sc \<noteq> 205 \<and> sc \<noteq> 304 \<longrightarrow>
        sent_body (errorHandler (e\<lparr>NODE_ENV := v\<rparr>) (AppError tr msg sc)) =
          Some (JObj [(''status'', JStr (if is_4xx sc then ''fail'' else ''error'')),
                      (''message'', JStr msg)]))"
proof (intro conjI impI)
  assume op: "isOperational err \<and> errorHandler e err = Inr r"
  show "errorHandler (e\<lparr>NODE_ENV := v\<rparr>) err = Inr r"
    using op errorHandler_operational_NODE_ENV[where err = err and e = e and v = v] by simp
  from errorHandler_operational_result[OF op[THEN conjunct1] op[THEN conjunct2]]
  obtain c st m where "r = res_json c (obj [(''status'', st), (''message'', m)])" by blast
  then show "set (payload_keys r) \<subseteq> {''status'', ''message''}"
    using payload_keys_res_json_obj[of c "[(''status'', st), (''message'', m)]"] by simp
next
  assume a: "100 \<le> sc \<and> sc \<le> 999"
  then have st: "status (AppError tr msg sc) =
      Some (JStr (if is_4xx sc then ''fail'' else ''error''))"
    by (intro AppError_status_3digits) auto
  show "errorHandler (e\<lparr>NODE_ENV := v\<rparr>) (AppError tr msg sc) =
          Inr \<lparr>res_status = sc,
               res_payload =
                 JObj [(''status'', JStr (if is_4xx sc then ''fail'' else ''error'')),
                       (''message'', JStr msg)]\<rparr>"
    using a by (simp add: errorHandler_AppError st res_json_def obj_def)
next
  assume a: "200 \<le> sc \<and> sc \<le> 999 \<and> sc \<noteq> 204 \<and> sc \<noteq> 205 \<and> sc \<noteq> 304"
  then have st: "status (AppError tr msg sc) =
      Some (JStr (if is_4xx sc then ''fail'' else ''error''))"
    by (intro AppError_status_3digits) auto
  show "sent_body (errorHandler (e\<lparr>NODE_ENV := v\<rparr>) (AppError tr msg sc)) =
          Some (JObj [(''status'', JStr (if is_4xx sc then ''fail'' else ''error'')),
                      (''message'', JStr msg)])"
    using a by (simp add: errorHandler_AppError st res_json_def obj_def sent_body_def
        wire_body_def)
qed

theorem operational_response_ignores_NODE_ENV_witness:
  "isOperational (AppError [] ''Task not found'' 404)
   \<and> errorHandler sample_env (AppError [] ''Task not found'' 404) =
       Inr \<lparr>res_status = 404,
            res_payload = JObj [(''status'', JStr ''fail''), (''message'', JStr ''Task not found'')]\<rparr>
   \<and> errorHandler (sample_env\<lparr>NODE_ENV := Some ''development''\<rparr>)
         (AppError [] ''Task not found'' 404) =
       Inr \<lparr>res_status = 404,
            res_payload = JObj [(''status'', JStr ''fail''), (''message'', JStr ''Task not found'')]\<rparr>
   \<and> set (payload_keys \<lparr>res_status = 404,
          res_payload = JObj [(''status'', JStr ''fail''), (''message'', JStr ''Task not found'')]\<rparr>)
       \<subseteq> {''status'', ''message''}
   \<and> (100::nat) \<le> 404 \<and> (404::nat) \<le> 999
   \<and> sent_body (errorHandler (sample_env\<lparr>NODE_ENV := Some ''development''\<rparr>)
         (AppError [] ''Task not found'' 404)) =
       Some (JObj [(''status'', JStr ''fail''), (''message'', JStr ''Task not found'')])"
  using operational_response_ignores_NODE_ENV
    [where err = "AppError [] ''Task not found'' 404" and e = sample_env
       and v = "Some ''development''" and sc = 404 and tr = "[]" and msg = "''Task not found''"
       and r = "\<lparr>res_status = 404,
            res_payload = JObj [(''status'', JStr ''fail''), (''message'', JStr ''Task not found'')]\<rparr>"]
  by (simp add: AppError_fields errorHandler_not_found is_4xx_def)

text \<open>
  An operational error whose status code is no status code of the protocol gets no answer
  from the error handler: writing the response throws.
\<close>

lemma operational_error_with_invalid_code_throws:
  "errorHandler e (AppError tr msg 40) =
     Inl (new_error RangeError ''Invalid status code: 40'' (trace e))"
proof -
  have "string_of_nat 40 = ''40''"
    by (subst string_of_nat.simps, subst string_of_nat.simps) (simp add: digit_char_def)
  then show ?thesis by (simp add: errorHandler_AppError_outcome send_json_def)
qed

lemma translate_400:
  assumes "cls err = CastError \<or> cls err = ValidationError \<or> code err = Some 11000"
    and "translate tr err = Inr error"
  shows "statusCode error = Some 400 \<and> status error = Some (JStr ''fail'')"
proof -
  have a: "\<And>m. statusCode (AppError tr m 400) = Some 400 \<and>
      status (AppError tr m 400) = Some (JStr ''fail'')"
    by (simp add: AppError_fields AppError_400_status)
  from assms show ?thesis
    by (auto simp: translate_def Let_def handleCastError_def handleValidationError_def
        handleDuplicateFieldError_def a split: if_splits option.splits sum.splits)
qed

lemma handleError_status:
  assumes "handleError e error = Inr r"
  shows "res_status r = (case statusCode error of None \<Rightarrow> 500 | Some c \<Rightarrow> c)"
    and "status_string r =
     Some (case status error of None \<Rightarrow> JStr ''error''
           | Some s \<Rightarrow> if truthy s then s else JStr ''error'')"
  using send_json_Inr[OF assms[unfolded handleError_def Let_def], THEN conjunct1]
  by (simp_all add: res_json_def status_string_def obj_def)

lemma handleError_AppError_400:
  "handleError e (AppError tr m 400) =
     Inr \<lparr>res_status = 400,
          res_payload =
            JObj ([(''status'', JStr ''fail''), (''message'', JStr m)] @
                  (if NODE_ENV e = Some ''development'' then [(''stack'', JStr tr)] else []))\<rparr>"
  by (simp add: handleError_def AppError_fields AppError_400_status send_json_def res_json_def
      obj_def)

lemma translate_unclassified:
  "cls err \<noteq> CastError \<Longrightarrow> cls err \<noteq> ValidationError \<Longrightarrow> code err \<noteq> Some 11000 \<Longrightarrow>
   translate tr err = Inr (spread err)"
  by (simp add: translate_def)

text \<open>
  C3 (as amended). The status string is \<^verbatim>\<open>"fail"\<close> exactly for a 4xx status code on
  the translations through \<^verbatim>\<open>AppError\<close>: a cast error, a storage validation error and
  a duplicate key are answered 400 with \<^verbatim>\<open>"fail"\<close>, and an operational error built by
  \<^verbatim>\<open>AppError\<close> with a code from 100 to 599 has \<^verbatim>\<open>"fail"\<close> exactly when the code is
  4xx. Malformed JSON is answered 400 with \<^verbatim>\<open>"error"\<close>, and an unclassified error
  with its own truthy \<^verbatim>\<open>status\<close>, else \<^verbatim>\<open>"error"\<close>, whatever its status code.
\<close>

theorem status_string_of_error_responses:
  "(\<not> isOperational err1 \<and> \<not> invalid_json err1 \<and>
      (cls err1 = CastError \<or> cls err1 = ValidationError \<or> code err1 = Some 11000) \<and>
      errorHandler e err1 = Inr r1
      \<longrightarrow> res_status r1 = 400 \<and> status_string r1 = Some (JStr ''fail'') \<and> fail_iff_4xx r1)
   \<and> (100 \<le> sc \<and> sc \<le> 599 \<and> errorHandler e (AppError tr msg sc) = Inr r2
      \<longrightarrow> res_status r2 = sc \<and> fail_iff_4xx r2)
   \<and> (invalid_json err3 \<and> errorHandler e err3 = Inr r3
      \<longrightarrow> res_status r3 = 400 \<and> status_string r3 = Some (JStr ''error''))
   \<and> (\<not> isOperational err4 \<and> \<not> invalid_json err4 \<and> cls err4 \<noteq> CastError \<and>
      cls err4 \<noteq> ValidationError \<and> code err4 \<noteq> Some 11000 \<and> errorHandler e err4 = Inr r4
      \<longrightarrow> res_status r4 = (case statusCode err4 of None \<Rightarrow> 500 | Some c \<Rightarrow> c) \<and>
          status_string r4 =
            Some (case status err4 of None \<Rightarrow> JStr ''error''
                  | Some s \<Rightarrow> if truthy s then s else JStr ''error''))"
proof (intro conjI impI)
  assume a: "\<not> isOperational err1 \<and> \<not> invalid_json err1 \<and>
      (cls err1 = CastError \<or> cls err1 = ValidationError \<or> code err1 = Some 11000) \<and>
      errorHandler e err1 = Inr r1"
  then obtain error where t: "translate (trace e) err1 = Inr error"
    and r: "handleError e error = Inr r1"
    by (auto simp: errorHandler_def split: sum.splits)
  from a t have s: "statusCode error = Some 400 \<and> status error = Some (JStr ''fail'')"
    using translate_400 by blast
  show "res_status r1 = 400" using handleError_status[OF r] s by simp
  show st: "status_string r1 = Some (JStr ''fail'')" using handleError_status[OF r] s by simp
  show "fail_iff_4xx r1"
    using handleError_status[OF r] s by (simp add: fail_iff_4xx_def is_4xx_def)
next
  assume a: "100 \<le> sc \<and> sc \<le> 599 \<and> errorHandler e (AppError tr msg sc) = Inr r2"
  then have r: "r2 = res_json sc (obj [(''status'', status (AppError tr msg sc)),
      (''message'', Some (JStr msg))])"
    by (clarsimp simp: errorHandler_AppError)
  show "res_status r2 = sc" using r by (simp add: res_json_def)
  have "status (AppError tr msg sc) = Some (JStr (if is_4xx sc then ''fail'' else ''error''))"
    using a by (intro AppError_status_3digits) auto
  then show "fail_iff_4xx r2"
    using r by (simp add: fail_iff_4xx_def status_string_def res_json_def obj_def)
next
  assume a: "invalid_json err3 \<and> errorHandler e err3 = Inr r3"
  then have r: "r3 = res_json 400
                 (obj [(''status'', Some (JStr ''error'')),
                       (''message'',
                          Some (JStr (''Invalid JSON: '' @
                            (case message err3 of None \<Rightarrow> ''undefined'' | Some m \<Rightarrow> m))))])"
    by (auto simp: errorHandler_def split: sum.splits)
  show "res_status r3 = 400" using r by (simp add: res_json_def)
  show "status_string r3 = Some (JStr ''error'')"
    using r by (simp add: status_string_def res_json_def obj_def)
next
  assume a: "\<not> isOperational err4 \<and> \<not> invalid_json err4 \<and> cls err4 \<noteq> CastError \<and>
      cls err4 \<noteq> ValidationError \<and> code err4 \<noteq> Some 11000 \<and> errorHandler e err4 = Inr r4"
  then have r: "handleError e (spread err4) = Inr r4"
    by (clarsimp simp: errorHandler_def translate_unclassified)
  show "res_status r4 = (case statusCode err4 of None \<Rightarrow> 500 | Some c \<Rightarrow> c)"
    using handleError_status[OF r] by (simp add: spread_def)
  show "status_string r4 =
            Some (case status err4 of None \<Rightarrow> JStr ''error''
                  | Some s \<Rightarrow> if truthy s then s else JStr ''error'')"
    using handleError_status[OF r] by (simp add: spread_def)
qed

lemma errorHandler_cast_error:
  "errorHandler e (cast_error p v tr) =
     handleError e (AppError (trace e) (''Invalid '' @ p @ '': '' @ v) 400)"
  by (simp add: errorHandler_def translate_def cast_error_def new_error_def handleCastError_def
      invalid_json_def)

lemma errorHandler_body_parse_error:
  "errorHandler e (body_parse_error m tr) =
     Inr \<lparr>res_status = 400,
          res_payload = JObj [(''status'', JStr ''error''),
                              (''message'', JStr (''Invalid JSON: '' @ m))]\<rparr>"
  by (simp add: errorHandler_def translate_def body_parse_error_def new_error_def
      invalid_json_def res_json_def obj_def spread_def)

lemma errorHandler_notFound:
  "errorHandler e (notFound e url) =
     Inr \<lparr>res_status = 404,
          res_payload = JObj [(''status'', JStr ''error''),
                              (''message'', JStr (''Not Found - '' @ url))]\<rparr>"
  by (simp add: errorHandler_def translate_def notFound_def new_error_def
      invalid_json_def res_json_def obj_def spread_def handleError_def send_json_def)

lemma sample_error_fields:
  "cls (cast_error p v tr) = CastError"
  "\<not> isOperational (cast_error p v tr)"
  "\<not> invalid_json (cast_error p v tr)"
  "invalid_json (body_parse_error m tr)"
  "cls (notFound e url) = PlainError"
  "\<not> isOperational (notFound e url)"
  "\<not> invalid_json (notFound e url)"
  "code (notFound e url) = None"
  "statusCode (notFound e url) = Some 404"
  "status (notFound e url) = None"
  by (simp_all add: cast_error_def body_parse_error_def notFound_def new_error_def
      invalid_json_def)

lemma errorHandler_sample_cast_error:
  "errorHandler sample_env (cast_error ''_id'' ''abc'' []) =
     Inr \<lparr>res_status = 400,
          res_payload = JObj [(''status'', JStr ''fail''), (''message'', JStr ''Invalid _id: abc'')]\<rparr>"
  by (simp add: errorHandler_cast_error handleError_AppError_400 sample_env_def)

theorem status_string_of_error_responses_witness:
  "fail_iff_4xx \<lparr>res_status = 400,
          res_payload = JObj [(''status'', JStr ''fail''), (''message'', JStr ''Invalid _id: abc'')]\<rparr>
   \<and> fail_iff_4xx \<lparr>res_status = 404,
          res_payload = JObj [(''status'', JStr ''fail''), (''message'', JStr ''Task not found'')]\<rparr>
   \<and> status_string \<lparr>res_status = 400,
          res_payload = JObj [(''status'', JStr ''error''),
                              (''message'', JStr ''Invalid JSON: Unexpected token'')]\<rparr>
        = Some (JStr ''error'')
   \<and> status_string \<lparr>res_status = 404,
          res_payload = JObj [(''status'', JStr ''error''),
                              (''message'', JStr ''Not Found - /nowhere'')]\<rparr>
        = Some (JStr ''error'')"
  using status_string_of_error_responses
    [of "cast_error ''_id'' ''abc'' []" sample_env
        "\<lparr>res_status = 400,
          res_payload = JObj [(''status'', JStr ''fail''), (''message'', JStr ''Invalid _id: abc'')]\<rparr>"
        404 "[]" "''Task not found''"
        "\<lparr>res_status = 404,
          res_payload = JObj [(''status'', JStr ''fail''), (''message'', JStr ''Task not found'')]\<rparr>"
        "body_parse_error ''Unexpected token'' []"
        "\<lparr>res_status = 400,
          res_payload = JObj [(''status'', JStr ''error''),
                              (''message'', JStr ''Invalid JSON: Unexpected token'')]\<rparr>"
        "notFound sample_env ''/nowhere''"
        "\<lparr>res_status = 404,
          res_payload = JObj [(''status'', JStr ''error''),
                              (''message'', JStr ''Not Found - /nowhere'')]\<rparr>"]
  by (simp add: errorHandler_sample_cast_error errorHandler_body_parse_error
      errorHandler_notFound errorHandler_not_found sample_error_fields)

text \<open>
  C3 as stated fails: the response to a malformed JSON body has the 4xx status code 400
  and the status string \<^verbatim>\<open>"error"\<close>, and so has the 404 response for an unmatched route.
\<close>

theorem malformed_json_is_400_with_error:
  "errorHandler sample_env (body_parse_error ''Unexpected token i in JSON at position 1'' []) =
     Inr \<lparr>res_status = 400,
          res_payload = JObj [(''status'', JStr ''error''),
            (''message'', JStr ''Invalid JSON: Unexpected token i in JSON at position 1'')]\<rparr>
   \<and> \<not> fail_iff_4xx \<lparr>res_status = 400,
          res_payload = JObj [(''status'', JStr ''error''),
            (''message'', JStr ''Invalid JSON: Unexpected token i in JSON at position 1'')]\<rparr>
   \<and> errorHandler sample_env (notFound sample_env ''/nowhere'') =
     Inr \<lparr>res_status = 404,
          res_payload = JObj [(''status'', JStr ''error''),
                              (''message'', JStr ''Not Found - /nowhere'')]\<rparr>
   \<and> \<not> fail_iff_4xx \<lparr>res_status = 404,
          res_payload = JObj [(''status'', JStr ''error''),
                              (''message'', JStr ''Not Found - /nowhere'')]\<rparr>"
  by (simp add: errorHandler_body_parse_error errorHandler_notFound fail_iff_4xx_def
      status_string_def is_4xx_def)

text \<open>In development mode the generic path adds the stack trace, here for a cast error.\<close>

lemma generic_path_has_stack_in_development:
  assumes "NODE_ENV e = Some ''development''"
  shows "errorHandler e (cast_error p v tr) =
     Inr \<lparr>res_status = 400,
          res_payload =
            JObj [(''status'', JStr ''fail''), (''message'', JStr (''Invalid '' @ p @ '': '' @ v)),
                  (''stack'', JStr (trace e))]\<rparr>"
  using assms
  by (simp add: errorHandler_cast_error handleError_AppError_400)

section \<open>Properties of the schema validation\<close>

lemma map_of_filter_keys:
  "map_of (filter (\<lambda>(k, v). P k) xs) k' = (if P k' then map_of xs k' else None)"
  by (induction xs) auto

lemma validate_children_errors:
  assumes "\<not> abortEarly opts" "distinct (map fst ks)"
  shows "fst (validate_children e opts ks val) =
    concat (map (\<lambda>(k, fs). fst (validate_field e opts k fs (map_of val k))) ks)"
  using assms(2)
proof (induction ks arbitrary: val)
  case Nil
  then show ?case by simp
next
  case (Cons kf ks)
  obtain k fs where kf: "kf = (k, fs)" by (cases kf)
  obtain errs res where vf: "validate_field e opts k fs (map_of val k) = (errs, res)"
    by (cases "validate_field e opts k fs (map_of val k)")
  define val' where "val' = (case res of None \<Rightarrow> val | Some v \<Rightarrow> AList.update k v val)"
  have k: "k \<notin> fst ` set ks" and d: "distinct (map fst ks)" using Cons.prems kf by auto
  have same: "\<And>k' fs'. (k', fs') \<in> set ks \<Longrightarrow> map_of val' k' = map_of val k'"
  proof -
    fix k' fs' assume "(k', fs') \<in> set ks"
    then have "k' \<noteq> k" using k by force
    then show "map_of val' k' = map_of val k'"
      by (cases res) (simp_all add: val'_def update_conv')
  qed
  have "fst (validate_children e opts ks val') =
      concat (map (\<lambda>(k, fs). fst (validate_field e opts k fs (map_of val' k))) ks)"
    using Cons.IH[OF d] .
  also have "\<dots> = concat (map (\<lambda>(k, fs). fst (validate_field e opts k fs (map_of val k))) ks)"
    using same by (intro arg_cong[where f = concat] map_cong) auto
  finally have rest: "fst (validate_children e opts ks val') =
      concat (map (\<lambda>(k, fs). fst (validate_field e opts k fs (map_of val k))) ks)" .
  show ?case
    using assms(1) rest
    by (auto simp: kf vf val'_def[symmetric] split: prod.splits)
qed

lemma validate_children_value:
  assumes "\<not> abortEarly opts" "distinct (map fst ks)"
  shows "map_of (snd (validate_children e opts ks val)) k' =
    (case map_of ks k' of
       None \<Rightarrow> map_of val k'
     | Some fs \<Rightarrow> snd (validate_field e opts k' fs (map_of val k')))"
  using assms(2)
proof (induction ks arbitrary: val)
  case Nil
  then show ?case by simp
next
  case (Cons kf ks)
  obtain k fs where kf: "kf = (k, fs)" by (cases kf)
  obtain errs res where vf: "validate_field e opts k fs (map_of val k) = (errs, res)"
    by (cases "validate_field e opts k fs (map_of val k)")
  define val' where "val' = (case res of None \<Rightarrow> val | Some v \<Rightarrow> AList.update k v val)"
  have k: "k \<notin> fst ` set ks" and d: "distinct (map fst ks)" using Cons.prems kf by auto
  have mk: "map_of ks k = None" using k by (simp add: map_of_eq_None_iff)
  have res: "res = field_value e fs (map_of val k)"
    using vf by (simp add: validate_field_def)
  have upd: "map_of val' k = (case res of None \<Rightarrow> map_of val k | Some v \<Rightarrow> Some v)"
    by (cases res) (simp_all add: val'_def update_conv')
  have other: "\<And>k'. k' \<noteq> k \<Longrightarrow> map_of val' k' = map_of val k'"
    by (cases res) (simp_all add: val'_def update_conv')
  have step: "snd (validate_children e opts (kf # ks) val) = snd (validate_children e opts ks val')"
    using assms(1) by (auto simp: kf vf val'_def[symmetric] split: prod.splits)
  show ?case
  proof (cases "k' = k")
    case True
    have "map_of (snd (validate_children e opts ks val')) k = map_of val' k"
      using Cons.IH[OF d, of val'] mk True by simp
    also have "\<dots> = res"
      using upd res by (cases "map_of val k") (auto simp: field_value_def split: option.splits)
    finally show ?thesis using True step vf by (simp add: kf)
  next
    case False
    then show ?thesis
      using Cons.IH[OF d, of val'] step other[OF False]
      by (simp add: kf split: option.splits)
  qed
qed

lemma validate_object_errors:
  assumes "distinct (map fst (keys sch))" "field_details e sch raw \<noteq> []"
  shows "fst (validate e validateRequest_options sch (JObj raw)) = field_details e sch raw"
proof -
  have "fst (validate_children e validateRequest_options (keys sch) raw) = field_details e sch raw"
    using validate_children_errors[OF _ assms(1), of validateRequest_options e raw]
    by (simp add: validateRequest_options_def field_details_def)
  then show ?thesis
    using assms(2)
    by (auto simp: validate_def validateRequest_options_def Let_def split: prod.splits)
qed

lemma validateRequest_rejected:
  assumes "distinct (map fst (keys sch))" "field_details e sch raw \<noteq> []"
  shows "validateRequest e sch (JObj raw) =
    Rejected (res_json 400
      (obj [(''status'', Some (JStr ''error'')),
            (''message'', Some (JStr ''Validation error'')),
            (''errors'', Some (JArr (map error_entry (field_details e sch raw))))]))"
  using validate_object_errors[OF assms] assms(2)
  by (auto simp: validateRequest_def split: prod.splits)

lemma response_errors_rejected:
  "response_errors (res_json 400
      (obj [(''status'', Some (JStr ''error'')),
            (''message'', Some (JStr ''Validation error'')),
            (''errors'', Some (JArr es))])) = es"
  by (simp add: response_errors_def res_json_def obj_def)

lemma res_json_sel: "res_status (res_json c p) = c" "res_payload (res_json c p) = p"
  by (simp_all add: res_json_def)

lemma violation_in_field_details:
  assumes "(k, fs) \<in> set (keys sch)"
    and "ty \<in> set (field_errors e validateRequest_options fs (map_of raw k))"
  shows "mk_detail e (messages fs) [k] k ty \<in> set (field_details e sch raw)"
  using assms by (force simp: field_details_def validate_field_def)

lemma error_entry_mk_detail:
  "error_entry (mk_detail e msgs [k] k ty) =
     entry k (case map_of msgs ty of Some m \<Rightarrow> m | None \<Rightarrow> default_template e ty k)"
  by (simp add: error_entry_def mk_detail_def entry_def obj_def)

lemma violation_reported:
  assumes "distinct (map fst (keys sch))" "(k, fs) \<in> set (keys sch)"
    and "ty \<in> set (field_errors e validateRequest_options fs (map_of raw k))"
  shows "\<exists>r. validateRequest e sch (JObj raw) = Rejected r \<and> res_status r = 400 \<and>
    entry k (case map_of (messages fs) ty of Some m \<Rightarrow> m | None \<Rightarrow> default_template e ty k)
      \<in> set (response_errors r)"
proof -
  have in_d: "mk_detail e (messages fs) [k] k ty \<in> set (field_details e sch raw)"
    using violation_in_field_details[OF assms(2,3)] .
  then have ne: "field_details e sch raw \<noteq> []" by auto
  have "error_entry (mk_detail e (messages fs) [k] k ty)
      \<in> set (map error_entry (field_details e sch raw))"
    using in_d by simp
  then show ?thesis
    using validateRequest_rejected[OF assms(1) ne]
    by (simp add: response_errors_rejected error_entry_mk_detail res_json_sel)
qed

lemma createTaskSchema_distinct: "distinct (map fst (keys createTaskSchema))"
  by (simp add: createTaskSchema_def)

lemma updateTaskSchema_distinct: "distinct (map fst (keys updateTaskSchema))"
  by (simp add: updateTaskSchema_def)

lemma violations_reported:
  assumes "distinct (map fst (keys sch))" "ty \<in> set (violations e sch raw k)"
  shows "\<exists>r. validateRequest e sch (JObj raw) = Rejected r \<and> res_status r = 400 \<and>
    response_errors r = map error_entry (field_details e sch raw) \<and>
    entry k (field_message e sch k ty) \<in> set (response_errors r)"
proof -
  from assms(2) obtain fs where fs: "map_of (keys sch) k = Some fs"
    and ty: "ty \<in> set (field_errors e validateRequest_options fs (map_of raw k))"
    by (cases "map_of (keys sch) k") (auto simp: violations_def)
  have mem: "(k, fs) \<in> set (keys sch)" using fs by (rule map_of_SomeD)
  have in_d: "mk_detail e (messages fs) [k] k ty \<in> set (field_details e sch raw)"
    using violation_in_field_details[OF mem ty] .
  then have ne: "field_details e sch raw \<noteq> []" by auto
  have "error_entry (mk_detail e (messages fs) [k] k ty)
      \<in> set (map error_entry (field_details e sch raw))"
    using in_d by simp
  then show ?thesis
    using validateRequest_rejected[OF assms(1) ne] fs
    by (simp add: response_errors_rejected error_entry_mk_detail res_json_sel field_message_def)
qed

lemma no_violations_no_details:
  assumes "distinct (map fst (keys sch))" "\<forall>k. violations e sch raw k = []"
  shows "field_details e sch raw = []"
proof -
  have "\<And>k fs. (k, fs) \<in> set (keys sch) \<Longrightarrow>
      fst (validate_field e validateRequest_options k fs (map_of raw k)) = []"
  proof -
    fix k fs assume "(k, fs) \<in> set (keys sch)"
    then have "map_of (keys sch) k = Some fs" using assms(1) by simp
    then have "field_errors e validateRequest_options fs (map_of raw k) = []"
      using assms(2)[rule_format, of k] by (simp add: violations_def)
    then show "fst (validate_field e validateRequest_options k fs (map_of raw k)) = []"
      by (simp add: validate_field_def)
  qed
  then show ?thesis by (auto simp: field_details_def)
qed

text \<open>The value that \<^verbatim>\<open>validateRequest\<close> forwards when no field is violated.\<close>

lemma validateRequest_forward:
  assumes "distinct (map fst (keys sch))" "field_details e sch raw = []" "min_keys sch = None"
  shows "\<exists>v. validateRequest e sch (JObj raw) = Forward (JObj v) \<and>
      (\<forall>k. map_of v k =
         (case map_of (keys sch) k of
            None \<Rightarrow> None
          | Some fs \<Rightarrow> field_value e fs (map_of raw k)))"
proof -
  define val where "val = snd (validate_children e validateRequest_options (keys sch) raw)"
  define v where "v = filter (\<lambda>(k, v). k \<in> set (map fst (keys sch))) val"
  have na: "\<not> abortEarly validateRequest_options" by (simp add: validateRequest_options_def)
  have su: "stripUnknown validateRequest_options" by (simp add: validateRequest_options_def)
  have errs: "fst (validate_children e validateRequest_options (keys sch) raw) = []"
    using validate_children_errors[OF na assms(1), of e raw] assms(2)
    by (simp add: field_details_def)
  then have vc: "validate_children e validateRequest_options (keys sch) raw = ([], val)"
    by (simp add: val_def prod_eq_iff)
  have fw: "validateRequest e sch (JObj raw) = Forward (JObj v)"
    by (simp add: validateRequest_def validate_def vc Let_def assms(3) v_def na su)
  have "\<And>k. map_of v k =
         (case map_of (keys sch) k of
            None \<Rightarrow> None
          | Some fs \<Rightarrow> field_value e fs (map_of raw k))"
  proof -
    fix k
    show "map_of v k =
         (case map_of (keys sch) k of
            None \<Rightarrow> None
          | Some fs \<Rightarrow> field_value e fs (map_of raw k))"
    proof (cases "map_of (keys sch) k")
      case None
      then have "k \<notin> set (map fst (keys sch))" by (simp add: map_of_eq_None_iff)
      then show ?thesis using None by (simp add: v_def map_of_filter_keys)
    next
      case (Some fs)
      then have "(k, fs) \<in> set (keys sch)" by (rule map_of_SomeD)
      then have "k \<in> set (map fst (keys sch))" by force
      then have "map_of v k = map_of val k" by (simp add: v_def map_of_filter_keys)
      also have "\<dots> = field_value e fs (map_of raw k)"
        using validate_children_value[OF na assms(1), of e raw k] Some
        by (simp add: val_def validate_field_def)
      finally show ?thesis using Some by simp
    qed
  qed
  with fw show ?thesis by blast
qed

lemma field_value_trimmed:
  "base fs = StringType \<Longrightarrow> Trim \<in> set (rules fs) \<Longrightarrow>
   field_value e fs (Some (JStr s)) = Some (JStr (trim s))"
  by (simp add: field_value_def coerce_def)

text \<open>
  C8. For every raw mapping, the validation of a create payload either forwards a
  sanitized mapping or answers with the list of entries: when a field is violated, the
  400 response has the entries of all fields in the order of the schema, so one entry
  (with the field's name and the message of the error type) for every error type of
  every violated field; when no field is violated, the forwarded mapping has no key that
  the schema does not name, its strings are trimmed and a missing \<^verbatim>\<open>completed\<close> is
  \<^verbatim>\<open>false\<close>.
\<close>

theorem validation_reports_every_violation_or_sanitizes:
  "(ty \<in> set (violations e createTaskSchema raw k) \<longrightarrow>
      (\<exists>r. validateRequest e createTaskSchema (JObj raw) = Rejected r \<and> res_status r = 400 \<and>
           response_errors r = map error_entry (field_details e createTaskSchema raw) \<and>
           entry k (field_message e createTaskSchema k ty) \<in> set (response_errors r)))
   \<and> ((\<forall>k. violations e createTaskSchema raw k = []) \<longrightarrow>
      (\<exists>v. validateRequest e createTaskSchema (JObj raw) = Forward (JObj v) \<and>
           (\<forall>k. k \<notin> set (map fst (keys createTaskSchema)) \<longrightarrow> map_of v k = None) \<and>
           (\<forall>k s. k \<in> {''title'', ''description'', ''category'', ''priority''} \<longrightarrow>
                  map_of raw k = Some (JStr s) \<longrightarrow> map_of v k = Some (JStr (trim s))) \<and>
           (map_of raw ''completed'' = None \<longrightarrow> map_of v ''completed'' = Some (JBool False))))"
proof (intro conjI impI)
  assume "ty \<in> set (violations e createTaskSchema raw k)"
  then show "\<exists>r. validateRequest e createTaskSchema (JObj raw) = Rejected r \<and> res_status r = 400 \<and>
           response_errors r = map error_entry (field_details e createTaskSchema raw) \<and>
           entry k (field_message e createTaskSchema k ty) \<in> set (response_errors r)"
    by (rule violations_reported[OF createTaskSchema_distinct])
next
  assume nv: "\<forall>k. violations e createTaskSchema raw k = []"
  have nd: "field_details e createTaskSchema raw = []"
    using no_violations_no_details[OF createTaskSchema_distinct nv] .
  have mk: "min_keys createTaskSchema = None" by (simp add: createTaskSchema_def)
  from validateRequest_forward[OF createTaskSchema_distinct nd mk]
  obtain v where fw: "validateRequest e createTaskSchema (JObj raw) = Forward (JObj v)"
    and look: "\<And>k. map_of v k =
         (case map_of (keys createTaskSchema) k of
            None \<Rightarrow> None
          | Some fs \<Rightarrow> field_value e fs (map_of raw k))"
    by blast
  have unknown: "\<forall>k. k \<notin> set (map fst (keys createTaskSchema)) \<longrightarrow> map_of v k = None"
  proof (intro allI impI)
    fix k assume "k \<notin> set (map fst (keys createTaskSchema))"
    then have "map_of (keys createTaskSchema) k = None" by (simp add: map_of_eq_None_iff)
    then show "map_of v k = None" using look[of k] by simp
  qed
  have trimmed: "\<forall>k s. k \<in> {''title'', ''description'', ''category'', ''priority''} \<longrightarrow>
                  map_of raw k = Some (JStr s) \<longrightarrow> map_of v k = Some (JStr (trim s))"
  proof (intro allI impI)
    fix k s
    assume k: "k \<in> {''title'', ''description'', ''category'', ''priority''}"
      and r: "map_of raw k = Some (JStr s)"
    from k have "\<exists>fs. map_of (keys createTaskSchema) k = Some fs \<and> base fs = StringType \<and>
        Trim \<in> set (rules fs)"
      by (elim insertE emptyE) (simp_all add: createTaskSchema_def)
    then obtain fs where "map_of (keys createTaskSchema) k = Some fs" "base fs = StringType"
      "Trim \<in> set (rules fs)" by blast
    then show "map_of v k = Some (JStr (trim s))"
      using look[of k] r by (simp add: field_value_trimmed)
  qed
  have dflt: "map_of raw ''completed'' = None \<longrightarrow> map_of v ''completed'' = Some (JBool False)"
    using look[of "''completed''"] by (simp add: createTaskSchema_def field_value_def)
  show "\<exists>v. validateRequest e createTaskSchema (JObj raw) = Forward (JObj v) \<and>
           (\<forall>k. k \<notin> set (map fst (keys createTaskSchema)) \<longrightarrow> map_of v k = None) \<and>
           (\<forall>k s. k \<in> {''title'', ''description'', ''category'', ''priority''} \<longrightarrow>
                  map_of raw k = Some (JStr s) \<longrightarrow> map_of v k = Some (JStr (trim s))) \<and>
           (map_of raw ''completed'' = None \<longrightarrow> map_of v ''completed'' = Some (JBool False))"
    by (intro exI[of _ v] conjI) (rule fw unknown trimmed dflt)+
qed

lemma sample_bad_title:
  "''string.min'' \<in> set (violations sample_env createTaskSchema sample_bad_body ''title'')"
  by (simp add: violations_def createTaskSchema_def sample_bad_body_def field_errors_def
      coerce_def trim_def is_space_def base_error_def validateRequest_options_def)

lemma sample_bad_priority:
  "''any.only'' \<in> set (violations sample_env createTaskSchema sample_bad_body ''priority'')"
  by (simp add: violations_def createTaskSchema_def sample_bad_body_def field_errors_def
      coerce_def trim_def is_space_def base_error_def validateRequest_options_def)

lemma sample_body_valid: "violations sample_env createTaskSchema sample_body k = []"
proof (cases "k \<in> set (map fst (keys createTaskSchema))")
  case False
  then have "map_of (keys createTaskSchema) k = None" by (simp add: map_of_eq_None_iff)
  then show ?thesis by (simp add: violations_def)
next
  case True
  then have "k = ''title'' \<or> k = ''description'' \<or> k = ''category'' \<or> k = ''priority'' \<or>
      k = ''deadline'' \<or> k = ''completed''"
    by (simp add: createTaskSchema_def)
  then show ?thesis
    by (elim disjE)
       (simp_all add: violations_def createTaskSchema_def sample_body_def field_errors_def
          coerce_def trim_def is_space_def base_error_def validateRequest_options_def
          sample_env_def sample_parse_def)
qed

lemma trim_sample_title: "trim ''  Write report '' = ''Write report''"
  by (simp add: trim_def is_space_def)

theorem validation_reports_every_violation_or_sanitizes_witness:
  "''string.min'' \<in> set (violations sample_env createTaskSchema sample_bad_body ''title'')
   \<and> (\<exists>r. validateRequest sample_env createTaskSchema (JObj sample_bad_body) = Rejected r \<and>
          res_status r = 400 \<and>
          response_errors r = map error_entry (field_details sample_env createTaskSchema sample_bad_body) \<and>
          entry ''title'' ''Title must be at least 3 characters long'' \<in> set (response_errors r))
   \<and> (\<exists>v. validateRequest sample_env createTaskSchema (JObj sample_body) = Forward (JObj v) \<and>
          map_of v ''extra'' = None \<and>
          map_of v ''title'' = Some (JStr ''Write report'') \<and>
          map_of v ''completed'' = Some (JBool False))"
proof -
  note main = validation_reports_every_violation_or_sanitizes
  have m: "field_message sample_env createTaskSchema ''title'' ''string.min'' =
      ''Title must be at least 3 characters long''"
    by (simp add: field_message_def createTaskSchema_def)
  have bad: "\<exists>r. validateRequest sample_env createTaskSchema (JObj sample_bad_body) = Rejected r \<and>
          res_status r = 400 \<and>
          response_errors r = map error_entry (field_details sample_env createTaskSchema sample_bad_body) \<and>
          entry ''title'' ''Title must be at least 3 characters long'' \<in> set (response_errors r)"
    using main[where e = sample_env and raw = sample_bad_body and k = "''title''"
        and ty = "''string.min''", THEN conjunct1, THEN mp, OF sample_bad_title]
    unfolding m .
  have nv: "\<forall>k. violations sample_env createTaskSchema sample_body k = []"
    using sample_body_valid by (intro allI)
  obtain v where all: "validateRequest sample_env createTaskSchema (JObj sample_body) = Forward (JObj v) \<and>
      (\<forall>k. k \<notin> set (map fst (keys createTaskSchema)) \<longrightarrow> map_of v k = None) \<and>
      (\<forall>k s. k \<in> {''title'', ''description'', ''category'', ''priority''} \<longrightarrow>
                  map_of sample_body k = Some (JStr s) \<longrightarrow> map_of v k = Some (JStr (trim s))) \<and>
      (map_of sample_body ''completed'' = None \<longrightarrow> map_of v ''completed'' = Some (JBool False))"
    using main[where e = sample_env and raw = sample_body, THEN conjunct2, THEN mp, OF nv]
    by (rule exE)
  note fw = all[THEN conjunct1]
  note unknown = all[THEN conjunct2, THEN conjunct1]
  note trimmed = all[THEN conjunct2, THEN conjunct2, THEN conjunct1]
  note dflt = all[THEN conjunct2, THEN conjunct2, THEN conjunct2]
  have a: "map_of v ''extra'' = None"
    using unknown[rule_format, of "''extra''"] by (simp add: createTaskSchema_def)
  have t: "map_of sample_body ''title'' = Some (JStr ''  Write report '')"
    by (simp add: sample_body_def)
  have b: "map_of v ''title'' = Some (JStr ''Write report'')"
    using trimmed[rule_format, of "''title''" "''  Write report ''", OF _ t]
    by (simp add: trim_sample_title)
  have c0: "map_of sample_body ''completed'' = None" by (simp add: sample_body_def)
  have c: "map_of v ''completed'' = Some (JBool False)"
    using dflt[THEN mp, OF c0] .
  have good: "\<exists>v. validateRequest sample_env createTaskSchema (JObj sample_body) = Forward (JObj v) \<and>
          map_of v ''extra'' = None \<and>
          map_of v ''title'' = Some (JStr ''Write report'') \<and>
          map_of v ''completed'' = Some (JBool False)"
    by (intro exI[of _ v] conjI) (rule fw a b c)+
  show ?thesis by (intro conjI) (rule sample_bad_title bad good)+
qed

lemma priority_violation:
  assumes "map_of raw ''priority'' = Some v"
    and "\<forall>p. v = JStr p \<longrightarrow> trim p \<notin> {''Low'', ''Medium'', ''High''}"
  shows "''any.only'' \<in> set (violations e createTaskSchema raw ''priority'')"
  using assms
  by (cases v)
     (auto simp: violations_def createTaskSchema_def field_errors_def coerce_def
        validateRequest_options_def Let_def)

lemma validateRequest_errors_rejected:
  assumes "fst (validate e validateRequest_options sch body) \<noteq> []"
  shows "\<exists>r. validateRequest e sch body = Rejected r \<and> res_status r = 400 \<and>
    response_errors r \<noteq> []"
  using assms
  by (cases "validate e validateRequest_options sch body")
     (simp add: validateRequest_def response_errors_rejected res_json_sel)

lemma post_tasks_rejected:
  "validateRequest e createTaskSchema body = Rejected r \<Longrightarrow> post_tasks e s body = (Inr r, s)"
  by (simp add: post_tasks_def)

text \<open>
  C6. A create request whose payload fails the schema validation is answered 400 by the
  validation middleware, which ends the request: the controller and so the repository
  are not reached, and the store after the request is the store before it. The response
  has an entry for every violated field; a \<^verbatim>\<open>priority\<close> that is not one of Low,
  Medium, High (after trimming) gives the entry of \<^verbatim>\<open>priority\<close> with the schema's
  message.
\<close>

theorem invalid_create_is_rejected_before_the_store:
  "(fst (validate e validateRequest_options createTaskSchema body) \<noteq> [] \<longrightarrow>
      (\<exists>r. validateRequest e createTaskSchema body = Rejected r \<and>
           post_tasks e s body = (Inr r, s) \<and> res_status r = 400 \<and> response_errors r \<noteq> []))
   \<and> (ty \<in> set (violations e createTaskSchema raw k) \<longrightarrow>
      (\<exists>r. validateRequest e createTaskSchema (JObj raw) = Rejected r \<and>
           post_tasks e s (JObj raw) = (Inr r, s) \<and> res_status r = 400 \<and>
           entry k (field_message e createTaskSchema k ty) \<in> set (response_errors r)))
   \<and> (map_of raw ''priority'' = Some v \<and>
       (\<forall>p. v = JStr p \<longrightarrow> trim p \<notin> {''Low'', ''Medium'', ''High''}) \<longrightarrow>
      (\<exists>r. validateRequest e createTaskSchema (JObj raw) = Rejected r \<and>
           post_tasks e s (JObj raw) = (Inr r, s) \<and> res_status r = 400 \<and>
           entry ''priority'' ''Priority must be one of: Low, Medium, High''
             \<in> set (response_errors r)))"
proof (intro conjI impI)
  assume "fst (validate e validateRequest_options createTaskSchema body) \<noteq> []"
  from validateRequest_errors_rejected[OF this]
  obtain r where "validateRequest e createTaskSchema body = Rejected r" "res_status r = 400"
    "response_errors r \<noteq> []" by blast
  then show "\<exists>r. validateRequest e createTaskSchema body = Rejected r \<and>
           post_tasks e s body = (Inr r, s) \<and> res_status r = 400 \<and> response_errors r \<noteq> []"
    using post_tasks_rejected by blast
next
  assume "ty \<in> set (violations e createTaskSchema raw k)"
  from violations_reported[OF createTaskSchema_distinct this]
  obtain r where "validateRequest e createTaskSchema (JObj raw) = Rejected r" "res_status r = 400"
    "entry k (field_message e createTaskSchema k ty) \<in> set (response_errors r)" by blast
  then show "\<exists>r. validateRequest e createTaskSchema (JObj raw) = Rejected r \<and>
           post_tasks e s (JObj raw) = (Inr r, s) \<and> res_status r = 400 \<and>
           entry k (field_message e createTaskSchema k ty) \<in> set (response_errors r)"
    using post_tasks_rejected by blast
next
  assume a: "map_of raw ''priority'' = Some v \<and>
       (\<forall>p. v = JStr p \<longrightarrow> trim p \<notin> {''Low'', ''Medium'', ''High''})"
  then have "''any.only'' \<in> set (violations e createTaskSchema raw ''priority'')"
    using priority_violation by blast
  from violations_reported[OF createTaskSchema_distinct this]
  obtain r where r: "validateRequest e createTaskSchema (JObj raw) = Rejected r" "res_status r = 400"
    "entry ''priority'' (field_message e createTaskSchema ''priority'' ''any.only'')
       \<in> set (response_errors r)" by blast
  have m: "field_message e createTaskSchema ''priority'' ''any.only'' =
      ''Priority must be one of: Low, Medium, High''"
    by (simp add: field_message_def createTaskSchema_def)
  show "\<exists>r. validateRequest e createTaskSchema (JObj raw) = Rejected r \<and>
           post_tasks e s (JObj raw) = (Inr r, s) \<and> res_status r = 400 \<and>
           entry ''priority'' ''Priority must be one of: Low, Medium, High''
             \<in> set (response_errors r)"
    using r post_tasks_rejected[OF r(1)] unfolding m by (intro exI[of _ r] conjI)
qed

lemma violations_validate_errors:
  assumes "distinct (map fst (keys sch))" "ty \<in> set (violations e sch raw k)"
  shows "fst (validate e validateRequest_options sch (JObj raw)) \<noteq> []"
proof -
  from assms(2) obtain fs where fs: "map_of (keys sch) k = Some fs"
    and ty: "ty \<in> set (field_errors e validateRequest_options fs (map_of raw k))"
    by (cases "map_of (keys sch) k") (auto simp: violations_def)
  have "mk_detail e (messages fs) [k] k ty \<in> set (field_details e sch raw)"
    using violation_in_field_details[OF map_of_SomeD[OF fs] ty] .
  then have ne: "field_details e sch raw \<noteq> []" by auto
  then show ?thesis using validate_object_errors[OF assms(1) ne] by simp
qed

lemma trim_Urgent: "trim ''Urgent'' = ''Urgent''"
  by (simp add: trim_def is_space_def)

theorem invalid_create_is_rejected_before_the_store_witness:
  "fst (validate sample_env validateRequest_options createTaskSchema (JObj sample_bad_body)) \<noteq> []
   \<and> (\<exists>r. validateRequest sample_env createTaskSchema (JObj sample_bad_body) = Rejected r \<and>
          post_tasks sample_env [] (JObj sample_bad_body) = (Inr r, []) \<and>
          res_status r = 400 \<and> response_errors r \<noteq> [])
   \<and> ''string.min'' \<in> set (violations sample_env createTaskSchema sample_bad_body ''title'')
   \<and> (\<exists>r. validateRequest sample_env createTaskSchema (JObj sample_bad_body) = Rejected r \<and>
          post_tasks sample_env [] (JObj sample_bad_body) = (Inr r, []) \<and>
          res_status r = 400 \<and>
          entry ''title'' (field_message sample_env createTaskSchema ''title'' ''string.min'')
            \<in> set (response_errors r))
   \<and> map_of sample_bad_body ''priority'' = Some (JStr ''Urgent'')
   \<and> (\<exists>r. validateRequest sample_env createTaskSchema (JObj sample_bad_body) = Rejected r \<and>
          post_tasks sample_env [] (JObj sample_bad_body) = (Inr r, []) \<and>
          res_status r = 400 \<and>
          entry ''priority'' ''Priority must be one of: Low, Medium, High''
            \<in> set (response_errors r))"
proof -
  note main = invalid_create_is_rejected_before_the_store
      [where e = sample_env and s = "[]" and raw = sample_bad_body
         and body = "JObj sample_bad_body" and k = "''title''" and ty = "''string.min''"
         and v = "JStr ''Urgent''"]
  have h1: "fst (validate sample_env validateRequest_options createTaskSchema
      (JObj sample_bad_body)) \<noteq> []"
    using violations_validate_errors[OF createTaskSchema_distinct sample_bad_title] .
  have h3a: "map_of sample_bad_body ''priority'' = Some (JStr ''Urgent'')"
    by (simp add: sample_bad_body_def)
  have h3b: "\<forall>p. JStr ''Urgent'' = JStr p \<longrightarrow> trim p \<notin> {''Low'', ''Medium'', ''High''}"
    by (simp add: trim_Urgent)
  show ?thesis
    by (intro conjI)
       (rule h1 main[THEN conjunct1, THEN mp, OF h1] sample_bad_title
          main[THEN conjunct2, THEN conjunct1, THEN mp, OF sample_bad_title] h3a
          main[THEN conjunct2, THEN conjunct2, THEN mp, OF conjI[OF h3a h3b]])+
qed

section \<open>Validation of an update with a past deadline\<close>

lemma past_deadline_violation:
  assumes "map_of raw ''deadline'' = Some (JStr d)" "parse_iso_date e (JStr d) = Some t"
    "t < joi_now e"
  shows "''date.min'' \<in> set (violations e updateTaskSchema raw ''deadline'')"
  using assms
  by (simp add: violations_def updateTaskSchema_def field_errors_def coerce_def base_error_def
      validateRequest_options_def Let_def)

text \<open>
  C1 (as amended). An update payload whose \<^verbatim>\<open>deadline\<close> is an ISO date strictly
  earlier than validation time is rejected by the update validation, with status 400 and
  the entry of \<^verbatim>\<open>deadline\<close> with the message \<^verbatim>\<open>Deadline must be in the future\<close>: the
  update schema applies the same minimum as the create schema. Only the model's own
  deadline validator accepts every value on an update (\<^verbatim>\<open>isNew\<close> is false).
\<close>

theorem update_with_past_deadline_is_rejected:
  "(map_of raw ''deadline'' = Some (JStr d) \<and> parse_iso_date e (JStr d) = Some t \<and>
      t < joi_now e \<longrightarrow>
      (\<exists>r. validateRequest e updateTaskSchema (JObj raw) = Rejected r \<and> res_status r = 400 \<and>
           entry ''deadline'' ''Deadline must be in the future'' \<in> set (response_errors r)))
   \<and> deadline_validator False now v"
proof (intro conjI impI)
  assume "map_of raw ''deadline'' = Some (JStr d) \<and> parse_iso_date e (JStr d) = Some t \<and>
      t < joi_now e"
  then have "''date.min'' \<in> set (violations e updateTaskSchema raw ''deadline'')"
    using past_deadline_violation by blast
  from violations_reported[OF updateTaskSchema_distinct this]
  obtain r where r: "validateRequest e updateTaskSchema (JObj raw) = Rejected r"
    "res_status r = 400"
    "entry ''deadline'' (field_message e updateTaskSchema ''deadline'' ''date.min'')
       \<in> set (response_errors r)" by blast
  have m: "field_message e updateTaskSchema ''deadline'' ''date.min'' =
      ''Deadline must be in the future''"
    by (simp add: field_message_def updateTaskSchema_def)
  show "\<exists>r. validateRequest e updateTaskSchema (JObj raw) = Rejected r \<and> res_status r = 400 \<and>
           entry ''deadline'' ''Deadline must be in the future'' \<in> set (response_errors r)"
    using r unfolding m by (intro exI[of _ r] conjI)
next
  show "deadline_validator False now v" by (simp add: deadline_validator_def)
qed

lemma sample_past_update_facts:
  "map_of sample_past_update ''deadline'' = Some (JStr ''2020-01-01T00:00:00.000Z'')"
  "parse_iso_date sample_env (JStr ''2020-01-01T00:00:00.000Z'') = Some 1577836800000"
  "1577836800000 < joi_now sample_env"
  by (simp_all add: sample_past_update_def sample_env_def sample_parse_def)

theorem update_with_past_deadline_is_rejected_witness:
  "map_of sample_past_update ''deadline'' = Some (JStr ''2020-01-01T00:00:00.000Z'')
   \<and> parse_iso_date sample_env (JStr ''2020-01-01T00:00:00.000Z'') = Some 1577836800000
   \<and> 1577836800000 < joi_now sample_env
   \<and> (\<exists>r. validateRequest sample_env updateTaskSchema (JObj sample_past_update) = Rejected r \<and>
          res_status r = 400 \<and>
          entry ''deadline'' ''Deadline must be in the future'' \<in> set (response_errors r))"
  using update_with_past_deadline_is_rejected
      [where e = sample_env and raw = sample_past_update
         and d = "''2020-01-01T00:00:00.000Z''" and t = 1577836800000,
       THEN conjunct1, THEN mp, OF conjI[OF sample_past_update_facts(1)
         conjI[OF sample_past_update_facts(2,3)]]]
    sample_past_update_facts
  by (intro conjI)

lemma sample_past_update_details:
  "field_details sample_env updateTaskSchema sample_past_update =
     [Detail [''deadline''] ''date.min'' ''Deadline must be in the future'']"
  by (simp add: field_details_def updateTaskSchema_def validate_field_def field_errors_def
      sample_past_update_def coerce_def base_error_def validateRequest_options_def Let_def
      sample_env_def sample_parse_def mk_detail_def)

text \<open>
  C1 as stated fails: the update validation rejects the payload whose only field is a
  well-formed deadline of 2020, six years before validation time.
\<close>

theorem past_deadline_update_gets_400:
  "validateRequest sample_env updateTaskSchema (JObj sample_past_update) =
     Rejected
       \<lparr>res_status = 400,
        res_payload =
          JObj [(''status'', JStr ''error''), (''message'', JStr ''Validation error''),
                (''errors'',
                 JArr [JObj [(''field'', JStr ''deadline''),
                             (''message'', JStr ''Deadline must be in the future'')]])]\<rparr>"
  using validateRequest_rejected[OF updateTaskSchema_distinct,
      of sample_env sample_past_update]
  by (simp add: sample_past_update_details error_entry_def res_json_def obj_def)

section \<open>Properties of the list handler\<close>

lemma fold_delete_excluded:
  "fold AList.delete excludedFields query =
     filter (\<lambda>(k, v). k \<notin> {''page'', ''sort'', ''limit'', ''fields''}) query"
proof -
  have "fold AList.delete excludedFields query =
      AList.delete ''fields'' (AList.delete ''limit'' (AList.delete ''sort''
        (AList.delete ''page'' query)))"
    by (simp add: excludedFields_def)
  also have "\<dots> = filter (\<lambda>(k, v). k \<notin> {''page'', ''sort'', ''limit'', ''fields''}) query"
    by (induction query) (auto simp: AList.delete_eq)
  finally show ?thesis .
qed

lemma split_not_Nil: "split c s \<noteq> []"
  by (induction s) (auto split: list.splits)

lemma join_Cons_Cons: "join sep ((x # w) # ws) = x # join sep (w # ws)"
  by (cases ws) simp_all

lemma join_split_commas: "join '' '' (split CHR '','' s) = commas_to_spaces s"
proof (induction s)
  case Nil
  then show ?case by (simp add: commas_to_spaces_def)
next
  case (Cons x xs)
  obtain w ws where sp: "split CHR '','' xs = w # ws"
    using split_not_Nil[of "CHR '',''" xs] by (cases "split CHR '','' xs") auto
  show ?case
  proof (cases "x = CHR '',''")
    case True
    then show ?thesis using Cons sp by (simp add: commas_to_spaces_def)
  next
    case False
    then show ?thesis using Cons sp by (simp add: commas_to_spaces_def join_Cons_Cons)
  qed
qed

lemma sort_clause_text:
  assumes "is_text v"
  shows "(case v of None \<Rightarrow> Inr d
          | Some x \<Rightarrow> if q_truthy x then split_join tr name x else Inr d) = Inr (names_or v d)"
proof (cases v)
  case None
  then show ?thesis by (simp add: names_or_def)
next
  case (Some x)
  with assms obtain t where "x = QStr t" by (cases x) (auto simp: is_text_def)
  with Some show ?thesis by (simp add: names_or_def split_join_def join_split_commas)
qed

lemma bit_length_bound: "n < 2 ^ k \<Longrightarrow> bit_length n \<le> k"
proof (induction k arbitrary: n)
  case 0
  then show ?case by (subst bit_length.simps) simp
next
  case (Suc k)
  show ?case
  proof (cases "n = 0")
    case True
    then show ?thesis by (subst bit_length.simps) simp
  next
    case False
    have "n div 2 < 2 ^ k" using Suc.prems by auto
    from Suc.IH[OF this] show ?thesis using False by (subst bit_length.simps) simp
  qed
qed

lemma to_double_small:
  assumes "\<bar>n\<bar> < 9007199254740992"
  shows "to_double n = Finite n"
proof -
  have a: "nat \<bar>n\<bar> < 2 ^ 53" using assms by simp
  have b: "bit_length (nat \<bar>n\<bar>) \<le> 53" using bit_length_bound[OF a] .
  then have k: "bit_length (nat \<bar>n\<bar>) - 53 = 0" by simp
  have big: "\<not> 1024 < bit_length (nat \<bar>n\<bar>)" using b by simp
  show ?thesis unfolding to_double_def Let_def k using big by simp
qed

lemma bit_length_2_53: "bit_length 9007199254740992 = 54"
  by (simp add: bit_length.simps)

lemma to_double_2_53:
  "to_double 9007199254740992 = Finite 9007199254740992"
  "to_double (- 9007199254740992) = Finite (- 9007199254740992)"
  by (simp_all add: to_double_def bit_length_2_53 Let_def)

lemma to_double_exact:
  assumes "\<bar>n\<bar> \<le> 9007199254740992"
  shows "to_double n = Finite n"
proof -
  from assms consider "\<bar>n\<bar> < 9007199254740992" | "n = 9007199254740992"
    | "n = - 9007199254740992" by linarith
  then show ?thesis
  proof cases
    case 1
    then show ?thesis by (rule to_double_small)
  next
    case 2
    then show ?thesis by (simp add: to_double_2_53)
  next
    case 3
    then show ?thesis by (simp add: to_double_2_53)
  qed
qed

lemma safe_integer_exact: "safe_integer n \<Longrightarrow> to_double n = Finite n"
  by (rule to_double_exact) (simp add: safe_integer_def)

lemma parseInt_integer_of:
  "parseInt v = (case integer_of v of None \<Rightarrow> NotANumber | Some n \<Rightarrow> to_double n)"
  by (simp add: parseInt_def integer_of_def parseInt_string_def split: option.splits)

lemma parseInt_or_safe:
  assumes "safe_integer (integer_or v d)"
  shows "parseInt_or v d = Finite (integer_or v d)"
proof (cases "integer_of v")
  case None
  then show ?thesis by (simp add: parseInt_or_def parseInt_integer_of integer_or_def)
next
  case (Some n)
  show ?thesis
  proof (cases "n = 0")
    case True
    have "to_double 0 = Finite 0" by (rule to_double_small) simp
    then show ?thesis
      using Some True by (simp add: parseInt_or_def parseInt_integer_of integer_or_def)
  next
    case False
    then have "safe_integer n" using assms Some by (simp add: integer_or_def)
    then have "to_double n = Finite n" by (rule safe_integer_exact)
    then show ?thesis
      using Some False by (simp add: parseInt_or_def parseInt_integer_of integer_or_def)
  qed
qed

lemma skip_safe:
  assumes "safe_integer p" "safe_integer ((p - 1) * l)"
  shows "number_times (number_minus_one (Finite p)) (Finite l) = Finite ((p - 1) * l)"
proof -
  have "\<bar>p - 1\<bar> \<le> 9007199254740992" using assms(1) by (simp add: safe_integer_def)
  then have "to_double (p - 1) = Finite (p - 1)" by (rule to_double_exact)
  then show ?thesis
    using safe_integer_exact[OF assms(2)] by (simp add: number_minus_one_def number_times_def)
qed

lemma decimal_digit:
  assumes "m < 10"
  shows "is_digit (''0123456789'' ! m) \<and> of_char (''0123456789'' ! m) - (48::nat) = m"
proof -
  from assms have "m \<in> {0, 1, 2, 3, 4, 5, 6, 7, 8, 9}" by auto
  then show ?thesis by (auto simp: is_digit_def)
qed

lemma digit_char_value:
  "is_digit (digit_char d)" "of_char (digit_char d) - (48::nat) = d mod 10"
  using decimal_digit[of "d mod 10"] by (simp_all add: digit_char_def)

lemma digits_value_snoc:
  "digits_value (ds @ [c]) = 10 * digits_value ds + (of_char c - 48)"
  by (simp add: digits_value_def)

lemma string_of_nat_digits:
  "list_all is_digit (string_of_nat n) \<and> string_of_nat n \<noteq> [] \<and>
   digits_value (string_of_nat n) = n"
proof (induction n rule: string_of_nat.induct)
  case (1 n)
  show ?case
  proof (cases "n < 10")
    case True
    then have s: "string_of_nat n = [digit_char n]" by (subst string_of_nat.simps) simp
    show ?thesis
      using True by (simp add: s digit_char_value digits_value_def)
  next
    case False
    then have s: "string_of_nat n = string_of_nat (n div 10) @ [digit_char (n mod 10)]"
      by (subst string_of_nat.simps) simp
    from 1[OF False] show ?thesis
      by (simp add: s digit_char_value digits_value_snoc)
  qed
qed

lemma digit_not_space: "is_digit c \<Longrightarrow> \<not> is_space c"
  by (auto simp: is_digit_def is_space_def)

lemma digit_not_sign: "is_digit c \<Longrightarrow> c \<noteq> CHR ''-'' \<and> c \<noteq> CHR ''+''"
  by (auto simp: is_digit_def)

lemma mathInt_string_of_nat: "mathInt (string_of_nat n) = Some (int n)"
proof -
  from string_of_nat_digits[of n]
  have all: "list_all is_digit (string_of_nat n)" and ne: "string_of_nat n \<noteq> []"
    and v: "digits_value (string_of_nat n) = n" by simp_all
  obtain c r where s: "string_of_nat n = c # r" using ne by (cases "string_of_nat n") auto
  have c: "is_digit c" using all s by simp
  have tw: "takeWhile is_digit (c # r) = c # r"
    using all s by (simp add: list_all_iff)
  have dv: "digits_value (c # r) = n" using v s by simp
  show ?thesis
    unfolding s mathInt_def
    using digit_not_space[OF c] digit_not_sign[OF c] tw dv by (simp add: Let_def)
qed

lemma integer_or_string_of_nat:
  "0 < n \<Longrightarrow> integer_or (Some (QStr (string_of_nat n))) d = int n"
  by (simp add: integer_or_def integer_of_def mathInt_string_of_nat)

lemma integer_of_None: "integer_of None = None"
  by (simp add: integer_of_def)

lemma integer_or_None: "integer_or None d = d"
  by (simp add: integer_or_def integer_of_None)

text \<open>
  C4 (as amended). For every query mapping whose \<^verbatim>\<open>sort\<close> and \<^verbatim>\<open>fields\<close> values,
  when given, are strings, and whose page, limit and skip are safe integers, the query
  handed to the repository has: as filter the mapping without the keys \<^verbatim>\<open>page\<close>,
  \<^verbatim>\<open>sort\<close>, \<^verbatim>\<open>limit\<close>, \<^verbatim>\<open>fields\<close>; as sort the names of the comma-separated
  \<^verbatim>\<open>sort\<close> value when it is given and not empty, else \<^verbatim>\<open>deadline\<close>; as projection
  the names of \<^verbatim>\<open>fields\<close> when given and not empty, else all but the version marker; as
  page and limit the integers that the parameters denote when these are not zero, else 1
  and 10; and as skip \<open>(page - 1) * limit\<close>. A page \<open>p\<close> and a limit \<open>l\<close> written as
  decimal numerals give the limit \<open>l\<close> and the skip \<open>(p - 1) * l\<close>; without the two
  parameters the limit is 10 and the skip 0.
\<close>

theorem list_query_construction:
  "(is_text (map_of query ''sort'') \<and> is_text (map_of query ''fields'') \<and>
    safe_pagination query \<longrightarrow>
     getAllTasks_query e query = Inr (amended_query query)
     \<and> q_filter (amended_query query) =
         filter (\<lambda>(k, v). k \<notin> {''page'', ''sort'', ''limit'', ''fields''}) query)
   \<and> (0 < p \<and> 0 < l \<and>
       map_of query ''page'' = Some (QStr (string_of_nat p)) \<and>
       map_of query ''limit'' = Some (QStr (string_of_nat l)) \<longrightarrow>
       q_limit (amended_query query) = Finite (int l) \<and>
       q_skip (amended_query query) = Finite ((int p - 1) * int l))
   \<and> (map_of query ''page'' = None \<and> map_of query ''limit'' = None \<longrightarrow>
       q_limit (amended_query query) = Finite 10 \<and> q_skip (amended_query query) = Finite 0)"
proof (intro impI conjI)
  assume a: "is_text (map_of query ''sort'') \<and> is_text (map_of query ''fields'') \<and>
    safe_pagination query"
  have sp: "safe_integer (integer_or (map_of query ''page'') 1)"
    and sl: "safe_integer (integer_or (map_of query ''limit'') 10)"
    and ss: "safe_integer ((integer_or (map_of query ''page'') 1 - 1) *
                    integer_or (map_of query ''limit'') 10)"
    using a by (simp_all add: safe_pagination_def)
  show "getAllTasks_query e query = Inr (amended_query query)"
    using a
    by (simp add: getAllTasks_query_def amended_query_def sort_clause_text
        fold_delete_excluded Let_def parseInt_or_safe[OF sp] parseInt_or_safe[OF sl]
        skip_safe[OF sp ss])
  show "q_filter (amended_query query) =
         filter (\<lambda>(k, v). k \<notin> {''page'', ''sort'', ''limit'', ''fields''}) query"
    by (simp add: amended_query_def)
next
  assume b: "0 < p \<and> 0 < l \<and>
       map_of query ''page'' = Some (QStr (string_of_nat p)) \<and>
       map_of query ''limit'' = Some (QStr (string_of_nat l))"
  show "q_limit (amended_query query) = Finite (int l)"
    using b by (simp add: amended_query_def integer_or_string_of_nat)
  show "q_skip (amended_query query) = Finite ((int p - 1) * int l)"
    using b by (simp add: amended_query_def integer_or_string_of_nat)
next
  assume c: "map_of query ''page'' = None \<and> map_of query ''limit'' = None"
  show "q_limit (amended_query query) = Finite 10"
    using c by (simp add: amended_query_def integer_or_None)
  show "q_skip (amended_query query) = Finite 0"
    using c by (simp add: amended_query_def integer_or_None)
qed

lemma string_of_nat_2: "string_of_nat 2 = ''2''"
  by (subst string_of_nat.simps) (simp add: digit_char_def)

lemma string_of_nat_5: "string_of_nat 5 = ''5''"
  by (subst string_of_nat.simps) (simp add: digit_char_def)

lemma parseInt_None: "parseInt None = NotANumber"
  by (simp add: parseInt_def)

lemma integer_of_0: "integer_of (Some (QStr ''0'')) = Some 0"
  by (simp add: integer_of_def mathInt_def is_space_def is_digit_def digits_value_def Let_def)

lemma parseInt_or_None: "parseInt_or None d = Finite d"
  by (simp add: parseInt_or_def parseInt_None)

lemma parseInt_or_0: "parseInt_or (Some (QStr ''0'')) d = Finite d"
proof -
  have "to_double 0 = Finite 0" by (rule to_double_small) simp
  then show ?thesis by (simp add: parseInt_or_def parseInt_integer_of integer_of_0)
qed

lemma default_skip: "number_times (number_minus_one (Finite 1)) (Finite 10) = Finite 0"
  using skip_safe[of 1 10] by (simp add: safe_integer_def)

theorem list_query_construction_witness:
  "is_text (map_of [(''category'', QStr ''Work''), (''sort'', QStr ''-deadline,title''),
                    (''page'', QStr ''2''), (''limit'', QStr ''5'')] ''sort'')
   \<and> is_text (map_of [(''category'', QStr ''Work''), (''sort'', QStr ''-deadline,title''),
                    (''page'', QStr ''2''), (''limit'', QStr ''5'')] ''fields'')
   \<and> safe_pagination [(''category'', QStr ''Work''), (''sort'', QStr ''-deadline,title''),
                    (''page'', QStr ''2''), (''limit'', QStr ''5'')]
   \<and> (0::nat) < 2 \<and> (0::nat) < 5
   \<and> getAllTasks_query sample_env
        [(''category'', QStr ''Work''), (''sort'', QStr ''-deadline,title''),
         (''page'', QStr ''2''), (''limit'', QStr ''5'')] =
       Inr \<lparr>q_filter = [(''category'', QStr ''Work'')], q_sort = ''-deadline title'',
            q_select = ''-__v'', q_skip = Finite 5, q_limit = Finite 5\<rparr>
   \<and> map_of [(''sort'', QStr ''title'')] ''page'' = None
   \<and> q_limit (amended_query [(''sort'', QStr ''title'')]) = Finite 10
   \<and> q_skip (amended_query [(''sort'', QStr ''title'')]) = Finite 0"
proof -
  let ?q = "[(''category'', QStr ''Work''), (''sort'', QStr ''-deadline,title''),
             (''page'', QStr ''2''), (''limit'', QStr ''5'')]"
  note main = list_query_construction
    [where e = sample_env and query = ?q and p = 2 and l = 5]
  note dflt = list_query_construction
    [where query = "[(''sort'', QStr ''title'')]"]
  have t: "is_text (map_of ?q ''sort'')" "is_text (map_of ?q ''fields'')"
    by (simp_all add: is_text_def)
  have pg: "map_of ?q ''page'' = Some (QStr (string_of_nat 2))"
    and lm: "map_of ?q ''limit'' = Some (QStr (string_of_nat 5))"
    by (simp_all add: string_of_nat_2 string_of_nat_5)
  have io: "integer_or (map_of ?q ''page'') 1 = 2" "integer_or (map_of ?q ''limit'') 10 = 5"
    unfolding pg lm by (simp_all add: integer_or_string_of_nat)
  have sp: "safe_pagination ?q"
    unfolding safe_pagination_def io by (simp add: safe_integer_def)
  have lim: "q_limit (amended_query ?q) = Finite 5" and sk: "q_skip (amended_query ?q) = Finite 5"
    using main[THEN conjunct2, THEN conjunct1] pg lm by simp_all
  have am: "amended_query ?q =
      \<lparr>q_filter = [(''category'', QStr ''Work'')], q_sort = ''-deadline title'',
       q_select = ''-__v'', q_skip = Finite 5, q_limit = Finite 5\<rparr>"
    using lim sk
    by (simp add: amended_query_def names_or_def commas_to_spaces_def)
  have g: "getAllTasks_query sample_env ?q =
       Inr \<lparr>q_filter = [(''category'', QStr ''Work'')], q_sort = ''-deadline title'',
            q_select = ''-__v'', q_skip = Finite 5, q_limit = Finite 5\<rparr>"
    using main[THEN conjunct1] t sp unfolding am by simp
  have d: "q_limit (amended_query [(''sort'', QStr ''title'')]) = Finite 10"
      "q_skip (amended_query [(''sort'', QStr ''title'')]) = Finite 0"
    using dflt[THEN conjunct2, THEN conjunct2] by simp_all
  show ?thesis
    using t sp g d by simp
qed

text \<open>
  C4 as stated fails: for \<^verbatim>\<open>?limit=0\<close> the specification's construction has the
  limit 0, and the handler hands the limit 10 to the repository.
\<close>

theorem limit_zero_becomes_ten:
  "getAllTasks_query sample_env [(''limit'', QStr ''0'')] =
     Inr \<lparr>q_filter = [], q_sort = ''deadline'', q_select = ''-__v'', q_skip = Finite 0,
          q_limit = Finite 10\<rparr>
   \<and> spec_query [(''limit'', QStr ''0'')] =
     \<lparr>q_filter = [], q_sort = ''deadline'', q_select = ''-__v'', q_skip = Finite 0,
      q_limit = Finite 0\<rparr>
   \<and> getAllTasks_query sample_env [(''limit'', QStr ''0'')] \<noteq>
       Inr (spec_query [(''limit'', QStr ''0'')])"
proof -
  have a: "getAllTasks_query sample_env [(''limit'', QStr ''0'')] =
     Inr \<lparr>q_filter = [], q_sort = ''deadline'', q_select = ''-__v'', q_skip = Finite 0,
          q_limit = Finite 10\<rparr>"
    by (simp add: getAllTasks_query_def excludedFields_def AList.delete_eq parseInt_or_0
        parseInt_or_None default_skip Let_def)
  have b: "spec_query [(''limit'', QStr ''0'')] =
     \<lparr>q_filter = [], q_sort = ''deadline'', q_select = ''-__v'', q_skip = Finite 0,
      q_limit = Finite 0\<rparr>"
    by (simp add: spec_query_def spec_number_def integer_of_0 integer_of_None)
  show ?thesis unfolding a b by simp
qed

text \<open>A repeated \<^verbatim>\<open>sort\<close> parameter is an array, which has no \<^verbatim>\<open>split\<close>: the handler
  throws, and the request is answered by the error handler.\<close>

lemma repeated_sort_parameter_throws:
  "getAllTasks_query e [(''sort'', QArr [QStr ''title'', QStr ''priority''])] =
     Inl (new_error TypeError ''req.query.sort.split is not a function'' (trace e))"
  by (simp add: getAllTasks_query_def split_join_def)

text \<open>A limit above the safe integers reaches the repository rounded to a number.\<close>

lemma bit_length_2_53_1: "bit_length 9007199254740993 = 54"
  by (simp add: bit_length.simps)

lemma large_limit_is_rounded:
  "getAllTasks_query e [(''limit'', QStr ''9007199254740993'')] =
     Inr \<lparr>q_filter = [], q_sort = ''deadline'', q_select = ''-__v'', q_skip = Finite 0,
          q_limit = Finite 9007199254740992\<rparr>"
proof -
  have m: "mathInt ''9007199254740993'' = Some 9007199254740993"
    by (simp add: mathInt_def is_space_def is_digit_def digits_value_def Let_def)
  have r: "to_double 9007199254740993 = Finite 9007199254740992"
    by (simp add: to_double_def bit_length_2_53_1 bit_length_2_53 Let_def)
  have l: "parseInt_or (Some (QStr ''9007199254740993'')) 10 = Finite 9007199254740992"
    by (simp add: parseInt_or_def parseInt_def parseInt_string_def m r)
  have z: "to_double 0 = Finite 0" by (rule to_double_small) simp
  show ?thesis
    by (simp add: getAllTasks_query_def excludedFields_def AList.delete_eq l parseInt_or_None
        number_minus_one_def number_times_def z Let_def)
qed

lemma empty_query_plan:
  "getAllTasks_query e [] =
     Inr \<lparr>q_filter = [], q_sort = ''deadline'', q_select = ''-__v'', q_skip = Finite 0, q_limit = Finite 10\<rparr>"
  by (simp add: getAllTasks_query_def excludedFields_def parseInt_or_None default_skip Let_def)

lemma words_deadline: "words ''deadline'' = [''deadline'']"
  by (simp add: is_space_def)

lemma words_minus_version: "words ''-__v'' = [''-__v'']"
  by (simp add: is_space_def)

lemma apply_sort_deadline:
  "apply_sort ''deadline'' ds = sort_key (\<lambda>d. sort_value (map_of d ''deadline'')) ds"
  unfolding apply_sort_def words_deadline by (simp add: signed_name_def sort_step_def)

lemma apply_select_minus_version:
  "apply_select ''-__v'' d = Some (filter (\<lambda>(k, v). k \<noteq> ''__v'') d)"
  unfolding apply_select_def words_minus_version by (simp add: signed_name_def)

lemma matches_empty: "filter (matches []) s = s"
  by (simp add: matches_def)

lemma Task_find_default:
  "Task_find e s
     \<lparr>q_filter = [], q_sort = ''deadline'', q_select = ''-__v'', q_skip = Finite 0, q_limit = Finite 10\<rparr> =
   Inr (map without_version (take 10 (sort_key (\<lambda>d. sort_value (map_of d ''deadline'')) s)))"
  by (simp add: Task_find_def matches_empty apply_sort_deadline apply_limit_def
      apply_select_minus_version without_version_def list_all_iff)

lemma get_tasks_default:
  "get_tasks e s [] =
     Inr (res_json 200
       (obj [(''status'', Some (JStr ''success'')),
             (''results'', Some (JNum (int (min 10 (length s))))),
             (''data'', Some (obj [(''tasks'', Some (JArr
                (map without_version
                  (take 10 (sort_key (\<lambda>d. sort_value (map_of d ''deadline'')) s)))))]))]))"
  by (simp add: get_tasks_def getAllTasks_def empty_query_plan Task_find_default respond_def
      min_def)

lemma listed_default:
  "listed e s [] =
     map without_version (take 10 (sort_key (\<lambda>d. sort_value (map_of d ''deadline'')) s))"
  by (simp add: listed_def get_tasks_default response_tasks_def res_json_def obj_def)

lemma deadline_key_without_version:
  "deadline_key (without_version d) = sort_value (map_of d ''deadline'')"
  by (simp add: deadline_key_def without_version_def task_field_def map_of_filter_keys)

text \<open>
  C2 (as amended). For every store, a list request with no query parameters returns the
  first ten records, at most, in ascending order of \<^verbatim>\<open>deadline\<close>, each without its
  version marker: the result count is the smaller of 10 and the store's record count, and
  the result is every record when the store has at most ten.
\<close>

theorem unfiltered_list_is_first_ten_by_deadline:
  "listed e s [] =
     map without_version (take 10 (sort_key (\<lambda>d. sort_value (map_of d ''deadline'')) s))
   \<and> length (listed e s []) = min 10 (length s)
   \<and> sorted (map deadline_key (listed e s []))
   \<and> (length s \<le> 10 \<longrightarrow> mset (listed e s []) = mset (map without_version s))
   \<and> (\<exists>r. get_tasks e s [] = Inr r \<and> res_status r = 200 \<and>
          response_tasks r = listed e s [])"
proof (intro conjI impI)
  let ?f = "\<lambda>d. sort_value (map_of d ''deadline'')"
  show l: "listed e s [] = map without_version (take 10 (sort_key ?f s))"
    by (rule listed_default)
  show "length (listed e s []) = min 10 (length s)"
    by (simp add: l min_def)
  have "map deadline_key (listed e s []) = take 10 (map ?f (sort_key ?f s))"
    by (simp add: l take_map deadline_key_without_version comp_def)
  moreover have "sorted (take 10 (map ?f (sort_key ?f s)))"
    by (intro sorted_wrt_take sorted_sort_key)
  ultimately show "sorted (map deadline_key (listed e s []))" by simp
  show "\<exists>r. get_tasks e s [] = Inr r \<and> res_status r = 200 \<and> response_tasks r = listed e s []"
    by (simp add: get_tasks_default listed_def res_json_sel)
next
  assume "length s \<le> 10"
  then have "take 10 (sort_key (\<lambda>d. sort_value (map_of d ''deadline'')) s) =
      sort_key (\<lambda>d. sort_value (map_of d ''deadline'')) s"
    by simp
  then show "mset (listed e s []) = mset (map without_version s)"
    by (simp add: listed_default)
qed

lemma length_sample_store: "length sample_store = 11"
  by (simp add: sample_store_def)

theorem unfiltered_list_is_first_ten_by_deadline_witness:
  "length [sample_task 0, sample_task 1] \<le> 10
   \<and> mset (listed sample_env [sample_task 0, sample_task 1] []) =
       mset (map without_version [sample_task 0, sample_task 1])
   \<and> length (listed sample_env [sample_task 0, sample_task 1] []) = 2"
  using unfiltered_list_is_first_ten_by_deadline
    [where e = sample_env and s = "[sample_task 0, sample_task 1]"]
  by simp

text \<open>
  C2 as stated fails: of the eleven records of the sample store, a list request with no
  query parameters returns ten.
\<close>

theorem eleven_records_ten_listed:
  "length sample_store = 11 \<and> length (listed sample_env sample_store []) = 10"
  by (simp add: listed_default length_sample_store)

section \<open>Properties of create followed by get-by-id\<close>

lemma trim_idem: "trim (trim s) = trim s"
proof -
  define u where "u = dropWhile is_space s"
  define w where "w = dropWhile is_space (rev u)"
  have t: "trim s = rev w" by (simp add: trim_def u_def w_def)
  have ww: "dropWhile is_space w = w" by (simp add: w_def)
  have "dropWhile is_space (rev w) = rev w"
  proof (cases "w = []")
    case True
    then show ?thesis by simp
  next
    case False
    have "rev u = takeWhile is_space (rev u) @ w" by (simp add: w_def)
    then have "last (rev u) = last w" using False by (metis last_appendR)
    moreover have "u \<noteq> []" using False by (auto simp: w_def)
    ultimately have "last w = hd u" by (simp add: last_rev)
    moreover have "\<not> is_space (hd u)"
      using \<open>u \<noteq> []\<close> unfolding u_def by (rule hd_dropWhile)
    ultimately have "\<not> is_space (hd (rev w))" using False by (simp add: hd_rev)
    then show ?thesis by (cases "rev w") simp_all
  qed
  then have "trim (rev w) = rev w" unfolding trim_def using ww by simp
  then show ?thesis by (simp add: t)
qed

lemma no_errors_well_typed:
  assumes "field_errors e validateRequest_options fs (Some x) = []"
    and "set (valids fs) \<subseteq> range JStr"
    and "base fs = StringType \<longrightarrow> Trim \<in> set (rules fs)"
    and "base fs \<noteq> StringType \<longrightarrow> valids fs = []"
  shows "case base fs of
           StringType \<Rightarrow> (\<exists>s. x = JStr s \<and> coerce e fs x = JStr (trim s))
         | DateType \<Rightarrow> (\<exists>t. coerce e fs x = JDate t)
         | BooleanType \<Rightarrow> (\<exists>b. coerce e fs x = JBool b)"
proof (cases "base fs")
  case StringType
  show ?thesis
  proof (cases x)
    case (JStr s)
    then show ?thesis using StringType assms(3) by (simp add: coerce_def)
  qed (use assms StringType in
        \<open>auto simp: field_errors_def coerce_def base_error_def Let_def split: if_splits\<close>)
next
  case DateType
  then have v: "valids fs = []" using assms(4) by simp
  from assms(1) have "base_error fs (coerce e fs x) = None"
    by (auto simp: field_errors_def Let_def v split: if_splits option.splits)
  then show ?thesis using DateType
    by (cases "coerce e fs x") (auto simp: base_error_def split: if_splits)
next
  case BooleanType
  then have v: "valids fs = []" using assms(4) by simp
  from assms(1) have "base_error fs (coerce e fs x) = None"
    by (auto simp: field_errors_def Let_def v split: if_splits option.splits)
  then show ?thesis using BooleanType
    by (cases "coerce e fs x") (auto simp: base_error_def split: if_splits)
qed

text \<open>A value that the validation middleware forwards is stored as it is.\<close>

lemma cast_path_sanitized:
  assumes "case p_type ps of
             StringType \<Rightarrow> (\<exists>s. y = JStr (trim s))
           | DateType \<Rightarrow> (\<exists>t. y = JDate t)
           | BooleanType \<Rightarrow> (\<exists>b. y = JBool b)"
  shows "cast_path e ps y = Some y"
  using assms
  by (cases "p_type ps") (auto simp: cast_path_def apply_trim_def trim_idem)

lemma new_fields_lookup:
  "map_of (new_fields e kvs) k =
     (case map_of taskSchema k of
        None \<Rightarrow> None
      | Some ps \<Rightarrow> (case new_path e kvs (k, ps) of Inr (Some v) \<Rightarrow> Some v | _ \<Rightarrow> None))"
proof -
  have gen: "distinct (map fst ks) \<Longrightarrow>
    map_of (concat (map (\<lambda>kp. case new_path e kvs kp of Inr (Some v) \<Rightarrow> [(fst kp, v)] | _ \<Rightarrow> []) ks)) k =
     (case map_of ks k of
        None \<Rightarrow> None
      | Some ps \<Rightarrow> (case new_path e kvs (k, ps) of Inr (Some v) \<Rightarrow> Some v | _ \<Rightarrow> None))"
    for ks
  proof (induction ks)
    case Nil
    then show ?case by simp
  next
    case (Cons kp ks)
    obtain k' ps' where kp: "kp = (k', ps')" by (cases kp)
    have d: "distinct (map fst ks)" and nk: "k' \<notin> fst ` set ks" using Cons.prems kp by auto
    have none: "map_of ks k' = None" using nk by (simp add: map_of_eq_None_iff)
    show ?case
      using Cons.IH[OF d] none
      by (auto simp: kp map_add_def split: sum.splits option.splits)
  qed
  have "distinct (map fst taskSchema)" by (simp add: taskSchema_def)
  from gen[OF this] show ?thesis by (simp add: new_fields_def)
qed

lemma set_validation_order: "set (validation_order e kvs) = set taskSchema"
  by (auto simp: validation_order_def)

lemma new_errors_Nil_iff:
  "new_errors e kvs = [] \<longleftrightarrow>
     (\<forall>kp \<in> set taskSchema.
        (case new_path e kvs kp of Inl m \<Rightarrow> [(fst kp, m)] | Inr v \<Rightarrow> []) = [])"
  by (simp add: new_errors_def set_validation_order)

lemma new_errors_Nil_path:
  assumes "new_errors e kvs = []" "map_of taskSchema k = Some ps"
  shows "\<exists>v. new_path e kvs (k, ps) = Inr v"
proof -
  have mem: "(k, ps) \<in> set taskSchema" using assms(2) by (rule map_of_SomeD)
  have all: "\<forall>kp \<in> set taskSchema.
      (case new_path e kvs kp of Inl m \<Rightarrow> [(fst kp, m)] | Inr v \<Rightarrow> []) = []"
    using assms(1) by (simp add: new_errors_Nil_iff)
  from bspec[OF all mem] show ?thesis
    by (cases "new_path e kvs (k, ps)") simp_all
qed

lemma no_errors_typed:
  assumes "field_errors e validateRequest_options fs (Some x) = []"
    and "set (valids fs) \<subseteq> range JStr"
    and "base fs = StringType \<longrightarrow> Trim \<in> set (rules fs)"
    and "base fs \<noteq> StringType \<longrightarrow> valids fs = []"
  shows "typed_value (base fs) (coerce e fs x)"
  using no_errors_well_typed[OF assms]
  by (cases "base fs") (auto simp: typed_value_def trim_idem)

lemma cast_path_typed:
  assumes "typed_value (p_type ps) y"
  shows "cast_path e ps y = Some y"
  using assms
  by (cases "p_type ps"; cases y)
     (auto simp: typed_value_def cast_path_def apply_trim_def)

lemma new_path_sanitized:
  assumes "field_errors e validateRequest_options fs item = []"
    and "set (valids fs) \<subseteq> range JStr"
    and "base fs = StringType \<longrightarrow> Trim \<in> set (rules fs)"
    and "base fs \<noteq> StringType \<longrightarrow> valids fs = []"
    and "\<forall>d. default_value fs = Some d \<longrightarrow> typed_value (base fs) d"
    and "p_type ps = base fs" and "p_default ps = default_value fs"
    and "map_of v k = field_value e fs item"
    and "new_path e v (k, ps) = Inr res"
  shows "res = map_of v k"
proof (cases "map_of v k")
  case None
  then have "field_value e fs item = None" using assms(8) by simp
  then have "default_value fs = None"
    by (cases item) (simp_all add: field_value_def)
  then have "p_default ps = None" using assms(7) by simp
  then show ?thesis
    using assms(9) None by (auto simp: new_path_def split: option.splits sum.splits)
next
  case (Some y)
  have "typed_value (base fs) y"
  proof (cases item)
    case None
    then show ?thesis using assms(5,8) Some by (simp add: field_value_def)
  next
    case (Some x)
    then have "y = coerce e fs x" using assms(8) \<open>map_of v k = Some y\<close>
      by (simp add: field_value_def)
    then show ?thesis using no_errors_typed[OF assms(1)[unfolded Some] assms(2,3,4)] by simp
  qed
  then have "cast_path e ps y = Some y" using assms(6) by (simp add: cast_path_typed)
  then show ?thesis
    using assms(9) Some by (auto simp: new_path_def split: option.splits sum.splits)
qed

lemma JStr_in_range: "JStr s \<in> range JStr"
  by simp

lemma schema_correspondence:
  assumes "map_of (keys createTaskSchema) k = Some fs"
  shows "\<exists>ps. map_of taskSchema k = Some ps \<and> p_type ps = base fs \<and>
     p_default ps = default_value fs \<and> set (valids fs) \<subseteq> range JStr \<and>
     (base fs = StringType \<longrightarrow> Trim \<in> set (rules fs)) \<and>
     (base fs \<noteq> StringType \<longrightarrow> valids fs = []) \<and>
     (\<forall>d. default_value fs = Some d \<longrightarrow> typed_value (base fs) d)"
proof -
  have "(k, fs) \<in> set (keys createTaskSchema)" using assms by (rule map_of_SomeD)
  then have "k \<in> set (map fst (keys createTaskSchema))" by force
  then have "k = ''title'' \<or> k = ''description'' \<or> k = ''category'' \<or> k = ''priority'' \<or>
      k = ''deadline'' \<or> k = ''completed''"
    by (simp add: createTaskSchema_def)
  then show ?thesis
  proof (elim disjE)
    assume "k = ''title''"
    then have "fs = the (map_of (keys createTaskSchema) ''title'')" using assms by simp
    then show ?thesis using \<open>k = ''title''\<close>
      by (simp add: createTaskSchema_def taskSchema_def typed_value_def)
  next
    assume "k = ''description''"
    then have "fs = the (map_of (keys createTaskSchema) ''description'')" using assms by simp
    then show ?thesis using \<open>k = ''description''\<close>
      by (simp add: createTaskSchema_def taskSchema_def typed_value_def)
  next
    assume "k = ''category''"
    then have "fs = the (map_of (keys createTaskSchema) ''category'')" using assms by simp
    then show ?thesis using \<open>k = ''category''\<close>
      by (simp add: createTaskSchema_def taskSchema_def typed_value_def)
  next
    assume "k = ''priority''"
    then have "fs = the (map_of (keys createTaskSchema) ''priority'')" using assms by simp
    then show ?thesis using \<open>k = ''priority''\<close>
      by (simp add: createTaskSchema_def taskSchema_def typed_value_def)
  next
    assume "k = ''deadline''"
    then have "fs = the (map_of (keys createTaskSchema) ''deadline'')" using assms by simp
    then show ?thesis using \<open>k = ''deadline''\<close>
      by (simp add: createTaskSchema_def taskSchema_def typed_value_def)
  next
    assume "k = ''completed''"
    then have "fs = the (map_of (keys createTaskSchema) ''completed'')" using assms by simp
    then show ?thesis using \<open>k = ''completed''\<close>
      by (simp add: createTaskSchema_def taskSchema_def typed_value_def)
  qed
qed

lemma taskSchema_keys:
  "map_of taskSchema k \<noteq> None \<longleftrightarrow> map_of (keys createTaskSchema) k \<noteq> None"
  by (simp add: taskSchema_def createTaskSchema_def)

lemma stored_field:
  assumes "violations e createTaskSchema raw k = []"
    and "map_of (keys createTaskSchema) k = Some fs"
    and "map_of v k = field_value e fs (map_of raw k)"
    and "new_errors e v = []"
  shows "map_of (new_fields e v) k = map_of v k"
proof -
  from schema_correspondence[OF assms(2)] obtain ps where ps: "map_of taskSchema k = Some ps"
    and c: "p_type ps = base fs" "p_default ps = default_value fs"
      "set (valids fs) \<subseteq> range JStr" "base fs = StringType \<longrightarrow> Trim \<in> set (rules fs)"
      "base fs \<noteq> StringType \<longrightarrow> valids fs = []"
      "\<forall>d. default_value fs = Some d \<longrightarrow> typed_value (base fs) d"
    by blast
  from new_errors_Nil_path[OF assms(4) ps] obtain res where res: "new_path e v (k, ps) = Inr res"
    by blast
  have fe: "field_errors e validateRequest_options fs (map_of raw k) = []"
    using assms(1,2) by (simp add: violations_def)
  have eq: "res = map_of v k"
    using new_path_sanitized[OF fe c(3,4,5,6) c(1,2) assms(3) res] .
  have "map_of (new_fields e v) k =
      (case new_path e v (k, ps) of Inr (Some x) \<Rightarrow> Some x | _ \<Rightarrow> None)"
    using ps by (simp add: new_fields_lookup)
  also have "\<dots> = res" unfolding res by (cases res) simp_all
  finally show ?thesis using eq by simp
qed

lemma errorHandler_translated_400:
  assumes "cls err = ValidationError \<or> code err = Some 11000"
    and "\<not> isOperational err" "\<not> invalid_json err" "errorHandler e err = Inr r"
  shows "res_status r = 400"
proof -
  from assms obtain error where t: "translate (trace e) err = Inr error"
    and r: "handleError e error = Inr r"
    by (auto simp: errorHandler_def split: sum.splits)
  have "statusCode error = Some 400" using translate_400[OF _ t] assms(1) by blast
  then show ?thesis using handleError_status[OF r] by simp
qed

lemma store_error_fields:
  "cls (validation_error es tr) = ValidationError"
  "\<not> isOperational (validation_error es tr)"
  "\<not> invalid_json (validation_error es tr)"
  "code (duplicate_key_error i tr) = Some 11000"
  "\<not> isOperational (duplicate_key_error i tr)"
  "\<not> invalid_json (duplicate_key_error i tr)"
  by (simp_all add: validation_error_def duplicate_key_error_def new_error_def invalid_json_def)

lemma Task_create_cases:
  "Task_create e s (JObj v) =
     (if new_errors e v \<noteq> [] then (Inl (validation_error (new_errors e v) (trace e)), s)
      else if list_ex (has_id (new_id e)) s
      then (Inl (duplicate_key_error (new_id e) (trace e)), s)
      else (Inr (JObj (new_fields e v @
                   [(''_id'', JStr (new_id e)),
                    (''createdAt'', JDate (stamp_now e)),
                    (''updatedAt'', JDate (stamp_now e)),
                    (''__v'', JNum 0)])),
            s @ [new_fields e v @
                   [(''_id'', JStr (new_id e)),
                    (''createdAt'', JDate (stamp_now e)),
                    (''updatedAt'', JDate (stamp_now e)),
                    (''__v'', JNum 0)]]))"
  by (simp add: Task_create_def Let_def)

lemma created_201:
  assumes "validateRequest e createTaskSchema (JObj raw) = Forward (JObj v)"
    and "post_tasks e s (JObj raw) = (Inr r, s')" and "res_status r = 201"
  shows "new_errors e v = [] \<and> \<not> list_ex (has_id (new_id e)) s"
proof -
  have p: "post_tasks e s (JObj raw) =
      (respond e (createTask (fst (Task_create e s (JObj v)))), snd (Task_create e s (JObj v)))"
    using assms(1) by (simp add: post_tasks_def split: prod.splits)
  show ?thesis
  proof (rule ccontr)
    assume "\<not> (new_errors e v = [] \<and> \<not> list_ex (has_id (new_id e)) s)"
    then consider "new_errors e v \<noteq> []" | "new_errors e v = []" "list_ex (has_id (new_id e)) s"
      by blast
    then show False
    proof cases
      case 1
      then have "errorHandler e (validation_error (new_errors e v) (trace e)) = Inr r"
        using p assms(2) by (simp add: Task_create_cases respond_def createTask_def)
      from errorHandler_translated_400[OF _ _ _ this] have "res_status r = 400"
        by (simp add: store_error_fields)
      then show False using assms(3) by simp
    next
      case 2
      then have "errorHandler e (duplicate_key_error (new_id e) (trace e)) = Inr r"
        using p assms(2) by (simp add: Task_create_cases respond_def createTask_def)
      from errorHandler_translated_400[OF _ _ _ this] have "res_status r = 400"
        by (simp add: store_error_fields)
      then show False using assms(3) by simp
    qed
  qed
qed

lemma find_appended:
  assumes "\<not> list_ex P s" "P d"
  shows "find P (s @ [d]) = Some d"
  using assms by (induction s) auto

lemma schema_key_cases:
  assumes "map_of (keys createTaskSchema) k = Some fs"
  shows "k = ''title'' \<or> k = ''description'' \<or> k = ''category'' \<or> k = ''priority'' \<or>
      k = ''deadline'' \<or> k = ''completed''"
proof -
  have "(k, fs) \<in> set (keys createTaskSchema)" using assms by (rule map_of_SomeD)
  then have "k \<in> set (map fst (keys createTaskSchema))" by force
  then show ?thesis by (simp add: createTaskSchema_def)
qed

lemma stamped_lookup:
  assumes "map_of (keys createTaskSchema) k = Some fs"
  shows "map_of (xs @ [(''_id'', a), (''createdAt'', b), (''updatedAt'', c), (''__v'', d)]) k =
    map_of xs k"
  using schema_key_cases[OF assms]
  by (elim disjE) (simp_all add: map_add_def split: option.splits)

lemma stamps_lookup:
  "map_of (new_fields e v @ [(''_id'', a), (''createdAt'', b), (''updatedAt'', c), (''__v'', d)])
     ''_id'' = Some a"
  "map_of (new_fields e v @ [(''_id'', a), (''createdAt'', b), (''updatedAt'', c), (''__v'', d)])
     ''createdAt'' = Some b"
  "map_of (new_fields e v @ [(''_id'', a), (''createdAt'', b), (''updatedAt'', c), (''__v'', d)])
     ''updatedAt'' = Some c"
  by (simp_all add: map_add_def new_fields_lookup taskSchema_def)

lemma text_field_schema:
  assumes "k \<in> {''title'', ''description'', ''category'', ''priority''}"
  shows "\<exists>fs. map_of (keys createTaskSchema) k = Some fs \<and> base fs = StringType \<and>
        Trim \<in> set (rules fs)"
  using assms by (elim insertE emptyE) (simp_all add: createTaskSchema_def)

lemma completed_schema:
  "\<exists>fs. map_of (keys createTaskSchema) ''completed'' = Some fs \<and>
     default_value fs = Some (JBool False)"
  by (simp add: createTaskSchema_def)

lemma round_trip_after_created:
  "(\<forall>k. violations e createTaskSchema raw k = []) \<and>
   post_tasks e s (JObj raw) = (Inr r, s') \<and> res_status r = 201 \<and>
   cast_id e' (new_id e) = Some (new_id e) \<longrightarrow>
     (\<exists>t. response_task r = Some t
        \<and> get_task e' s' (new_id e) =
            Inr (res_json 200
                   (obj [(''status'', Some (JStr ''success'')),
                         (''data'', Some (obj [(''task'', Some t)]))]))
        \<and> task_field t ''_id'' = Some (JStr (new_id e))
        \<and> task_field t ''createdAt'' = Some (JDate (stamp_now e))
        \<and> task_field t ''updatedAt'' = Some (JDate (stamp_now e))
        \<and> (\<forall>k \<in> set (map fst (keys createTaskSchema)).
               task_field t k = sanitized e createTaskSchema raw k)
        \<and> (\<forall>k x. k \<in> {''title'', ''description'', ''category'', ''priority''} \<longrightarrow>
               map_of raw k = Some (JStr x) \<longrightarrow> task_field t k = Some (JStr (trim x)))
        \<and> (map_of raw ''completed'' = None \<longrightarrow> task_field t ''completed'' = Some (JBool False)))"
proof (intro impI)
  assume a: "(\<forall>k. violations e createTaskSchema raw k = []) \<and>
   post_tasks e s (JObj raw) = (Inr r, s') \<and> res_status r = 201 \<and>
   cast_id e' (new_id e) = Some (new_id e)"
  then have nv: "\<forall>k. violations e createTaskSchema raw k = []"
    and post: "post_tasks e s (JObj raw) = (Inr r, s')"
    and st: "res_status r = 201"
    and cast: "cast_id e' (new_id e) = Some (new_id e)"
    by (rule conjunct1, (rule conjunct2[THEN conjunct1]),
        (rule conjunct2[THEN conjunct2, THEN conjunct1]),
        (rule conjunct2[THEN conjunct2, THEN conjunct2]))
  have nd: "field_details e createTaskSchema raw = []"
    using no_violations_no_details[OF createTaskSchema_distinct nv] .
  have mk: "min_keys createTaskSchema = None" by (simp add: createTaskSchema_def)
  obtain v where all: "validateRequest e createTaskSchema (JObj raw) = Forward (JObj v) \<and>
      (\<forall>k. map_of v k =
         (case map_of (keys createTaskSchema) k of
            None \<Rightarrow> None
          | Some fs \<Rightarrow> field_value e fs (map_of raw k)))"
    using validateRequest_forward[OF createTaskSchema_distinct nd mk] by (rule exE)
  note fw = all[THEN conjunct1]
  have look: "map_of v k = field_value e fs (map_of raw k)"
    if "map_of (keys createTaskSchema) k = Some fs" for k fs
    using all[THEN conjunct2, rule_format, of k] that by simp
  have ok: "new_errors e v = [] \<and> \<not> list_ex (has_id (new_id e)) s"
    using created_201[OF fw post st] .
  define doc where "doc = new_fields e v @
                   [(''_id'', JStr (new_id e)),
                    (''createdAt'', JDate (stamp_now e)),
                    (''updatedAt'', JDate (stamp_now e)),
                    (''__v'', JNum 0)]"
  have tc: "Task_create e s (JObj v) = (Inr (JObj doc), s @ [doc])"
    using ok by (simp add: Task_create_cases doc_def)
  have p: "post_tasks e s (JObj raw) =
      (Inr (res_json 201
              (obj [(''status'', Some (JStr ''success'')),
                    (''data'', Some (obj [(''task'', Some (JObj doc))]))])), s @ [doc])"
    by (simp add: post_tasks_def fw tc respond_def createTask_def)
  have r: "r = res_json 201
              (obj [(''status'', Some (JStr ''success'')),
                    (''data'', Some (obj [(''task'', Some (JObj doc))]))])"
    and s': "s' = s @ [doc]"
    using p post by simp_all
  have rt: "response_task r = Some (JObj doc)"
    by (simp add: r response_task_def res_json_def obj_def)
  have d1: "map_of doc ''_id'' = Some (JStr (new_id e))"
    and d2: "map_of doc ''createdAt'' = Some (JDate (stamp_now e))"
    and d3: "map_of doc ''updatedAt'' = Some (JDate (stamp_now e))"
    unfolding doc_def by (rule stamps_lookup)+
  have hid: "has_id (new_id e) doc"
    by (simp add: has_id_def d1)
  have fnd: "Task_findById e' s' (new_id e) = Inr (Some (JObj doc))"
    using find_appended[OF ok[THEN conjunct2] hid] by (simp add: Task_findById_def cast s')
  have gt: "get_task e' s' (new_id e) =
            Inr (res_json 200
                   (obj [(''status'', Some (JStr ''success'')),
                         (''data'', Some (obj [(''task'', Some (JObj doc))]))]))"
    by (simp add: get_task_def fnd getTaskById_def respond_def)
  have f1: "task_field (JObj doc) ''_id'' = Some (JStr (new_id e))"
    and f2: "task_field (JObj doc) ''createdAt'' = Some (JDate (stamp_now e))"
    and f3: "task_field (JObj doc) ''updatedAt'' = Some (JDate (stamp_now e))"
    by (simp_all add: task_field_def d1 d2 d3)
  have fld: "task_field (JObj doc) k = field_value e fs (map_of raw k)"
    if k: "map_of (keys createTaskSchema) k = Some fs" for k fs
  proof -
    have "map_of doc k = map_of (new_fields e v) k"
      unfolding doc_def by (rule stamped_lookup[OF k])
    then have "task_field (JObj doc) k = map_of (new_fields e v) k"
      by (simp add: task_field_def)
    also have "\<dots> = map_of v k"
      using stored_field[OF nv[rule_format] k look[OF k] ok[THEN conjunct1]] .
    finally show ?thesis using look[OF k] by simp
  qed
  have f4: "\<forall>k \<in> set (map fst (keys createTaskSchema)).
               task_field (JObj doc) k = sanitized e createTaskSchema raw k"
  proof
    fix k assume "k \<in> set (map fst (keys createTaskSchema))"
    then obtain fs where fs: "map_of (keys createTaskSchema) k = Some fs"
      by (cases "map_of (keys createTaskSchema) k") (auto simp: map_of_eq_None_iff)
    show "task_field (JObj doc) k = sanitized e createTaskSchema raw k"
      using fld[OF fs] fs by (simp add: sanitized_def)
  qed
  have f5: "\<forall>k x. k \<in> {''title'', ''description'', ''category'', ''priority''} \<longrightarrow>
               map_of raw k = Some (JStr x) \<longrightarrow> task_field (JObj doc) k = Some (JStr (trim x))"
  proof (intro allI impI)
    fix k x
    assume k: "k \<in> {''title'', ''description'', ''category'', ''priority''}"
      and x: "map_of raw k = Some (JStr x)"
    from text_field_schema[OF k] obtain fs where fs: "map_of (keys createTaskSchema) k = Some fs"
      "base fs = StringType" "Trim \<in> set (rules fs)" by blast
    show "task_field (JObj doc) k = Some (JStr (trim x))"
      using fld[OF fs(1)] x fs(2,3) by (simp add: field_value_trimmed)
  qed
  have f6: "map_of raw ''completed'' = None \<longrightarrow>
      task_field (JObj doc) ''completed'' = Some (JBool False)"
  proof
    assume n: "map_of raw ''completed'' = None"
    from completed_schema obtain fs where fs: "map_of (keys createTaskSchema) ''completed'' = Some fs"
      "default_value fs = Some (JBool False)" by blast
    show "task_field (JObj doc) ''completed'' = Some (JBool False)"
      using fld[OF fs(1)] n fs(2) by (simp add: field_value_def)
  qed
  show "\<exists>t. response_task r = Some t
        \<and> get_task e' s' (new_id e) =
            Inr (res_json 200
                   (obj [(''status'', Some (JStr ''success'')),
                         (''data'', Some (obj [(''task'', Some t)]))]))
        \<and> task_field t ''_id'' = Some (JStr (new_id e))
        \<and> task_field t ''createdAt'' = Some (JDate (stamp_now e))
        \<and> task_field t ''updatedAt'' = Some (JDate (stamp_now e))
        \<and> (\<forall>k \<in> set (map fst (keys createTaskSchema)).
               task_field t k = sanitized e createTaskSchema raw k)
        \<and> (\<forall>k x. k \<in> {''title'', ''description'', ''category'', ''priority''} \<longrightarrow>
               map_of raw k = Some (JStr x) \<longrightarrow> task_field t k = Some (JStr (trim x)))
        \<and> (map_of raw ''completed'' = None \<longrightarrow> task_field t ''completed'' = Some (JBool False))"
    by (intro exI[of _ "JObj doc"] conjI) (rule rt gt f1 f2 f3 f4 f5 f6)+
qed

section \<open>A valid payload is created\<close>

lemma run_rules_Nil:
  "\<not> abortEarly opts \<Longrightarrow> run_rules e opts rs v = [] \<Longrightarrow> r \<in> set rs \<Longrightarrow> rule_error e r v = None"
  by (induction rs) (auto split: option.splits)

lemma not_abortEarly: "\<not> abortEarly validateRequest_options"
  by (simp add: validateRequest_options_def)

lemma title_stored:
  assumes "field_errors e validateRequest_options fs item = []"
    and "map_of (keys createTaskSchema) ''title'' = Some fs"
    and "map_of taskSchema ''title'' = Some ps"
    and "map_of v ''title'' = field_value e fs item"
  shows "\<exists>res. new_path e v (''title'', ps) = Inr res"
proof -
  have fs: "fs = the (map_of (keys createTaskSchema) ''title'')" using assms(2) by simp
  have ps: "ps = the (map_of taskSchema ''title'')" using assms(3) by simp
  show ?thesis
  proof (cases item)
    case None
    then show ?thesis using assms(1) unfolding fs
      by (simp add: createTaskSchema_def field_errors_def)
  next
    case (Some x)
    from no_errors_well_typed[OF assms(1)[unfolded Some]]
    obtain s where x: "x = JStr s" and c: "coerce e fs x = JStr (trim s)"
      unfolding fs by (auto simp: createTaskSchema_def)
    have fe: "field_errors e validateRequest_options fs (Some x) = []"
      using assms(1) Some by simp
    have ne: "trim s \<noteq> []"
      and rr: "run_rules e validateRequest_options (rules fs) (JStr (trim s)) = []"
      using fe c unfolding fs
      by (auto simp: createTaskSchema_def field_errors_def Let_def base_error_def
          split: if_splits option.splits)
    have "Max 100 \<in> set (rules fs)" unfolding fs by (simp add: createTaskSchema_def)
    from run_rules_Nil[OF not_abortEarly rr this] have len: "length (trim s) \<le> 100"
      by (simp split: if_splits)
    have y: "map_of v ''title'' = Some (JStr (trim s))"
      using assms(4) Some c by (simp add: field_value_def)
    show ?thesis
      using y ne len unfolding ps
      by (simp add: new_path_def taskSchema_def cast_path_def apply_trim_def trim_idem
          path_error_def)
  qed
qed

lemma description_stored:
  assumes "field_errors e validateRequest_options fs item = []"
    and "map_of (keys createTaskSchema) ''description'' = Some fs"
    and "map_of taskSchema ''description'' = Some ps"
    and "map_of v ''description'' = field_value e fs item"
  shows "\<exists>res. new_path e v (''description'', ps) = Inr res"
proof -
  have fs: "fs = the (map_of (keys createTaskSchema) ''description'')" using assms(2) by simp
  have ps: "ps = the (map_of taskSchema ''description'')" using assms(3) by simp
  show ?thesis
  proof (cases item)
    case None
    then have "map_of v ''description'' = None"
      using assms(4) unfolding fs by (simp add: createTaskSchema_def field_value_def)
    then show ?thesis unfolding ps
      by (simp add: new_path_def taskSchema_def path_error_def)
  next
    case (Some x)
    from no_errors_well_typed[OF assms(1)[unfolded Some]]
    obtain s where x: "x = JStr s" and c: "coerce e fs x = JStr (trim s)"
      unfolding fs by (auto simp: createTaskSchema_def)
    have fe: "field_errors e validateRequest_options fs (Some x) = []"
      using assms(1) Some by simp
    have len: "length (trim s) \<le> 500"
    proof (cases "trim s = []")
      case True
      then show ?thesis by simp
    next
      case False
      then have rr: "run_rules e validateRequest_options (rules fs) (JStr (trim s)) = []"
        using fe c unfolding fs
        by (auto simp: createTaskSchema_def field_errors_def Let_def base_error_def
            split: if_splits option.splits)
      have "Max 500 \<in> set (rules fs)" unfolding fs by (simp add: createTaskSchema_def)
      from run_rules_Nil[OF not_abortEarly rr this] show ?thesis
        by (simp split: if_splits)
    qed
    have y: "map_of v ''description'' = Some (JStr (trim s))"
      using assms(4) Some c by (simp add: field_value_def)
    show ?thesis
      using y len unfolding ps
      by (simp add: new_path_def taskSchema_def cast_path_def apply_trim_def trim_idem
          path_error_def)
  qed
qed

lemma category_stored:
  assumes "field_errors e validateRequest_options fs item = []"
    and "map_of (keys createTaskSchema) ''category'' = Some fs"
    and "map_of taskSchema ''category'' = Some ps"
    and "map_of v ''category'' = field_value e fs item"
  shows "\<exists>res. new_path e v (''category'', ps) = Inr res"
proof -
  have fs: "fs = the (map_of (keys createTaskSchema) ''category'')" using assms(2) by simp
  have ps: "ps = the (map_of taskSchema ''category'')" using assms(3) by simp
  show ?thesis
  proof (cases item)
    case None
    then show ?thesis using assms(1) unfolding fs
      by (simp add: createTaskSchema_def field_errors_def)
  next
    case (Some x)
    from no_errors_well_typed[OF assms(1)[unfolded Some]]
    obtain s where x: "x = JStr s" and c: "coerce e fs x = JStr (trim s)"
      unfolding fs by (auto simp: createTaskSchema_def)
    have fe: "field_errors e validateRequest_options fs (Some x) = []"
      using assms(1) Some by simp
    have mem: "trim s \<in> {''Work'', ''Personal'', ''Study'', ''Health'', ''Other''}"
      using fe c unfolding fs
      by (auto simp: createTaskSchema_def field_errors_def Let_def split: if_splits)
    have y: "map_of v ''category'' = Some (JStr (trim s))"
      using assms(4) Some c by (simp add: field_value_def)
    show ?thesis
      using y mem unfolding ps
      by (auto simp: new_path_def taskSchema_def cast_path_def apply_trim_def trim_idem
          path_error_def)
  qed
qed

lemma priority_stored:
  assumes "field_errors e validateRequest_options fs item = []"
    and "map_of (keys createTaskSchema) ''priority'' = Some fs"
    and "map_of taskSchema ''priority'' = Some ps"
    and "map_of v ''priority'' = field_value e fs item"
  shows "\<exists>res. new_path e v (''priority'', ps) = Inr res"
proof -
  have fs: "fs = the (map_of (keys createTaskSchema) ''priority'')" using assms(2) by simp
  have ps: "ps = the (map_of taskSchema ''priority'')" using assms(3) by simp
  show ?thesis
  proof (cases item)
    case None
    then show ?thesis using assms(1) unfolding fs
      by (simp add: createTaskSchema_def field_errors_def)
  next
    case (Some x)
    from no_errors_well_typed[OF assms(1)[unfolded Some]]
    obtain s where x: "x = JStr s" and c: "coerce e fs x = JStr (trim s)"
      unfolding fs by (auto simp: createTaskSchema_def)
    have fe: "field_errors e validateRequest_options fs (Some x) = []"
      using assms(1) Some by simp
    have mem: "trim s \<in> {''Low'', ''Medium'', ''High''}"
      using fe c unfolding fs
      by (auto simp: createTaskSchema_def field_errors_def Let_def split: if_splits)
    have y: "map_of v ''priority'' = Some (JStr (trim s))"
      using assms(4) Some c by (simp add: field_value_def)
    show ?thesis
      using y mem unfolding ps
      by (auto simp: new_path_def taskSchema_def cast_path_def apply_trim_def
          path_error_def)
  qed
qed

lemma deadline_stored:
  assumes "field_errors e validateRequest_options fs item = []"
    and "map_of (keys createTaskSchema) ''deadline'' = Some fs"
    and "map_of taskSchema ''deadline'' = Some ps"
    and "map_of v ''deadline'' = field_value e fs item"
    and "\<forall>t. field_value e fs item = Some (JDate t) \<longrightarrow> model_now e < t"
  shows "\<exists>res. new_path e v (''deadline'', ps) = Inr res"
proof -
  have fs: "fs = the (map_of (keys createTaskSchema) ''deadline'')" using assms(2) by simp
  have ps: "ps = the (map_of taskSchema ''deadline'')" using assms(3) by simp
  show ?thesis
  proof (cases item)
    case None
    then show ?thesis using assms(1) unfolding fs
      by (simp add: createTaskSchema_def field_errors_def)
  next
    case (Some x)
    from no_errors_well_typed[OF assms(1)[unfolded Some]]
    obtain t where c: "coerce e fs x = JDate t"
      unfolding fs by (auto simp: createTaskSchema_def)
    have y: "map_of v ''deadline'' = Some (JDate t)"
      using assms(4) Some c by (simp add: field_value_def)
    have "model_now e < t" using assms(5) Some c by (simp add: field_value_def)
    then show ?thesis
      using y unfolding ps
      by (simp add: new_path_def taskSchema_def cast_path_def path_error_def
          deadline_validator_def)
  qed
qed

lemma completed_stored:
  assumes "field_errors e validateRequest_options fs item = []"
    and "map_of (keys createTaskSchema) ''completed'' = Some fs"
    and "map_of taskSchema ''completed'' = Some ps"
    and "map_of v ''completed'' = field_value e fs item"
  shows "\<exists>res. new_path e v (''completed'', ps) = Inr res"
proof -
  have fs: "fs = the (map_of (keys createTaskSchema) ''completed'')" using assms(2) by simp
  have ps: "ps = the (map_of taskSchema ''completed'')" using assms(3) by simp
  show ?thesis
  proof (cases item)
    case None
    then have "map_of v ''completed'' = Some (JBool False)"
      using assms(4) unfolding fs by (simp add: createTaskSchema_def field_value_def)
    then show ?thesis unfolding ps
      by (simp add: new_path_def taskSchema_def cast_path_def path_error_def)
  next
    case (Some x)
    from no_errors_well_typed[OF assms(1)[unfolded Some]]
    obtain b where c: "coerce e fs x = JBool b"
      unfolding fs by (auto simp: createTaskSchema_def)
    have y: "map_of v ''completed'' = Some (JBool b)"
      using assms(4) Some c by (simp add: field_value_def)
    show ?thesis
      using y unfolding ps
      by (simp add: new_path_def taskSchema_def cast_path_def path_error_def)
  qed
qed

lemma valid_payload_path_stored:
  assumes nv: "\<forall>k. violations e createTaskSchema raw k = []"
    and look: "\<forall>k. map_of v k = sanitized e createTaskSchema raw k"
    and mem: "(k, ps) \<in> set taskSchema"
    and later: "k = ''deadline'' \<longrightarrow>
      (\<forall>t. sanitized e createTaskSchema raw ''deadline'' = Some (JDate t) \<longrightarrow> model_now e < t)"
  shows "\<exists>res. new_path e v (k, ps) = Inr res"
proof -
  have d: "distinct (map fst taskSchema)" by (simp add: taskSchema_def)
  have ps: "map_of taskSchema k = Some ps" using mem d by simp
  have "map_of (keys createTaskSchema) k \<noteq> None" using ps taskSchema_keys[of k] by simp
  then obtain fs where fs: "map_of (keys createTaskSchema) k = Some fs" by blast
  have fe: "field_errors e validateRequest_options fs (map_of raw k) = []"
    using nv[rule_format, of k] fs by (simp add: violations_def)
  have lk: "map_of v k = field_value e fs (map_of raw k)"
    using look[rule_format, of k] fs by (simp add: sanitized_def)
  from schema_key_cases[OF fs] show ?thesis
  proof (elim disjE)
    assume k: "k = ''title''"
    show ?thesis using title_stored[OF fe[unfolded k] fs[unfolded k] ps[unfolded k] lk[unfolded k]] k by simp
  next
    assume k: "k = ''description''"
    show ?thesis
      using description_stored[OF fe[unfolded k] fs[unfolded k] ps[unfolded k] lk[unfolded k]] k by simp
  next
    assume k: "k = ''category''"
    show ?thesis
      using category_stored[OF fe[unfolded k] fs[unfolded k] ps[unfolded k] lk[unfolded k]] k by simp
  next
    assume k: "k = ''priority''"
    show ?thesis
      using priority_stored[OF fe[unfolded k] fs[unfolded k] ps[unfolded k] lk[unfolded k]] k by simp
  next
    assume k: "k = ''deadline''"
    have l: "\<forall>t. field_value e fs (map_of raw ''deadline'') = Some (JDate t) \<longrightarrow> model_now e < t"
      using later fs k by (simp add: sanitized_def)
    show ?thesis
      using deadline_stored[OF fe[unfolded k] fs[unfolded k] ps[unfolded k] lk[unfolded k] l] k
      by simp
  next
    assume k: "k = ''completed''"
    show ?thesis
      using completed_stored[OF fe[unfolded k] fs[unfolded k] ps[unfolded k] lk[unfolded k]] k by simp
  qed
qed

lemma valid_payload_no_store_errors:
  assumes nv: "\<forall>k. violations e createTaskSchema raw k = []"
    and look: "\<forall>k. map_of v k = sanitized e createTaskSchema raw k"
    and later: "\<forall>t. sanitized e createTaskSchema raw ''deadline'' = Some (JDate t) \<longrightarrow>
      model_now e < t"
  shows "new_errors e v = []"
proof -
  have "\<forall>kp \<in> set taskSchema.
      (case new_path e v kp of Inl m \<Rightarrow> [(fst kp, m)] | Inr x \<Rightarrow> []) = []"
  proof
    fix kp assume m: "kp \<in> set taskSchema"
    obtain k ps where kp: "kp = (k, ps)" by (cases kp)
    have "\<exists>res. new_path e v (k, ps) = Inr res"
      using valid_payload_path_stored[OF nv look m[unfolded kp]] later by simp
    then obtain res where "new_path e v (k, ps) = Inr res" by blast
    then show "(case new_path e v kp of Inl m \<Rightarrow> [(fst kp, m)] | Inr x \<Rightarrow> []) = []"
      by (simp add: kp)
  qed
  then show ?thesis by (simp add: new_errors_Nil_iff)
qed

section \<open>A valid payload whose deadline has come is refused by the model\<close>

lemma concat_map_Nil: "\<forall>x \<in> set xs. f x = [] \<Longrightarrow> concat (map f xs) = []"
  by (induction xs) simp_all

lemma concat_map_single:
  assumes "distinct xs" "x0 \<in> set xs" "\<forall>x \<in> set xs. x \<noteq> x0 \<longrightarrow> f x = []"
  shows "concat (map f xs) = f x0"
  using assms
proof (induction xs)
  case Nil
  then show ?case by simp
next
  case (Cons a xs)
  show ?case
  proof (cases "a = x0")
    case True
    then have "x0 \<notin> set xs" using Cons.prems(1) by simp
    then have "\<forall>x \<in> set xs. f x = []" using Cons.prems(3) by auto
    then show ?thesis using True by (simp add: concat_map_Nil)
  next
    case False
    then have "x0 \<in> set xs" "f a = []" using Cons.prems by auto
    then show ?thesis using Cons.IH Cons.prems by simp
  qed
qed

lemma distinct_validation_order: "distinct (validation_order e kvs)"
proof -
  have "distinct (map fst taskSchema)" by (simp add: taskSchema_def)
  then have d: "distinct taskSchema" by (rule distinct_map[THEN iffD1, THEN conjunct1])
  show ?thesis
    using d by (auto simp: validation_order_def cast_fails_def missing_required_def)
qed

lemma deadline_refused:
  assumes "map_of taskSchema ''deadline'' = Some ps"
    and "map_of v ''deadline'' = Some (JDate t)" and "t \<le> model_now e"
  shows "new_path e v (''deadline'', ps) = Inl ''Deadline must be a future date''"
proof -
  have ps: "ps = the (map_of taskSchema ''deadline'')" using assms(1) by simp
  show ?thesis
    using assms(2,3) unfolding ps
    by (simp add: new_path_def taskSchema_def cast_path_def path_error_def
        deadline_validator_def)
qed

lemma due_payload_store_errors:
  assumes nv: "\<forall>k. violations e createTaskSchema raw k = []"
    and look: "\<forall>k. map_of v k = sanitized e createTaskSchema raw k"
    and due: "sanitized e createTaskSchema raw ''deadline'' = Some (JDate t)" "t \<le> model_now e"
  shows "new_errors e v = [(''deadline'', ''Deadline must be a future date'')]"
proof -
  obtain ps where ps: "map_of taskSchema ''deadline'' = Some ps"
    by (simp add: taskSchema_def)
  have mem: "(''deadline'', ps) \<in> set taskSchema" using ps by (rule map_of_SomeD)
  have dk: "distinct (map fst taskSchema)" by (simp add: taskSchema_def)
  have dl: "map_of v ''deadline'' = Some (JDate t)" using look due(1) by simp
  have x0: "new_path e v (''deadline'', ps) = Inl ''Deadline must be a future date''"
    using deadline_refused[OF ps dl due(2)] .
  have others: "\<forall>kp \<in> set (validation_order e v). kp \<noteq> (''deadline'', ps) \<longrightarrow>
      (case new_path e v kp of Inl m \<Rightarrow> [(fst kp, m)] | Inr x \<Rightarrow> []) = []"
  proof (intro ballI impI)
    fix kp assume m: "kp \<in> set (validation_order e v)" and ne: "kp \<noteq> (''deadline'', ps)"
    obtain k ps' where kp: "kp = (k, ps')" by (cases kp)
    have m': "(k, ps') \<in> set taskSchema" using m kp by (simp add: set_validation_order)
    have "k \<noteq> ''deadline''"
    proof
      assume "k = ''deadline''"
      then have "map_of taskSchema ''deadline'' = Some ps'" using m' dk by simp
      then show False using ps ne kp \<open>k = ''deadline''\<close> by simp
    qed
    then have "\<exists>res. new_path e v (k, ps') = Inr res"
      using valid_payload_path_stored[OF nv look m'] by simp
    then obtain res where "new_path e v (k, ps') = Inr res" by blast
    then show "(case new_path e v kp of Inl m \<Rightarrow> [(fst kp, m)] | Inr x \<Rightarrow> []) = []"
      by (simp add: kp)
  qed
  have "new_errors e v =
      (case new_path e v (''deadline'', ps) of Inl m \<Rightarrow> [(fst (''deadline'', ps), m)]
       | Inr x \<Rightarrow> [])"
    unfolding new_errors_def
    using concat_map_single[OF distinct_validation_order _ others] mem
    by (simp add: set_validation_order)
  then show ?thesis by (simp add: x0)
qed

lemma errorHandler_validation_error:
  "errorHandler e (validation_error es tr) =
     handleError e (AppError (trace e) (''Invalid input data: '' @ join ''. '' (map snd es)) 400)"
  by (simp add: errorHandler_def translate_def validation_error_def new_error_def
      handleValidationError_def invalid_json_def)

lemma due_payload_refused:
  assumes nv: "\<forall>k. violations e createTaskSchema raw k = []"
    and due: "sanitized e createTaskSchema raw ''deadline'' = Some (JDate t)" "t \<le> model_now e"
  shows "post_tasks e s (JObj raw) =
      (Inr \<lparr>res_status = 400,
            res_payload =
              JObj ([(''status'', JStr ''fail''),
                     (''message'', JStr ''Invalid input data: Deadline must be a future date'')] @
                    (if NODE_ENV e = Some ''development'' then [(''stack'', JStr (trace e))]
                     else []))\<rparr>, s)"
proof -
  have nd: "field_details e createTaskSchema raw = []"
    using no_violations_no_details[OF createTaskSchema_distinct nv] .
  have mk: "min_keys createTaskSchema = None" by (simp add: createTaskSchema_def)
  obtain v where all: "validateRequest e createTaskSchema (JObj raw) = Forward (JObj v) \<and>
      (\<forall>k. map_of v k =
         (case map_of (keys createTaskSchema) k of
            None \<Rightarrow> None
          | Some fs \<Rightarrow> field_value e fs (map_of raw k)))"
    using validateRequest_forward[OF createTaskSchema_distinct nd mk] by (rule exE)
  have look: "\<forall>k. map_of v k = sanitized e createTaskSchema raw k"
    using all[THEN conjunct2] by (simp add: sanitized_def)
  have ne: "new_errors e v = [(''deadline'', ''Deadline must be a future date'')]"
    using due_payload_store_errors[OF nv look due] .
  show ?thesis
    by (simp add: post_tasks_def all[THEN conjunct1] Task_create_cases ne respond_def
        createTask_def errorHandler_validation_error handleError_AppError_400)
qed

lemma valid_payload_created:
  assumes nv: "\<forall>k. violations e createTaskSchema raw k = []"
    and fresh: "\<not> list_ex (has_id (new_id e)) s"
    and later: "\<forall>t. sanitized e createTaskSchema raw ''deadline'' = Some (JDate t) \<longrightarrow>
      model_now e < t"
  shows "\<exists>r s'. post_tasks e s (JObj raw) = (Inr r, s') \<and> res_status r = 201"
proof -
  have nd: "field_details e createTaskSchema raw = []"
    using no_violations_no_details[OF createTaskSchema_distinct nv] .
  have mk: "min_keys createTaskSchema = None" by (simp add: createTaskSchema_def)
  obtain v where all: "validateRequest e createTaskSchema (JObj raw) = Forward (JObj v) \<and>
      (\<forall>k. map_of v k =
         (case map_of (keys createTaskSchema) k of
            None \<Rightarrow> None
          | Some fs \<Rightarrow> field_value e fs (map_of raw k)))"
    using validateRequest_forward[OF createTaskSchema_distinct nd mk] by (rule exE)
  have look: "\<forall>k. map_of v k = sanitized e createTaskSchema raw k"
    using all[THEN conjunct2] by (simp add: sanitized_def)
  have ne: "new_errors e v = []"
    using valid_payload_no_store_errors[OF nv look later] .
  have "post_tasks e s (JObj raw) =
      (Inr (res_json 201
              (obj [(''status'', Some (JStr ''success'')),
                    (''data'', Some (obj [(''task'', Some (JObj (new_fields e v @
                   [(''_id'', JStr (new_id e)),
                    (''createdAt'', JDate (stamp_now e)),
                    (''updatedAt'', JDate (stamp_now e)),
                    (''__v'', JNum 0)])))]))])),
       s @ [new_fields e v @
                   [(''_id'', JStr (new_id e)),
                    (''createdAt'', JDate (stamp_now e)),
                    (''updatedAt'', JDate (stamp_now e)),
                    (''__v'', JNum 0)]])"
    using ne fresh
    by (simp add: post_tasks_def all[THEN conjunct1] Task_create_cases respond_def
        createTask_def)
  then show ?thesis by (simp add: res_json_sel)
qed

text \<open>
  C7 (as amended). A create payload that passes the validation is created (the request
  is answered 201) whenever its deadline is later than the clock of the model's validator
  and the generated id is new to the store; and when a valid create payload has been
  created, a get-by-id request with the returned id is answered 200 with the same task.
  Its business fields are the sanitized values of the submitted ones: strings trimmed,
  the deadline as the date it denotes, \<^verbatim>\<open>completed\<close> false when it was not submitted;
  and it has the generated id and both timestamps. The id text of the request is what the
  store library converts back to the generated id. A payload that passes the validation
  and whose deadline is not later than the clock of the model's validator is answered
  400 with the model's message, and the store is unchanged.
\<close>

theorem create_then_get_round_trip:
  "((\<forall>k. violations e createTaskSchema raw k = []) \<and>
    \<not> list_ex (has_id (new_id e)) s \<and>
    (\<forall>t. sanitized e createTaskSchema raw ''deadline'' = Some (JDate t) \<longrightarrow> model_now e < t)
    \<longrightarrow> (\<exists>r s'. post_tasks e s (JObj raw) = (Inr r, s') \<and> res_status r = 201))
   \<and> ((\<forall>k. violations e createTaskSchema raw k = []) \<and>
       post_tasks e s (JObj raw) = (Inr r, s') \<and> res_status r = 201 \<and>
       cast_id e' (new_id e) = Some (new_id e) \<longrightarrow>
     (\<exists>t. response_task r = Some t
        \<and> get_task e' s' (new_id e) =
            Inr (res_json 200
                   (obj [(''status'', Some (JStr ''success'')),
                         (''data'', Some (obj [(''task'', Some t)]))]))
        \<and> task_field t ''_id'' = Some (JStr (new_id e))
        \<and> task_field t ''createdAt'' = Some (JDate (stamp_now e))
        \<and> task_field t ''updatedAt'' = Some (JDate (stamp_now e))
        \<and> (\<forall>k \<in> set (map fst (keys createTaskSchema)).
               task_field t k = sanitized e createTaskSchema raw k)
        \<and> (\<forall>k x. k \<in> {''title'', ''description'', ''category'', ''priority''} \<longrightarrow>
               map_of raw k = Some (JStr x) \<longrightarrow> task_field t k = Some (JStr (trim x)))
        \<and> (map_of raw ''completed'' = None \<longrightarrow> task_field t ''completed'' = Some (JBool False))))
   \<and> ((\<forall>k. violations e createTaskSchema raw k = []) \<and>
       sanitized e createTaskSchema raw ''deadline'' = Some (JDate due) \<and> due \<le> model_now e
       \<longrightarrow> post_tasks e s (JObj raw) =
             (Inr \<lparr>res_status = 400,
                   res_payload =
                     JObj ([(''status'', JStr ''fail''),
                            (''message'',
                             JStr ''Invalid input data: Deadline must be a future date'')] @
                           (if NODE_ENV e = Some ''development''
                            then [(''stack'', JStr (trace e))] else []))\<rparr>, s))"
proof (intro conjI)
  show "(\<forall>k. violations e createTaskSchema raw k = []) \<and>
    \<not> list_ex (has_id (new_id e)) s \<and>
    (\<forall>t. sanitized e createTaskSchema raw ''deadline'' = Some (JDate t) \<longrightarrow> model_now e < t)
    \<longrightarrow> (\<exists>r s'. post_tasks e s (JObj raw) = (Inr r, s') \<and> res_status r = 201)"
  proof
    assume a: "(\<forall>k. violations e createTaskSchema raw k = []) \<and>
      \<not> list_ex (has_id (new_id e)) s \<and>
      (\<forall>t. sanitized e createTaskSchema raw ''deadline'' = Some (JDate t) \<longrightarrow> model_now e < t)"
    show "\<exists>r s'. post_tasks e s (JObj raw) = (Inr r, s') \<and> res_status r = 201"
      using valid_payload_created[OF a[THEN conjunct1] a[THEN conjunct2, THEN conjunct1]
          a[THEN conjunct2, THEN conjunct2]] .
  qed
next
  show "(\<forall>k. violations e createTaskSchema raw k = []) \<and>
       post_tasks e s (JObj raw) = (Inr r, s') \<and> res_status r = 201 \<and>
       cast_id e' (new_id e) = Some (new_id e) \<longrightarrow>
     (\<exists>t. response_task r = Some t
        \<and> get_task e' s' (new_id e) =
            Inr (res_json 200
                   (obj [(''status'', Some (JStr ''success'')),
                         (''data'', Some (obj [(''task'', Some t)]))]))
        \<and> task_field t ''_id'' = Some (JStr (new_id e))
        \<and> task_field t ''createdAt'' = Some (JDate (stamp_now e))
        \<and> task_field t ''updatedAt'' = Some (JDate (stamp_now e))
        \<and> (\<forall>k \<in> set (map fst (keys createTaskSchema)).
               task_field t k = sanitized e createTaskSchema raw k)
        \<and> (\<forall>k x. k \<in> {''title'', ''description'', ''category'', ''priority''} \<longrightarrow>
               map_of raw k = Some (JStr x) \<longrightarrow> task_field t k = Some (JStr (trim x)))
        \<and> (map_of raw ''completed'' = None \<longrightarrow> task_field t ''completed'' = Some (JBool False)))"
    by (rule round_trip_after_created)
next
  show "(\<forall>k. violations e createTaskSchema raw k = []) \<and>
       sanitized e createTaskSchema raw ''deadline'' = Some (JDate due) \<and> due \<le> model_now e
       \<longrightarrow> post_tasks e s (JObj raw) =
             (Inr \<lparr>res_status = 400,
                   res_payload =
                     JObj ([(''status'', JStr ''fail''),
                            (''message'',
                             JStr ''Invalid input data: Deadline must be a future date'')] @
                           (if NODE_ENV e = Some ''development''
                            then [(''stack'', JStr (trace e))] else []))\<rparr>, s)"
  proof
    assume a: "(\<forall>k. violations e createTaskSchema raw k = []) \<and>
       sanitized e createTaskSchema raw ''deadline'' = Some (JDate due) \<and> due \<le> model_now e"
    show "post_tasks e s (JObj raw) =
             (Inr \<lparr>res_status = 400,
                   res_payload =
                     JObj ([(''status'', JStr ''fail''),
                            (''message'',
                             JStr ''Invalid input data: Deadline must be a future date'')] @
                           (if NODE_ENV e = Some ''development''
                            then [(''stack'', JStr (trace e))] else []))\<rparr>, s)"
      using due_payload_refused[OF a[THEN conjunct1] a[THEN conjunct2, THEN conjunct1]
          a[THEN conjunct2, THEN conjunct2]] .
  qed
qed

lemma post_sample:
  "post_tasks sample_env [] (JObj sample_body) =
     (Inr \<lparr>res_status = 201,
           res_payload =
             JObj [(''status'', JStr ''success''),
                   (''data'', JObj [(''task'', JObj sample_created)])]\<rparr>,
      [sample_created])"
  by code_simp

lemma sample_deadline_later:
  "\<forall>t. sanitized sample_env createTaskSchema sample_body ''deadline'' = Some (JDate t) \<longrightarrow>
     model_now sample_env < t"
  by (simp add: sanitized_def createTaskSchema_def sample_body_def field_value_def coerce_def
      sample_env_def sample_parse_def)

lemma sample_now_body_valid: "violations sample_env createTaskSchema sample_now_body k = []"
proof (cases "k \<in> set (map fst (keys createTaskSchema))")
  case False
  then have "map_of (keys createTaskSchema) k = None" by (simp add: map_of_eq_None_iff)
  then show ?thesis by (simp add: violations_def)
next
  case True
  then have "k = ''title'' \<or> k = ''description'' \<or> k = ''category'' \<or> k = ''priority'' \<or>
      k = ''deadline'' \<or> k = ''completed''"
    by (simp add: createTaskSchema_def)
  then show ?thesis
    by (elim disjE)
       (simp_all add: violations_def createTaskSchema_def sample_now_body_def field_errors_def
          coerce_def trim_def is_space_def base_error_def validateRequest_options_def
          sample_env_def sample_parse_def)
qed

lemma sample_now_deadline:
  "sanitized sample_env createTaskSchema sample_now_body ''deadline'' =
     Some (JDate 1767225600000)"
  by (simp add: sanitized_def createTaskSchema_def sample_now_body_def field_value_def
      coerce_def sample_env_def sample_parse_def)

theorem create_then_get_round_trip_witness:
  "violations sample_env createTaskSchema sample_body ''title'' = []
   \<and> \<not> list_ex (has_id (new_id sample_env)) []
   \<and> sanitized sample_env createTaskSchema sample_body ''deadline'' = Some (JDate 1893456000000)
   \<and> model_now sample_env < 1893456000000
   \<and> (\<exists>r s'. post_tasks sample_env [] (JObj sample_body) = (Inr r, s') \<and> res_status r = 201)
   \<and> post_tasks sample_env [] (JObj sample_body) =
       (Inr \<lparr>res_status = 201,
             res_payload =
               JObj [(''status'', JStr ''success''),
                     (''data'', JObj [(''task'', JObj sample_created)])]\<rparr>,
        [sample_created])
   \<and> cast_id sample_env (new_id sample_env) = Some (new_id sample_env)
   \<and> get_task sample_env [sample_created] (new_id sample_env) =
       Inr \<lparr>res_status = 200,
            res_payload =
              JObj [(''status'', JStr ''success''),
                    (''data'', JObj [(''task'', JObj sample_created)])]\<rparr>
   \<and> task_field (JObj sample_created) ''title'' = Some (JStr (trim ''  Write report ''))
   \<and> task_field (JObj sample_created) ''completed'' = Some (JBool False)
   \<and> violations sample_env createTaskSchema sample_now_body ''deadline'' = []
   \<and> sanitized sample_env createTaskSchema sample_now_body ''deadline'' =
       Some (JDate 1767225600000)
   \<and> 1767225600000 \<le> model_now sample_env
   \<and> post_tasks sample_env [] (JObj sample_now_body) =
       (Inr \<lparr>res_status = 400,
             res_payload =
               JObj [(''status'', JStr ''fail''),
                     (''message'',
                      JStr ''Invalid input data: Deadline must be a future date'')]\<rparr>, [])"
proof -
  have nv: "\<forall>k. violations sample_env createTaskSchema sample_body k = []"
    using sample_body_valid by (intro allI)
  have c: "cast_id sample_env (new_id sample_env) = Some (new_id sample_env)"
    by (simp add: sample_env_def sample_cast_id_def)
  have st: "res_status \<lparr>res_status = 201,
             res_payload =
               JObj [(''status'', JStr ''success''),
                     (''data'', JObj [(''task'', JObj sample_created)])]\<rparr> = 201"
    by simp
  obtain t where all: "response_task \<lparr>res_status = 201,
             res_payload =
               JObj [(''status'', JStr ''success''),
                     (''data'', JObj [(''task'', JObj sample_created)])]\<rparr> = Some t
        \<and> get_task sample_env [sample_created] (new_id sample_env) =
            Inr (res_json 200
                   (obj [(''status'', Some (JStr ''success'')),
                         (''data'', Some (obj [(''task'', Some t)]))]))
        \<and> task_field t ''_id'' = Some (JStr (new_id sample_env))
        \<and> task_field t ''createdAt'' = Some (JDate (stamp_now sample_env))
        \<and> task_field t ''updatedAt'' = Some (JDate (stamp_now sample_env))
        \<and> (\<forall>k \<in> set (map fst (keys createTaskSchema)).
               task_field t k = sanitized sample_env createTaskSchema sample_body k)
        \<and> (\<forall>k x. k \<in> {''title'', ''description'', ''category'', ''priority''} \<longrightarrow>
               map_of sample_body k = Some (JStr x) \<longrightarrow> task_field t k = Some (JStr (trim x)))
        \<and> (map_of sample_body ''completed'' = None \<longrightarrow>
             task_field t ''completed'' = Some (JBool False))"
    using create_then_get_round_trip
      [where e = sample_env and e' = sample_env and raw = sample_body and s = "[]"
         and s' = "[sample_created]",
       THEN conjunct2, THEN conjunct1, THEN mp,
       OF conjI[OF nv conjI[OF post_sample conjI[OF st c]]]]
    by (rule exE)
  have fresh: "\<not> list_ex (has_id (new_id sample_env)) []" by simp
  have sd: "sanitized sample_env createTaskSchema sample_body ''deadline'' =
      Some (JDate 1893456000000)"
    by (simp add: sanitized_def createTaskSchema_def sample_body_def field_value_def coerce_def
        sample_env_def sample_parse_def)
  have ml: "model_now sample_env < 1893456000000" by (simp add: sample_env_def)
  have created: "\<exists>r s'. post_tasks sample_env [] (JObj sample_body) = (Inr r, s') \<and>
      res_status r = 201"
    using create_then_get_round_trip
      [where e = sample_env and raw = sample_body and s = "[]",
       THEN conjunct1, THEN mp, OF conjI[OF nv conjI[OF fresh sample_deadline_later]]] .
  have t: "t = JObj sample_created"
    using all[THEN conjunct1] by (simp add: response_task_def)
  note g = all[THEN conjunct2, THEN conjunct1, unfolded t]
  note tr = all[THEN conjunct2, THEN conjunct2, THEN conjunct2, THEN conjunct2,
      THEN conjunct2, THEN conjunct2, THEN conjunct1, unfolded t, rule_format,
      of "''title''" "''  Write report ''"]
  note cm = all[THEN conjunct2, THEN conjunct2, THEN conjunct2, THEN conjunct2,
      THEN conjunct2, THEN conjunct2, THEN conjunct2, unfolded t, THEN mp]
  have g': "get_task sample_env [sample_created] (new_id sample_env) =
       Inr \<lparr>res_status = 200,
            res_payload =
              JObj [(''status'', JStr ''success''),
                    (''data'', JObj [(''task'', JObj sample_created)])]\<rparr>"
    using g by (simp add: res_json_def obj_def)
  have t1: "task_field (JObj sample_created) ''title'' = Some (JStr (trim ''  Write report ''))"
    using tr by (simp add: sample_body_def)
  have t2: "task_field (JObj sample_created) ''completed'' = Some (JBool False)"
    using cm by (simp add: sample_body_def)
  have nv2: "\<forall>k. violations sample_env createTaskSchema sample_now_body k = []"
    using sample_now_body_valid by (intro allI)
  have due: "1767225600000 \<le> model_now sample_env" by (simp add: sample_env_def)
  have refused: "post_tasks sample_env [] (JObj sample_now_body) =
       (Inr \<lparr>res_status = 400,
             res_payload =
               JObj [(''status'', JStr ''fail''),
                     (''message'',
                      JStr ''Invalid input data: Deadline must be a future date'')]\<rparr>, [])"
    using create_then_get_round_trip
      [where e = sample_env and raw = sample_now_body and s = "[]"
         and due = 1767225600000,
       THEN conjunct2, THEN conjunct2, THEN mp,
       OF conjI[OF nv2 conjI[OF sample_now_deadline due]]]
    by (simp add: sample_env_def)
  show ?thesis
    by (intro conjI)
       (rule nv[rule_format] fresh sd ml created post_sample c g' t1 t2 nv2[rule_format]
          sample_now_deadline due refused)+
qed

text \<open>
  C7 as stated fails: a create payload whose deadline is the instant of its validation
  passes the validation middleware, and the model's validator, which runs later and asks
  for a deadline after its own clock, refuses it. The request is answered 400 and nothing
  is stored.
\<close>

theorem valid_payload_due_now_is_400:
  "validateRequest sample_env createTaskSchema (JObj sample_now_body) =
     Forward (JObj [(''title'', JStr ''Write report''), (''category'', JStr ''Work''),
                    (''priority'', JStr ''High''), (''deadline'', JDate 1767225600000),
                    (''completed'', JBool False)])
   \<and> joi_now sample_env = 1767225600000
   \<and> model_now sample_env = 1767225600001
   \<and> post_tasks sample_env [] (JObj sample_now_body) =
       (Inr \<lparr>res_status = 400,
             res_payload =
               JObj [(''status'', JStr ''fail''),
                     (''message'',
                      JStr ''Invalid input data: Deadline must be a future date'')]\<rparr>, [])"
proof -
  have nv: "\<forall>k. violations sample_env createTaskSchema sample_now_body k = []"
    using sample_now_body_valid by (intro allI)
  have due: "1767225600000 \<le> model_now sample_env" by (simp add: sample_env_def)
  have v: "validateRequest sample_env createTaskSchema (JObj sample_now_body) =
     Forward (JObj [(''title'', JStr ''Write report''), (''category'', JStr ''Work''),
                    (''priority'', JStr ''High''), (''deadline'', JDate 1767225600000),
                    (''completed'', JBool False)])"
    by code_simp
  have p: "post_tasks sample_env [] (JObj sample_now_body) =
       (Inr \<lparr>res_status = 400,
             res_payload =
               JObj [(''status'', JStr ''fail''),
                     (''message'',
                      JStr ''Invalid input data: Deadline must be a future date'')]\<rparr>, [])"
    using due_payload_refused[OF nv sample_now_deadline due, of "[]"]
    by (simp add: sample_env_def)
  show ?thesis using v p by (simp add: sample_env_def)
qed

end
